theory Spec2Isabelle
  imports Complex_Main
begin

section \<open>Floating-point values\<close>

text \<open>
  The C code works on \<^verbatim>\<open>float\<close> and \<^verbatim>\<open>double\<close> samples. They are modelled by
  the type \<open>fp\<close>: a finite value is a real, and the three IEEE special values are kept,
  because the code tests for them (\<^verbatim>\<open>isnanf\<close>) and can produce them (an unguarded
  division). The operations of this section follow IEEE 754 on the special values and are
  exact on finite values: the kernels are modelled in exact arithmetic (rounding, overflow
  to infinity and the sign of zero are left out there). The additions of the reduction
  over the channels are rounded to single precision, see \<open>faddf\<close> below.
\<close>

datatype fp = Fin real | PInf | NInf | NaN

fun is_fin :: "fp \<Rightarrow> bool" where
  "is_fin (Fin _) = True"
| "is_fin _ = False"

fun val :: "fp \<Rightarrow> real" where
  "val (Fin r) = r"
| "val _ = 0"

fun fneg :: "fp \<Rightarrow> fp" where
  "fneg (Fin a) = Fin (- a)"
| "fneg PInf = NInf"
| "fneg NInf = PInf"
| "fneg NaN = NaN"

fun fadd :: "fp \<Rightarrow> fp \<Rightarrow> fp" where
  "fadd (Fin a) (Fin b) = Fin (a + b)"
| "fadd NaN _ = NaN"
| "fadd _ NaN = NaN"
| "fadd PInf NInf = NaN"
| "fadd NInf PInf = NaN"
| "fadd PInf _ = PInf"
| "fadd _ PInf = PInf"
| "fadd NInf _ = NInf"
| "fadd _ NInf = NInf"

definition fsub :: "fp \<Rightarrow> fp \<Rightarrow> fp" where
  "fsub a b = fadd a (fneg b)"

text \<open>The sign of an infinite product: \<open>inf_of True\<close> is \<open>+inf\<close>.\<close>

definition inf_of :: "bool \<Rightarrow> fp" where
  "inf_of pos = (if pos then PInf else NInf)"

fun fmul :: "fp \<Rightarrow> fp \<Rightarrow> fp" where
  "fmul (Fin a) (Fin b) = Fin (a * b)"
| "fmul NaN _ = NaN"
| "fmul _ NaN = NaN"
| "fmul (Fin a) PInf = (if a = 0 then NaN else inf_of (0 < a))"
| "fmul (Fin a) NInf = (if a = 0 then NaN else inf_of (a < 0))"
| "fmul PInf (Fin b) = (if b = 0 then NaN else inf_of (0 < b))"
| "fmul NInf (Fin b) = (if b = 0 then NaN else inf_of (b < 0))"
| "fmul PInf PInf = PInf"
| "fmul NInf NInf = PInf"
| "fmul PInf NInf = NInf"
| "fmul NInf PInf = NInf"

text \<open>
  Division: a finite value divided by zero is \<open>NaN\<close> when the dividend is zero and an
  infinity of the dividend's sign otherwise (the divisor is taken as \<open>+0\<close>).
\<close>

fun fdiv :: "fp \<Rightarrow> fp \<Rightarrow> fp" where
  "fdiv (Fin a) (Fin b) =
     (if b = 0 then (if a = 0 then NaN else inf_of (0 < a)) else Fin (a / b))"
| "fdiv NaN _ = NaN"
| "fdiv _ NaN = NaN"
| "fdiv (Fin a) PInf = Fin 0"
| "fdiv (Fin a) NInf = Fin 0"
| "fdiv PInf (Fin b) = inf_of (0 \<le> b)"
| "fdiv NInf (Fin b) = inf_of (b < 0)"
| "fdiv PInf PInf = NaN"
| "fdiv PInf NInf = NaN"
| "fdiv NInf PInf = NaN"
| "fdiv NInf NInf = NaN"

fun fsqrt :: "fp \<Rightarrow> fp" where
  "fsqrt (Fin a) = (if a < 0 then NaN else Fin (sqrt a))"
| "fsqrt PInf = PInf"
| "fsqrt NInf = NaN"
| "fsqrt NaN = NaN"

fun fabs :: "fp \<Rightarrow> fp" where
  "fabs (Fin a) = Fin \<bar>a\<bar>"
| "fabs PInf = PInf"
| "fabs NInf = PInf"
| "fabs NaN = NaN"

text \<open>Comparisons: every comparison with \<open>NaN\<close> is false.\<close>

fun flt :: "fp \<Rightarrow> fp \<Rightarrow> bool" where
  "flt (Fin a) (Fin b) = (a < b)"
| "flt NaN _ = False"
| "flt _ NaN = False"
| "flt NInf NInf = False"
| "flt NInf _ = True"
| "flt PInf _ = False"
| "flt (Fin a) PInf = True"
| "flt (Fin a) NInf = False"

definition fgt :: "fp \<Rightarrow> fp \<Rightarrow> bool" where
  "fgt a b = flt b a"

definition isnanf :: "fp \<Rightarrow> bool" where
  "isnanf a = (a = NaN)"

subsection \<open>Rounding\<close>

text \<open>
  Where a claim is about the value of a sum and not only about its shape, the additions
  are rounded as the machine rounds them. \<open>round_binary\<close> rounds a real to the nearest
  value with a significand of \<open>p\<close> bits and an exponent of at least \<open>emin\<close>, ties to the
  even significand; \<open>binary_exponent\<close> finds the exponent of a positive real by halving or
  doubling, at most \<open>n\<close> times. \<open>round_binary32\<close> is the rounding of a \<^verbatim>\<open>float\<close> (24 bits,
  exponents from \<open>-126\<close>, overflow to an infinity) and \<open>faddf\<close> is the \<^verbatim>\<open>float\<close> addition.
\<close>

fun binary_exponent :: "nat \<Rightarrow> real \<Rightarrow> int" where
  "binary_exponent 0 x = 0"
| "binary_exponent (Suc n) x =
     (if 2 \<le> x then binary_exponent n (x / 2) + 1
      else if x < 1 then binary_exponent n (2 * x) - 1
      else 0)"

definition round_even :: "real \<Rightarrow> int" where
  "round_even x =
     (let f = \<lfloor>x\<rfloor>
      in if x - of_int f < 1 / 2 then f
         else if 1 / 2 < x - of_int f then f + 1
         else if even f then f else f + 1)"

definition round_binary :: "nat \<Rightarrow> int \<Rightarrow> real \<Rightarrow> real" where
  "round_binary p emin x =
     (if x = 0 then 0
      else let e = max (binary_exponent 2200 \<bar>x\<bar>) emin;
               q = 2 powi (e - int p + 1)
           in of_int (round_even (x / q)) * q)"

definition round_binary32 :: "real \<Rightarrow> fp" where
  "round_binary32 x =
     (let r = round_binary 24 (- 126) x
      in if 2 ^ 128 \<le> \<bar>r\<bar> then inf_of (0 < r) else Fin r)"

definition faddf :: "fp \<Rightarrow> fp \<Rightarrow> fp" where
  "faddf a b = (case fadd a b of Fin x \<Rightarrow> round_binary32 x | v \<Rightarrow> v)"

text \<open>Buffers are C arrays seen from their base pointer: a cell for every index.\<close>

type_synonym fbuf = "nat \<Rightarrow> fp"


type_synonym cbuf = "nat \<Rightarrow> fp \<times> fp"

text \<open>\<^verbatim>\<open>&b[off]\<close>: the array seen from an element.\<close>

definition offset_buf :: "(nat \<Rightarrow> 'a) \<Rightarrow> nat \<Rightarrow> (nat \<Rightarrow> 'a)" where
  "offset_buf b off = (\<lambda>i. b (off + i))"

text \<open>The memory after a callee wrote through \<^verbatim>\<open>&b[off]\<close> and left it as \<open>b'\<close>.\<close>

definition store_buf :: "(nat \<Rightarrow> 'a) \<Rightarrow> nat \<Rightarrow> (nat \<Rightarrow> 'a) \<Rightarrow> (nat \<Rightarrow> 'a)" where
  "store_buf b off b' = (\<lambda>a. if off \<le> a then b' (a - off) else b a)"

section \<open>The FFTW transforms\<close>

text \<open>
  FFTW is an external library. Its plans and their execution are modelled from the FFTW
  manual: \<^verbatim>\<open>fftw_plan_dft_r2c_2d(n0, n1, ...)\<close> is the unnormalised forward transform of a
  real \<open>n0 \<times> n1\<close> array, of which the first \<open>n1 div 2 + 1\<close> columns are stored;
  \<^verbatim>\<open>fftw_plan_dft_c2r_2d(n0, n1, ...)\<close> is the unnormalised backward transform of such a
  half array, completed by Hermitian symmetry. A transform of finite values is exact here;
  a transform whose input holds a special value yields \<open>NaN\<close>.
\<close>

datatype fftw_plan = Plan_r2c_2d nat nat | Plan_r2c_1d nat | Plan_c2r_2d nat nat

definition unity_root :: "nat \<Rightarrow> int \<Rightarrow> complex" where
  "unity_root n m = cis (2 * pi * of_int m / of_nat n)"

definition dft_r2c_1d :: "nat \<Rightarrow> (nat \<Rightarrow> real) \<Rightarrow> nat \<Rightarrow> complex" where
  "dft_r2c_1d n x k = (\<Sum>j<n. of_real (x j) * unity_root n (- (int j * int k)))"

definition dft_r2c_2d :: "nat \<Rightarrow> nat \<Rightarrow> (nat \<Rightarrow> real) \<Rightarrow> nat \<Rightarrow> nat \<Rightarrow> complex" where
  "dft_r2c_2d n0 n1 x k0 k1 =
     (\<Sum>j0<n0. \<Sum>j1<n1. of_real (x (j0 * n1 + j1))
         * unity_root n0 (- (int j0 * int k0)) * unity_root n1 (- (int j1 * int k1)))"

definition herm :: "nat \<Rightarrow> nat \<Rightarrow> (nat \<Rightarrow> complex) \<Rightarrow> nat \<Rightarrow> nat \<Rightarrow> complex" where
  "herm n0 n1 X k0 k1 =
     (if k1 \<le> n1 div 2 then X (k0 * (n1 div 2 + 1) + k1)
      else cnj (X (((n0 - k0) mod n0) * (n1 div 2 + 1) + (n1 - k1))))"

definition dft_c2r_2d :: "nat \<Rightarrow> nat \<Rightarrow> (nat \<Rightarrow> complex) \<Rightarrow> nat \<Rightarrow> nat \<Rightarrow> real" where
  "dft_c2r_2d n0 n1 X j0 j1 =
     Re (\<Sum>k0<n0. \<Sum>k1<n1. herm n0 n1 X k0 k1
         * unity_root n0 (int j0 * int k0) * unity_root n1 (int j1 * int k1))"

definition fin_upto :: "nat \<Rightarrow> fbuf \<Rightarrow> bool" where
  "fin_upto n b = (\<forall>i<n. is_fin (b i))"

definition cfin_upto :: "nat \<Rightarrow> cbuf \<Rightarrow> bool" where
  "cfin_upto n b = (\<forall>i<n. is_fin (fst (b i)) \<and> is_fin (snd (b i)))"

definition cval :: "fp \<times> fp \<Rightarrow> complex" where
  "cval z = Complex (val (fst z)) (val (snd z))"

definition cfp :: "complex \<Rightarrow> fp \<times> fp" where
  "cfp z = (Fin (Re z), Fin (Im z))"

text \<open>
  \<^verbatim>\<open>fftw_execute_dft_r2c(plan, in, out)\<close> and \<^verbatim>\<open>fftw_execute_dft_c2r(plan, in, out)\<close>:
  the new contents of \<open>out\<close>. Cells beyond the transform's size keep their contents.
\<close>

definition fftw_execute_dft_r2c :: "fftw_plan \<Rightarrow> fbuf \<Rightarrow> cbuf \<Rightarrow> cbuf" where
  "fftw_execute_dft_r2c p inp out =
     (case p of
        Plan_r2c_2d n0 n1 \<Rightarrow>
          (\<lambda>idx. if idx < n0 * (n1 div 2 + 1)
             then (if fin_upto (n0 * n1) inp
                   then cfp (dft_r2c_2d n0 n1 (\<lambda>i. val (inp i))
                               (idx div (n1 div 2 + 1)) (idx mod (n1 div 2 + 1)))
                   else (NaN, NaN))
             else out idx)
      | Plan_r2c_1d n \<Rightarrow>
          (\<lambda>idx. if idx < n div 2 + 1
             then (if fin_upto n inp then cfp (dft_r2c_1d n (\<lambda>i. val (inp i)) idx)
                   else (NaN, NaN))
             else out idx)
      | Plan_c2r_2d n0 n1 \<Rightarrow> out)"

definition fftw_execute_dft_c2r :: "fftw_plan \<Rightarrow> cbuf \<Rightarrow> fbuf \<Rightarrow> fbuf" where
  "fftw_execute_dft_c2r p inp out =
     (case p of
        Plan_c2r_2d n0 n1 \<Rightarrow>
          (\<lambda>idx. if idx < n0 * n1
             then (if cfin_upto (n0 * (n1 div 2 + 1)) inp
                   then Fin (dft_c2r_2d n0 n1 (\<lambda>i. cval (inp i)) (idx div n1) (idx mod n1))
                   else NaN)
             else out idx)
      | _ \<Rightarrow> out)"

section \<open>The single-channel FFT kernel\<close>

text \<open>
  \<^verbatim>\<open>normxcorr_fftw_main\<close>, loop by loop. Lengths and counts are naturals; the number of
  output columns \<^verbatim>\<open>image_len - template_len + 1\<close> is \<open>image_len + 1 - template_len\<close>,
  which is the C value whenever \<open>template_len \<le> image_len + 1\<close> (below that the C value
  is negative and the model does not follow the code).
\<close>

definition acceptedDiff :: fp where
  "acceptedDiff = Fin (1 / 10000000)"

text \<open>Zero padding and flip of the templates, with the sums of their samples.\<close>

definition flip_templates ::
  "fbuf \<Rightarrow> nat \<Rightarrow> nat \<Rightarrow> nat \<Rightarrow> fbuf \<Rightarrow> fbuf \<times> fbuf" where
  "flip_templates templates template_len n_templates fft_len template_ext =
     fold (\<lambda>t. fold (\<lambda>i (te, ns).
              (te(t * fft_len + i := templates ((t + 1) * template_len - (i + 1))),
               ns(t := fadd (ns t) (templates (t * template_len + i)))))
            [0..<template_len])
       [0..<n_templates] (template_ext, \<lambda>_. Fin 0)"

definition copy_image :: "fbuf \<Rightarrow> nat \<Rightarrow> fbuf \<Rightarrow> fbuf" where
  "copy_image img image_len image_ext =
     fold (\<lambda>i ie. ie(i := img i)) [0..<image_len] image_ext"

definition dot_product :: "nat \<Rightarrow> nat \<Rightarrow> cbuf \<Rightarrow> cbuf \<Rightarrow> cbuf \<Rightarrow> cbuf" where
  "dot_product n_templates N2 outa outb out =
     fold (\<lambda>t. fold (\<lambda>i out.
              out(t * N2 + i :=
                (fsub (fmul (fst (outa (t * N2 + i))) (fst (outb i)))
                      (fmul (snd (outa (t * N2 + i))) (snd (outb i))),
                 fadd (fmul (fst (outa (t * N2 + i))) (snd (outb i)))
                      (fmul (snd (outa (t * N2 + i))) (fst (outb i))))))
            [0..<N2])
       [0..<n_templates] out"

definition start_mean :: "fbuf \<Rightarrow> nat \<Rightarrow> fp" where
  "start_mean img template_len =
     fdiv (fold (\<lambda>i sum. fadd sum (img i)) [0..<template_len] (Fin 0))
          (Fin (real template_len))"

definition start_var :: "fbuf \<Rightarrow> nat \<Rightarrow> fp \<Rightarrow> fp" where
  "start_var img template_len mean =
     fold (\<lambda>i var. fadd var (fdiv (fmul (fsub (img i) mean) (fsub (img i) mean))
                                   (Fin (real template_len))))
       [0..<template_len] (Fin 0)"

text \<open>The value \<^verbatim>\<open>c\<close> of template \<open>t\<close> at column \<open>i\<close>.\<close>

definition corr_value ::
  "fbuf \<Rightarrow> fbuf \<Rightarrow> nat \<Rightarrow> nat \<Rightarrow> nat \<Rightarrow> fp \<Rightarrow> fp \<Rightarrow> nat \<Rightarrow> nat \<Rightarrow> fp" where
  "corr_value ccc norm_sums fft_len n_templates startind mean stdev t i =
     fdiv (fsub (fdiv (ccc (t * fft_len + i + startind)) (Fin (real (fft_len * n_templates))))
                (fmul (norm_sums t) mean))
          stdev"

definition first_column ::
  "fbuf \<Rightarrow> fbuf \<Rightarrow> nat \<Rightarrow> nat \<Rightarrow> nat \<Rightarrow> nat \<Rightarrow> fp \<Rightarrow> fp \<Rightarrow> fbuf \<Rightarrow> fbuf" where
  "first_column ccc norm_sums fft_len n_templates template_len steps mean var ncc =
     fold (\<lambda>t ncc.
            if flt var acceptedDiff then ncc(t * steps := Fin 0)
            else ncc(t * steps :=
                   corr_value ccc norm_sums fft_len n_templates (template_len - 1)
                     mean (fsqrt var) t 0))
       [0..<n_templates] ncc"

text \<open>The running update of the mean and the variance at the head of column \<open>i\<close>.\<close>

definition update_moments :: "fbuf \<Rightarrow> nat \<Rightarrow> nat \<Rightarrow> fp \<times> fp \<Rightarrow> fp \<times> fp" where
  "update_moments img template_len i =
     (\<lambda>(mean, var).
        let new_samp = img (i + template_len - 1);
            old_samp = img (i - 1);
            old_mean = mean;
            mean = fadd mean (fdiv (fsub new_samp old_samp) (Fin (real template_len)));
            var = fadd var
                    (fdiv (fmul (fsub new_samp old_samp)
                                (fsub (fadd (fsub new_samp mean) old_samp) old_mean))
                          (Fin (real template_len)))
        in (mean, var))"

definition next_column ::
  "fbuf \<Rightarrow> fbuf \<Rightarrow> fbuf \<Rightarrow> nat \<Rightarrow> nat \<Rightarrow> nat \<Rightarrow> nat \<Rightarrow> nat
     \<Rightarrow> fp \<times> fp \<times> fbuf \<Rightarrow> fp \<times> fp \<times> fbuf" where
  "next_column img ccc norm_sums fft_len n_templates template_len steps i =
     (\<lambda>(mean, var, ncc).
        let (mean, var) = update_moments img template_len i (mean, var);
            stdev = fsqrt var
        in (mean, var,
            fold (\<lambda>t ncc.
                   if fgt var acceptedDiff
                   then ncc(t * steps + i :=
                          corr_value ccc norm_sums fft_len n_templates (template_len - 1)
                            mean stdev t i)
                   else ncc(t * steps + i := Fin 0))
              [0..<n_templates] ncc))"

definition normxcorr_fftw_main ::
  "fbuf \<Rightarrow> nat \<Rightarrow> nat \<Rightarrow> fbuf \<Rightarrow> nat \<Rightarrow> fbuf \<Rightarrow> nat \<Rightarrow> fbuf \<Rightarrow> fbuf \<Rightarrow> fbuf
     \<Rightarrow> cbuf \<Rightarrow> cbuf \<Rightarrow> cbuf \<Rightarrow> fftw_plan \<Rightarrow> fftw_plan \<Rightarrow> fftw_plan \<Rightarrow> int \<times> fbuf" where
  "normxcorr_fftw_main templates template_len n_templates img image_len ncc fft_len
       template_ext image_ext ccc outa outb out pa pb px =
     (let N2 = fft_len div 2 + 1;
          steps = image_len + 1 - template_len;
          (template_ext, norm_sums) =
             flip_templates templates template_len n_templates fft_len template_ext;
          image_ext = copy_image img image_len image_ext;
          outa = fftw_execute_dft_r2c pa template_ext outa;
          outb = fftw_execute_dft_r2c pb image_ext outb;
          out = dot_product n_templates N2 outa outb out;
          ccc = fftw_execute_dft_c2r px out ccc;
          mean = start_mean img template_len;
          var = start_var img template_len mean;
          ncc = first_column ccc norm_sums fft_len n_templates template_len steps mean var ncc;
          (mean, var, ncc) =
             fold (next_column img ccc norm_sums fft_len n_templates template_len steps)
               [1..<steps] (mean, var, ncc)
      in (0, ncc))"

section \<open>The time-domain kernel\<close>

text \<open>\<^verbatim>\<open>normxcorr_time\<close>: the first offset, then one offset per iteration.\<close>

definition time_sums :: "fbuf \<Rightarrow> fbuf \<Rightarrow> nat \<Rightarrow> nat \<Rightarrow> fp \<Rightarrow> fp \<times> fp" where
  "time_sums template img template_len k mean =
     fold (\<lambda>p (numerator, auto_b).
            (fadd numerator (fmul (template p) (fsub (img (p + k)) mean)),
             fadd auto_b (fmul (fsub (img (p + k)) mean) (fsub (img (p + k)) mean))))
       [0..<template_len] (Fin 0, Fin 0)"

definition time_auto_a :: "fbuf \<Rightarrow> nat \<Rightarrow> fp" where
  "time_auto_a template template_len =
     fold (\<lambda>p auto_a. fadd auto_a (fmul (template p) (template p))) [0..<template_len] (Fin 0)"

definition time_step :: "fbuf \<Rightarrow> fbuf \<Rightarrow> nat \<Rightarrow> fp \<Rightarrow> nat \<Rightarrow> fp \<times> fbuf \<Rightarrow> fp \<times> fbuf" where
  "time_step template img template_len auto_a k =
     (\<lambda>(mean, ccc).
        let mean = fadd mean (fdiv (fsub (img (k + template_len - 1)) (img (k - 1)))
                                   (Fin (real template_len)));
            (numerator, auto_b) = time_sums template img template_len k mean;
            denom = fsqrt (fmul auto_a auto_b)
        in (mean, ccc(k := fdiv numerator denom)))"

definition normxcorr_time :: "fbuf \<Rightarrow> nat \<Rightarrow> fbuf \<Rightarrow> nat \<Rightarrow> fbuf \<Rightarrow> int \<times> fbuf" where
  "normxcorr_time template template_len img image_len ccc =
     (let steps = image_len + 1 - template_len;
          mean = start_mean img template_len;
          auto_a = time_auto_a template template_len;
          (numerator, auto_b) = time_sums template img template_len 0 mean;
          denom = fsqrt (fmul auto_a auto_b);
          ccc = ccc(0 := fdiv numerator denom);
          (mean, ccc) = fold (time_step template img template_len auto_a) [1..<steps] (mean, ccc)
      in (0, ccc))"

section \<open>The multi-channel routine\<close>

subsection \<open>Post-processing of one trace\<close>

text \<open>
  The body of the loop over the templates of channel \<open>i\<close>: mask or sanitise the trace of
  template \<open>j\<close>, then apply the pad when the overflow count \<open>s\<close> is zero.
\<close>

definition zero_trace :: "nat \<Rightarrow> nat \<Rightarrow> fbuf \<Rightarrow> fbuf" where
  "zero_trace base sz ncc = fold (\<lambda>k ncc. ncc(base + k := Fin 0)) [0..<sz] ncc"

definition sanitise_sample :: "nat \<Rightarrow> int \<times> fbuf \<Rightarrow> int \<times> fbuf" where
  "sanitise_sample index =
     (\<lambda>(s, ncc).
        if isnanf (ncc index) then (s, ncc(index := Fin 0))
        else if fgt (fabs (ncc index)) (Fin (101 / 100)) then (s + 1, ncc)
        else if fgt (ncc index) (Fin 1) then (s, ncc(index := Fin 1))
        else if flt (ncc index) (Fin (- 1)) then (s, ncc(index := Fin (- 1)))
        else (s, ncc))"

definition sanitise_trace :: "nat \<Rightarrow> nat \<Rightarrow> int \<times> fbuf \<Rightarrow> int \<times> fbuf" where
  "sanitise_trace base sz = fold (\<lambda>k. sanitise_sample (base + k)) [0..<sz]"

text \<open>The pad is an \<^verbatim>\<open>int\<close> stored into a \<^verbatim>\<open>size_t\<close>: a negative pad wraps around.\<close>

definition size_t_of_int :: "int \<Rightarrow> nat" where
  "size_t_of_int p = nat (p mod 2 ^ 64)"

definition apply_pad :: "nat \<Rightarrow> nat \<Rightarrow> nat \<Rightarrow> fbuf \<Rightarrow> fbuf" where
  "apply_pad base sz k0 ncc =
     (let ncc = fold (\<lambda>m ncc. ncc(base + m := ncc (base + (k0 + m)))) [0..<sz - k0] ncc
      in fold (\<lambda>k ncc. ncc(base + k := Fin 0)) [sz - k0..<sz] ncc)"

definition post_process ::
  "(nat \<Rightarrow> int) \<Rightarrow> (nat \<Rightarrow> int) \<Rightarrow> nat \<Rightarrow> nat \<Rightarrow> nat \<Rightarrow> nat \<Rightarrow> nat
     \<Rightarrow> int \<times> fbuf \<Rightarrow> int \<times> fbuf" where
  "post_process used_chans pad_array n_templates sz i ncc_offset j =
     (\<lambda>(s, ncc).
        let (s, ncc) =
              (if used_chans (i * n_templates + j) = 0
               then (s, zero_trace (ncc_offset + j * sz) sz ncc)
               else sanitise_trace (ncc_offset + j * sz) sz (s, ncc))
        in if s = 0
           then (s, apply_pad (ncc_offset + j * sz) sz
                      (size_t_of_int (pad_array (i * n_templates + j))) ncc)
           else (s, ncc))"

subsection \<open>Allocation\<close>

text \<open>
  The routine allocates six arrays of pointers and then six buffers per worker. A
  request can fail: \<open>alloc_fails k\<close> says that the \<open>k\<close>-th request of the call returns
  \<^verbatim>\<open>NULL\<close>. A block is named by the number of its request, and the heap is the set of
  blocks of the call that are live. The arrays are numbered in the order of the code:
  \<^verbatim>\<open>template_ext, image_ext, ccc, outa, outb, out\<close>.
\<close>

type_synonym heap = "nat set"

definition malloc :: "(nat \<Rightarrow> bool) \<Rightarrow> nat \<Rightarrow> heap \<Rightarrow> nat option \<times> heap" where
  "malloc alloc_fails k h = (if alloc_fails k then (None, h) else (Some k, insert k h))"

definition free :: "nat option \<Rightarrow> heap \<Rightarrow> heap" where
  "free p h = (case p of None \<Rightarrow> h | Some b \<Rightarrow> h - {b})"

definition free_fftw_arrays ::
  "nat \<Rightarrow> (nat \<Rightarrow> nat option) \<Rightarrow> (nat \<Rightarrow> nat \<Rightarrow> nat option) \<Rightarrow> heap \<Rightarrow> heap" where
  "free_fftw_arrays sz outer inner h =
     (let h = fold (\<lambda>i. fold (\<lambda>a. free (inner a i)) [0..<6]) [0..<sz] h
      in fold (\<lambda>a. free (outer a)) [0..<6] h)"

text \<open>
  The six \<^verbatim>\<open>malloc\<close> calls of the pointer arrays; \<open>Inl\<close> is the early return, with the
  heap it leaves.
\<close>

fun alloc_outer ::
  "(nat \<Rightarrow> bool) \<Rightarrow> nat list \<Rightarrow> (nat \<Rightarrow> nat option) \<Rightarrow> heap
     \<Rightarrow> heap + (nat \<Rightarrow> nat option) \<times> heap" where
  "alloc_outer alloc_fails [] outer h = Inr (outer, h)"
| "alloc_outer alloc_fails (a # as) outer h =
     (case malloc alloc_fails a h of
        (None, h') \<Rightarrow> Inl (free_fftw_arrays 0 outer (\<lambda>_ _. None) h')
      | (Some b, h') \<Rightarrow> alloc_outer alloc_fails as (outer(a := Some b)) h')"

text \<open>The six buffers of worker \<open>i\<close>, and the loop over the workers.\<close>

fun alloc_bufs ::
  "(nat \<Rightarrow> bool) \<Rightarrow> nat \<Rightarrow> nat list \<Rightarrow> (nat \<Rightarrow> nat option) \<Rightarrow> (nat \<Rightarrow> nat \<Rightarrow> nat option)
     \<Rightarrow> heap \<Rightarrow> heap + (nat \<Rightarrow> nat \<Rightarrow> nat option) \<times> heap" where
  "alloc_bufs alloc_fails i [] outer inner h = Inr (inner, h)"
| "alloc_bufs alloc_fails i (a # as) outer inner h =
     (case malloc alloc_fails (6 + 6 * i + a) h of
        (None, h') \<Rightarrow> Inl (free_fftw_arrays (i + 1) outer inner h')
      | (Some b, h') \<Rightarrow>
          alloc_bufs alloc_fails i as outer (inner(a := (inner a)(i := Some b))) h')"

fun alloc_workers ::
  "(nat \<Rightarrow> bool) \<Rightarrow> nat list \<Rightarrow> (nat \<Rightarrow> nat option) \<Rightarrow> (nat \<Rightarrow> nat \<Rightarrow> nat option)
     \<Rightarrow> heap \<Rightarrow> heap + (nat \<Rightarrow> nat \<Rightarrow> nat option) \<times> heap" where
  "alloc_workers alloc_fails [] outer inner h = Inr (inner, h)"
| "alloc_workers alloc_fails (i # is) outer inner h =
     (case alloc_bufs alloc_fails i [0..<6] outer (\<lambda>a. (inner a)(i := None)) h of
        Inl h' \<Rightarrow> Inl h'
      | Inr (inner', h') \<Rightarrow> alloc_workers alloc_fails is outer inner' h')"

subsection \<open>The loop over the channels\<close>

text \<open>
  What the call does not decide: whether \<^verbatim>\<open>N_THREADS\<close> is defined and its value, which
  allocation requests fail, which channels each worker of the parallel loop runs and in
  which order, and what the scratch arrays of the worker hold when a channel starts.
\<close>

record workspace =
  ws_ccc :: fbuf
  ws_outa :: cbuf
  ws_outb :: cbuf
  ws_out :: cbuf

record runtime =
  N_THREADS :: "nat option"
  alloc_fails :: "nat \<Rightarrow> bool"
  schedule :: "nat list list"
  scratch :: "nat \<Rightarrow> workspace"

text \<open>
  One iteration of the loop over the channels, on the worker's private \<open>r\<close> and \<open>s\<close>:
  the kernel on the slices of channel \<open>i\<close>, then the post-processing of its traces.
\<close>

definition channel_body ::
  "runtime \<Rightarrow> fbuf \<Rightarrow> nat \<Rightarrow> nat \<Rightarrow> fbuf \<Rightarrow> nat \<Rightarrow> nat \<Rightarrow> (nat \<Rightarrow> int) \<Rightarrow> (nat \<Rightarrow> int)
     \<Rightarrow> fftw_plan \<Rightarrow> fftw_plan \<Rightarrow> fftw_plan \<Rightarrow> nat \<Rightarrow> int \<times> int \<times> fbuf \<Rightarrow> int \<times> int \<times> fbuf" where
  "channel_body rt templates n_templates template_len img image_len fft_len used_chans
       pad_array pa pb px i =
     (\<lambda>(r, s, ncc).
        let sz = image_len + 1 - template_len;
            ncc_offset = sz * n_templates * i;
            (status, slice) =
               normxcorr_fftw_main (offset_buf templates (n_templates * template_len * i))
                 template_len n_templates (offset_buf img (image_len * i)) image_len
                 (offset_buf ncc ncc_offset) fft_len (\<lambda>_. Fin 0) (\<lambda>_. Fin 0)
                 (ws_ccc (scratch rt i)) (ws_outa (scratch rt i)) (ws_outb (scratch rt i))
                 (ws_out (scratch rt i)) pa pb px;
            ncc = store_buf ncc ncc_offset slice;
            (s, ncc) = fold (post_process used_chans pad_array n_templates sz i ncc_offset)
                         [0..<n_templates] (s, ncc)
        in (r + status, s, ncc))"

text \<open>
  The parallel loop with \<^verbatim>\<open>reduction(+:r,s)\<close>: every worker runs its channels on private
  counters that start at zero, and the counters are added up at the end. The workers
  write disjoint slices of \<open>ncc\<close>, so they are run one after the other here.
\<close>

definition worker ::
  "runtime \<Rightarrow> fbuf \<Rightarrow> nat \<Rightarrow> nat \<Rightarrow> fbuf \<Rightarrow> nat \<Rightarrow> nat \<Rightarrow> (nat \<Rightarrow> int) \<Rightarrow> (nat \<Rightarrow> int)
     \<Rightarrow> nat list \<Rightarrow> int \<times> int \<times> fbuf \<Rightarrow> int \<times> int \<times> fbuf" where
  "worker rt templates n_templates template_len img image_len fft_len used_chans pad_array chans =
     fold (channel_body rt templates n_templates template_len img image_len
             fft_len used_chans pad_array (Plan_r2c_2d n_templates fft_len)
             (Plan_r2c_1d fft_len) (Plan_c2r_2d n_templates fft_len))
       chans"

definition run_worker ::
  "runtime \<Rightarrow> fbuf \<Rightarrow> nat \<Rightarrow> nat \<Rightarrow> fbuf \<Rightarrow> nat \<Rightarrow> nat \<Rightarrow> (nat \<Rightarrow> int) \<Rightarrow> (nat \<Rightarrow> int)
     \<Rightarrow> nat list \<Rightarrow> int \<times> int \<times> fbuf \<Rightarrow> int \<times> int \<times> fbuf" where
  "run_worker rt templates n_templates template_len img image_len fft_len used_chans pad_array
       chans =
     (\<lambda>(r, s, ncc).
        let (r', s', ncc) =
              worker rt templates n_templates template_len img image_len fft_len
                used_chans pad_array chans (0, 0, ncc)
        in (r + r', s + s', ncc))"

definition channel_loop ::
  "runtime \<Rightarrow> fbuf \<Rightarrow> nat \<Rightarrow> nat \<Rightarrow> fbuf \<Rightarrow> nat \<Rightarrow> nat \<Rightarrow> (nat \<Rightarrow> int) \<Rightarrow> (nat \<Rightarrow> int)
     \<Rightarrow> fbuf \<Rightarrow> int \<times> int \<times> fbuf" where
  "channel_loop rt templates n_templates template_len img image_len fft_len used_chans
       pad_array ncc =
     fold (run_worker rt templates n_templates template_len img image_len fft_len used_chans
             pad_array)
       (schedule rt) (0, 0, ncc)"

text \<open>The schedule of a call runs every channel once.\<close>

definition valid_schedule :: "nat list list \<Rightarrow> nat \<Rightarrow> bool" where
  "valid_schedule sched n_channels =
     (distinct (concat sched) \<and> set (concat sched) = {0..<n_channels})"

subsection \<open>The sum over the channels\<close>

text \<open>
  The in-place reduction: \<^verbatim>\<open>ncc[accum] += ncc[index]\<close> on \<^verbatim>\<open>float\<close> cells, one rounded
  addition for every later channel, in the order of the channels.
\<close>

definition accumulate :: "nat \<Rightarrow> nat \<Rightarrow> nat \<Rightarrow> fbuf \<Rightarrow> fbuf" where
  "accumulate n_templates n_channels dimz ncc =
     (let offset = n_templates * dimz
      in fold (\<lambda>i. fold (\<lambda>j. fold (\<lambda>k ncc.
                 let accum = i * dimz + j;
                     index = accum + k * offset
                 in ncc(accum := faddf (ncc accum) (ncc index)))
               [1..<n_channels]) [0..<dimz]) [0..<n_templates] ncc)"

subsection \<open>The routine\<close>

definition num_threads_of :: "runtime \<Rightarrow> nat \<Rightarrow> nat" where
  "num_threads_of rt n_channels =
     (case N_THREADS rt of None \<Rightarrow> 1
      | Some n \<Rightarrow> if n > n_channels then n_channels else n)"

text \<open>The result is the status, the contents of \<open>ncc\<close> and the blocks left on the heap.\<close>

definition multi_normxcorr_fftw ::
  "runtime \<Rightarrow> fbuf \<Rightarrow> nat \<Rightarrow> nat \<Rightarrow> nat \<Rightarrow> fbuf \<Rightarrow> nat \<Rightarrow> fbuf \<Rightarrow> nat \<Rightarrow> (nat \<Rightarrow> int)
     \<Rightarrow> (nat \<Rightarrow> int) \<Rightarrow> int \<times> fbuf \<times> heap" where
  "multi_normxcorr_fftw rt templates n_templates template_len n_channels img image_len ncc
       fft_len used_chans pad_array =
     (let num_threads = num_threads_of rt n_channels
      in case alloc_outer (alloc_fails rt) [0..<6] (\<lambda>_. None) {} of
           Inl h \<Rightarrow> (1, ncc, h)
         | Inr (outer, h) \<Rightarrow>
             (case alloc_workers (alloc_fails rt) [0..<num_threads] outer (\<lambda>_ _. None) h of
                Inl h \<Rightarrow> (1, ncc, h)
              | Inr (inner, h) \<Rightarrow>
                  (let (r, s, ncc) =
                         channel_loop rt templates n_templates template_len img image_len
                           fft_len used_chans pad_array ncc;
                       h = free_fftw_arrays num_threads outer inner h
                   in if r \<noteq> 0 then (r, ncc, h)
                      else if s \<noteq> 0 then (- 1, ncc, h)
                      else (0, accumulate n_templates n_channels
                                 (image_len + 1 - template_len) ncc, h))))"

text \<open>The effect of the sanitising step on one sample: whether it counts as an overflow, and
  the value it leaves.\<close>

definition overflows :: "fp \<Rightarrow> bool" where
  "overflows v = (\<not> isnanf v \<and> fgt (fabs v) (Fin (101 / 100)))"

definition clamped :: "fp \<Rightarrow> fp" where
  "clamped v =
     (if isnanf v then Fin 0
      else if fgt (fabs v) (Fin (101 / 100)) then v
      else if fgt v (Fin 1) then Fin 1
      else if flt v (Fin (- 1)) then Fin (- 1)
      else v)"

section \<open>What the kernel stores\<close>

text \<open>
  The mean and the variance that the kernel holds at column \<open>i\<close>, and the value it stores
  for template \<open>t\<close> there, read off the loops above. The work arrays are those the kernel
  computes before the normalisation.
\<close>

definition run_moments :: "fbuf \<Rightarrow> nat \<Rightarrow> nat \<Rightarrow> fp \<times> fp" where
  "run_moments img template_len i =
     fold (update_moments img template_len) [1..<Suc i]
       (start_mean img template_len,
        start_var img template_len (start_mean img template_len))"

definition kernel_ccc ::
  "fbuf \<Rightarrow> nat \<Rightarrow> nat \<Rightarrow> fbuf \<Rightarrow> nat \<Rightarrow> nat \<Rightarrow> fbuf \<Rightarrow> fbuf \<Rightarrow> fbuf
     \<Rightarrow> cbuf \<Rightarrow> cbuf \<Rightarrow> cbuf \<Rightarrow> fftw_plan \<Rightarrow> fftw_plan \<Rightarrow> fftw_plan \<Rightarrow> fbuf" where
  "kernel_ccc templates template_len n_templates img image_len fft_len
       template_ext image_ext ccc outa outb out pa pb px =
     fftw_execute_dft_c2r px
       (dot_product n_templates (fft_len div 2 + 1)
          (fftw_execute_dft_r2c pa
             (fst (flip_templates templates template_len n_templates fft_len template_ext)) outa)
          (fftw_execute_dft_r2c pb (copy_image img image_len image_ext) outb)
          out)
       ccc"

definition kernel_cell ::
  "fbuf \<Rightarrow> fbuf \<Rightarrow> nat \<Rightarrow> nat \<Rightarrow> nat \<Rightarrow> fbuf \<Rightarrow> nat \<Rightarrow> nat \<Rightarrow> fp" where
  "kernel_cell ccc norm_sums fft_len n_templates template_len img t i =
     (let (mean, var) = run_moments img template_len i
      in if i = 0
         then (if flt var acceptedDiff then Fin 0
               else corr_value ccc norm_sums fft_len n_templates (template_len - 1)
                      mean (fsqrt var) t 0)
         else (if fgt var acceptedDiff
               then corr_value ccc norm_sums fft_len n_templates (template_len - 1)
                      mean (fsqrt var) t i
               else Fin 0))"

section \<open>Window statistics\<close>

text \<open>
  The mean of the samples \<open>x j, \<dots>, x (j + L - 1)\<close> and their variance with divisor \<open>L\<close>,
  the cross-correlation sum of template \<open>k\<close> with that window, and the sum and the
  Euclidean norm of the template.
\<close>

definition wmean :: "(nat \<Rightarrow> real) \<Rightarrow> nat \<Rightarrow> nat \<Rightarrow> real" where
  "wmean x L j = (\<Sum>p<L. x (j + p)) / real L"

definition wvar :: "(nat \<Rightarrow> real) \<Rightarrow> nat \<Rightarrow> nat \<Rightarrow> real" where
  "wvar x L j = (\<Sum>p<L. (x (j + p) - wmean x L j)\<^sup>2) / real L"

definition xcorr :: "(nat \<Rightarrow> real) \<Rightarrow> (nat \<Rightarrow> real) \<Rightarrow> nat \<Rightarrow> nat \<Rightarrow> nat \<Rightarrow> real" where
  "xcorr t x L k j = (\<Sum>p<L. t (k * L + p) * x (j + p))"

definition tsum :: "(nat \<Rightarrow> real) \<Rightarrow> nat \<Rightarrow> nat \<Rightarrow> real" where
  "tsum t L k = (\<Sum>p<L. t (k * L + p))"

definition tnorm :: "(nat \<Rightarrow> real) \<Rightarrow> nat \<Rightarrow> nat \<Rightarrow> real" where
  "tnorm t L k = sqrt (\<Sum>p<L. (t (k * L + p))\<^sup>2)"

section \<open>The cells the kernel touches\<close>

text \<open>
  The indices of \<^verbatim>\<open>image\<close> that the kernel reads and the indices of \<^verbatim>\<open>ncc\<close> that it
  writes, in program order: the copy into \<^verbatim>\<open>image_ext\<close>, the starting sum, the starting
  variance and the two samples of every later column; the store of the first column and
  the stores of the later columns.
\<close>

definition image_reads :: "nat \<Rightarrow> nat \<Rightarrow> nat list" where
  "image_reads template_len image_len =
     [0..<image_len] @ [0..<template_len] @ [0..<template_len]
     @ concat (map (\<lambda>i. [i + template_len - 1, i - 1]) [1..<image_len + 1 - template_len])"

definition ncc_writes :: "nat \<Rightarrow> nat \<Rightarrow> nat \<Rightarrow> nat list" where
  "ncc_writes n_templates template_len image_len =
     map (\<lambda>t. t * (image_len + 1 - template_len)) [0..<n_templates]
     @ concat (map (\<lambda>i. map (\<lambda>t. t * (image_len + 1 - template_len) + i) [0..<n_templates])
                 [1..<image_len + 1 - template_len])"

section \<open>What the post-processing leaves\<close>

text \<open>
  The number of samples of a trace that the sanitising step counts as overflows, the
  samples that are finite and within \<open>[-1, 1]\<close>, and the slice that the kernel leaves for
  channel \<open>i\<close> before the post-processing.
\<close>

definition trace_overflows :: "fbuf \<Rightarrow> nat \<Rightarrow> nat \<Rightarrow> int" where
  "trace_overflows ncc base sz =
     int (length (filter (\<lambda>k. overflows (ncc (base + k))) [0..<sz]))"

definition in_range :: "fp \<Rightarrow> bool" where
  "in_range v = (is_fin v \<and> \<bar>val v\<bar> \<le> 1)"

definition channel_out ::
  "runtime \<Rightarrow> fbuf \<Rightarrow> nat \<Rightarrow> nat \<Rightarrow> fbuf \<Rightarrow> nat \<Rightarrow> nat \<Rightarrow> nat \<Rightarrow> fbuf" where
  "channel_out rt templates n_templates template_len img image_len fft_len i =
     snd (normxcorr_fftw_main (offset_buf templates (n_templates * template_len * i))
            template_len n_templates (offset_buf img (image_len * i)) image_len
            (\<lambda>_. Fin 0) fft_len (\<lambda>_. Fin 0) (\<lambda>_. Fin 0)
            (ws_ccc (scratch rt i)) (ws_outa (scratch rt i)) (ws_outb (scratch rt i))
            (ws_out (scratch rt i)) (Plan_r2c_2d n_templates fft_len) (Plan_r2c_1d fft_len)
            (Plan_c2r_2d n_templates fft_len))"

text \<open>The overflows that the post-processing of channel \<open>i\<close> counts: those of its kept traces.\<close>

definition channel_overflows ::
  "runtime \<Rightarrow> fbuf \<Rightarrow> nat \<Rightarrow> nat \<Rightarrow> fbuf \<Rightarrow> nat \<Rightarrow> nat \<Rightarrow> (nat \<Rightarrow> int) \<Rightarrow> nat \<Rightarrow> int" where
  "channel_overflows rt templates n_templates template_len img image_len fft_len used_chans i =
     (\<Sum>j<n_templates.
        if used_chans (i * n_templates + j) = 0 then 0
        else trace_overflows
               (channel_out rt templates n_templates template_len img image_len fft_len i)
               (j * (image_len + 1 - template_len)) (image_len + 1 - template_len))"

text \<open>
  The heap holds only blocks that the pointer tables still name: the arrays of pointers,
  and the buffers of the workers below \<open>n\<close>.
\<close>

definition tracked ::
  "nat \<Rightarrow> (nat \<Rightarrow> nat option) \<Rightarrow> (nat \<Rightarrow> nat \<Rightarrow> nat option) \<Rightarrow> heap \<Rightarrow> bool" where
  "tracked n outer inner h =
     (\<forall>b\<in>h. (b < 6 \<and> outer b = Some b)
             \<or> (\<exists>i<n. \<exists>a<6. b = 6 + 6 * i + a \<and> inner a i = Some b))"

subsection \<open>The request of the kernel\<close>

text \<open>
  The kernel asks for one block of its own, the array \<^verbatim>\<open>norm_sums\<close> (\<^verbatim>\<open>calloc\<close>, line 274),
  and does not test what it gets. \<open>normxcorr_fftw_main\<close> above is the kernel once that
  block is there. With \<^verbatim>\<open>NULL\<close> instead, the first store into the array, at the first
  sample of the first template (line 281), dereferences \<^verbatim>\<open>NULL\<close>: the call does not
  return. Without a template, or with templates of no sample, the array is never touched
  (the first column stores \<open>0\<close> for a variance of \<open>0\<close>, the later columns for a variance
  that is NaN) and \<^verbatim>\<open>free (NULL)\<close> does nothing. The block is released before the kernel
  returns, so it is never on the heap of the routine.
\<close>

datatype fault = Null_dereference

definition normxcorr_fftw_main_calloc ::
  "bool \<Rightarrow> fbuf \<Rightarrow> nat \<Rightarrow> nat \<Rightarrow> fbuf \<Rightarrow> nat \<Rightarrow> fbuf \<Rightarrow> nat \<Rightarrow> fbuf \<Rightarrow> fbuf \<Rightarrow> fbuf
     \<Rightarrow> cbuf \<Rightarrow> cbuf \<Rightarrow> cbuf \<Rightarrow> fftw_plan \<Rightarrow> fftw_plan \<Rightarrow> fftw_plan \<Rightarrow> fault + int \<times> fbuf" where
  "normxcorr_fftw_main_calloc norm_sums_null templates template_len n_templates img image_len ncc
       fft_len template_ext image_ext ccc outa outb out pa pb px =
     (if norm_sums_null \<and> 0 < n_templates \<and> 0 < template_len then Inl Null_dereference
      else Inr (normxcorr_fftw_main templates template_len n_templates img image_len ncc fft_len
                  template_ext image_ext ccc outa outb out pa pb px))"

text \<open>
  In a call of the routine the requests of the kernels come after the \<open>6 + 6 * num_threads\<close>
  requests of the routine: the request of the kernel call for channel \<open>i\<close> is numbered
  \<open>6 + 6 * num_threads + i\<close> in \<open>alloc_fails\<close>. \<open>channel_faults\<close> says that the kernel call
  for channel \<open>i\<close> dereferences \<^verbatim>\<open>NULL\<close>; the slices it is called on do not matter for that.
\<close>

definition channel_faults ::
  "runtime \<Rightarrow> fbuf \<Rightarrow> nat \<Rightarrow> nat \<Rightarrow> nat \<Rightarrow> fbuf \<Rightarrow> nat \<Rightarrow> fbuf \<Rightarrow> nat \<Rightarrow> nat \<Rightarrow> bool" where
  "channel_faults rt templates n_templates template_len n_channels img image_len ncc fft_len i =
     isl (normxcorr_fftw_main_calloc
            (alloc_fails rt (6 + 6 * num_threads_of rt n_channels + i))
            (offset_buf templates (n_templates * template_len * i)) template_len n_templates
            (offset_buf img (image_len * i)) image_len
            (offset_buf ncc ((image_len + 1 - template_len) * n_templates * i)) fft_len
            (\<lambda>_. Fin 0) (\<lambda>_. Fin 0)
            (ws_ccc (scratch rt i)) (ws_outa (scratch rt i)) (ws_outb (scratch rt i))
            (ws_out (scratch rt i)) (Plan_r2c_2d n_templates fft_len) (Plan_r2c_1d fft_len)
            (Plan_c2r_2d n_templates fft_len))"

text \<open>
  The routine with the requests of its kernel calls. The early returns come before the
  loop; once the loop runs, a kernel call that dereferences \<^verbatim>\<open>NULL\<close> ends the whole call,
  whichever worker makes it and in whatever order; otherwise the call is
  \<open>multi_normxcorr_fftw\<close> above.
\<close>

definition multi_normxcorr_fftw_calloc ::
  "runtime \<Rightarrow> fbuf \<Rightarrow> nat \<Rightarrow> nat \<Rightarrow> nat \<Rightarrow> fbuf \<Rightarrow> nat \<Rightarrow> fbuf \<Rightarrow> nat \<Rightarrow> (nat \<Rightarrow> int)
     \<Rightarrow> (nat \<Rightarrow> int) \<Rightarrow> fault + int \<times> fbuf \<times> heap" where
  "multi_normxcorr_fftw_calloc rt templates n_templates template_len n_channels img image_len ncc
       fft_len used_chans pad_array =
     (let num_threads = num_threads_of rt n_channels
      in case alloc_outer (alloc_fails rt) [0..<6] (\<lambda>_. None) {} of
           Inl h \<Rightarrow> Inr (1, ncc, h)
         | Inr (outer, h) \<Rightarrow>
             (case alloc_workers (alloc_fails rt) [0..<num_threads] outer (\<lambda>_ _. None) h of
                Inl h \<Rightarrow> Inr (1, ncc, h)
              | Inr (inner, h) \<Rightarrow>
                  if list_ex (channel_faults rt templates n_templates template_len n_channels
                                img image_len ncc fft_len) (concat (schedule rt))
                  then Inl Null_dereference
                  else Inr (multi_normxcorr_fftw rt templates n_templates template_len n_channels
                              img image_len ncc fft_len used_chans pad_array)))"

subsection \<open>The state of a trace after the loop over the channels\<close>

text \<open>
  What the post-processing makes of trace \<open>k\<close> of channel \<open>c\<close>. \<open>sanitised\<close> is sample \<open>j\<close>
  of the trace after the mask or the sanitising step and before the pad: zero for a
  masked trace, the clamped value of the kernel for a kept one. \<open>shifted\<close> is the sample
  after the pad. \<open>overflows_upto\<close> counts the overflows of the first \<open>k\<close> traces of the
  channel, \<open>earlier\<close> lists the channels that the worker of channel \<open>c\<close> ran before it, and
  \<open>private_count\<close> is the private counter \<^verbatim>\<open>s\<close> of that worker when it has sanitised trace
  \<open>k\<close> of channel \<open>c\<close>.
\<close>

definition sanitised ::
  "runtime \<Rightarrow> fbuf \<Rightarrow> nat \<Rightarrow> nat \<Rightarrow> fbuf \<Rightarrow> nat \<Rightarrow> nat \<Rightarrow> (nat \<Rightarrow> int) \<Rightarrow> nat \<Rightarrow> nat \<Rightarrow> nat
     \<Rightarrow> fp" where
  "sanitised rt templates n_templates template_len img image_len fft_len used_chans c k j =
     (if used_chans (c * n_templates + k) = 0 then Fin 0
      else clamped (channel_out rt templates n_templates template_len img image_len fft_len c
                      (k * (image_len + 1 - template_len) + j)))"

definition shifted ::
  "runtime \<Rightarrow> fbuf \<Rightarrow> nat \<Rightarrow> nat \<Rightarrow> fbuf \<Rightarrow> nat \<Rightarrow> nat \<Rightarrow> (nat \<Rightarrow> int) \<Rightarrow> (nat \<Rightarrow> int)
     \<Rightarrow> nat \<Rightarrow> nat \<Rightarrow> nat \<Rightarrow> fp" where
  "shifted rt templates n_templates template_len img image_len fft_len used_chans pad_array c k j =
     (if j < image_len + 1 - template_len - size_t_of_int (pad_array (c * n_templates + k))
      then sanitised rt templates n_templates template_len img image_len fft_len used_chans c k
             (j + size_t_of_int (pad_array (c * n_templates + k)))
      else Fin 0)"

definition overflows_upto ::
  "runtime \<Rightarrow> fbuf \<Rightarrow> nat \<Rightarrow> nat \<Rightarrow> fbuf \<Rightarrow> nat \<Rightarrow> nat \<Rightarrow> (nat \<Rightarrow> int) \<Rightarrow> nat \<Rightarrow> nat
     \<Rightarrow> int" where
  "overflows_upto rt templates n_templates template_len img image_len fft_len used_chans c k =
     (\<Sum>j<k.
        if used_chans (c * n_templates + j) = 0 then 0
        else trace_overflows
               (channel_out rt templates n_templates template_len img image_len fft_len c)
               (j * (image_len + 1 - template_len)) (image_len + 1 - template_len))"

definition earlier :: "nat list list \<Rightarrow> nat \<Rightarrow> nat list" where
  "earlier sched c =
     concat (map (takeWhile (\<lambda>x. x \<noteq> c)) (filter (\<lambda>chans. c \<in> set chans) sched))"

definition private_count ::
  "runtime \<Rightarrow> fbuf \<Rightarrow> nat \<Rightarrow> nat \<Rightarrow> fbuf \<Rightarrow> nat \<Rightarrow> nat \<Rightarrow> (nat \<Rightarrow> int) \<Rightarrow> nat \<Rightarrow> nat
     \<Rightarrow> int" where
  "private_count rt templates n_templates template_len img image_len fft_len used_chans c k =
     (\<Sum>c'\<leftarrow>earlier (schedule rt) c.
        channel_overflows rt templates n_templates template_len img image_len fft_len
          used_chans c')
     + overflows_upto rt templates n_templates template_len img image_len fft_len used_chans c
         (Suc k)"

section \<open>Properties of the post-processing\<close>

lemma copy_fold:
  "fold (\<lambda>m ncc. ncc(base + m := ncc (base + (k0 + m)))) [0..<n] (ncc::fbuf) a =
     (if base \<le> a \<and> a < base + n then ncc (a + k0) else ncc a)"
proof -
  define F where "F = (\<lambda>m (ncc::fbuf). ncc(base + m := ncc (base + (k0 + m))))"
  have Fapp: "F m g a = (if a = base + m then g (base + (k0 + m)) else g a)" for m g a
    by (simp add: F_def)
  have "fold F [0..<n] ncc a = (if base \<le> a \<and> a < base + n then ncc (a + k0) else ncc a)"
  proof (induction n arbitrary: a)
    case 0
    show ?case by auto
  next
    case (Suc n)
    have step: "fold F [0..<Suc n] ncc = F n (fold F [0..<n] ncc)" by simp
    show ?case
      unfolding step by (auto simp: Fapp Suc add.commute add.left_commute)
  qed
  then show ?thesis by (simp add: F_def)
qed

lemma zero_fold:
  "fold (\<lambda>k ncc. ncc(base + k := Fin 0)) [lo..<hi] (ncc::fbuf) a =
     (if base + lo \<le> a \<and> a < base + hi then Fin 0 else ncc a)"
proof -
  define F where "F = (\<lambda>k (ncc::fbuf). ncc(base + k := Fin 0))"
  have Fapp: "F k g a = (if a = base + k then Fin 0 else g a)" for k g a
    by (simp add: F_def)
  have "fold F [lo..<hi] ncc a = (if base + lo \<le> a \<and> a < base + hi then Fin 0 else ncc a)"
  proof (induction hi arbitrary: a)
    case 0
    show ?case by auto
  next
    case (Suc hi)
    show ?case
    proof (cases "lo \<le> hi")
      case True
      then have step: "fold F [lo..<Suc hi] ncc = F hi (fold F [lo..<hi] ncc)" by simp
      show ?thesis unfolding step using True by (auto simp: Fapp Suc)
    next
      case False
      then show ?thesis by auto
    qed
  qed
  then show ?thesis by (simp add: F_def)
qed

lemma apply_pad_at:
  "apply_pad base sz k0 ncc a =
     (if base \<le> a \<and> a < base + sz
      then (if a < base + (sz - k0) then ncc (a + k0) else Fin 0)
      else ncc a)"
  by (auto simp: apply_pad_def Let_def zero_fold copy_fold)

lemma zero_trace_at:
  "zero_trace base sz ncc a = (if base \<le> a \<and> a < base + sz then Fin 0 else ncc a)"
  using zero_fold [of base 0 sz ncc a] by (simp add: zero_trace_def)

lemma size_t_of_int_nonneg: "0 \<le> p \<Longrightarrow> p < 2 ^ 64 \<Longrightarrow> size_t_of_int p = nat p"
  by (simp add: size_t_of_int_def)


lemma sanitise_sample_eq:
  "sanitise_sample index (s, ncc) =
     (s + (if overflows (ncc index) then 1 else 0), ncc(index := clamped (ncc index)))"
  by (auto simp: sanitise_sample_def overflows_def clamped_def)

lemma sanitise_trace_eq:
  "sanitise_trace base sz (s, ncc) =
     (s + int (length (filter (\<lambda>k. overflows (ncc (base + k))) [0..<sz])),
      (\<lambda>a. if base \<le> a \<and> a < base + sz then clamped (ncc a) else ncc a))"
proof (induction sz)
  case 0
  show ?case by (auto simp: sanitise_trace_def fun_eq_iff)
next
  case (Suc n)
  have step: "sanitise_trace base (Suc n) (s, ncc) =
      sanitise_sample (base + n) (sanitise_trace base n (s, ncc))"
    by (simp add: sanitise_trace_def)
  show ?case
    unfolding step Suc sanitise_sample_eq by (auto simp: fun_eq_iff)
qed

lemma post_process_eq:
  "post_process used_chans pad_array n_templates sz i ncc_offset j (s, ncc) =
     (let base = ncc_offset + j * sz;
          k0 = size_t_of_int (pad_array (i * n_templates + j));
          s' = (if used_chans (i * n_templates + j) = 0 then s
                else fst (sanitise_trace base sz (s, ncc)));
          y = (if used_chans (i * n_templates + j) = 0 then zero_trace base sz ncc
               else snd (sanitise_trace base sz (s, ncc)))
      in (s', if s' = 0 then apply_pad base sz k0 y else y))"
  by (simp add: post_process_def Let_def split: prod.splits)

text \<open>
  C6. A kept trace of length \<open>sz\<close> whose pad \<open>p\<close> satisfies \<open>0 \<le> p \<le> sz\<close>, when the pad
  is applied (the overflow count is zero after sanitising the trace): sample \<open>m\<close> of the
  result is sample \<open>m + p\<close> of the sanitised trace for \<open>m < sz - p\<close> and zero for
  \<open>sz - p \<le> m < sz\<close>; with \<open>p = 0\<close> the trace is unchanged.
\<close>

theorem pad_shift:
  assumes "used_chans (i * n_templates + j) \<noteq> 0"
    and "fst (sanitise_trace (ncc_offset + j * sz) sz (s, ncc)) = 0"
    and "0 \<le> pad_array (i * n_templates + j)"
    and "pad_array (i * n_templates + j) \<le> int sz"
    and "pad_array (i * n_templates + j) < 2 ^ 31"
    and "m < sz"
  shows "snd (post_process used_chans pad_array n_templates sz i ncc_offset j (s, ncc))
            (ncc_offset + j * sz + m) =
         (if m < sz - nat (pad_array (i * n_templates + j))
          then snd (sanitise_trace (ncc_offset + j * sz) sz (s, ncc))
                 (ncc_offset + j * sz + (m + nat (pad_array (i * n_templates + j))))
          else Fin 0)
       \<and> (pad_array (i * n_templates + j) = 0 \<longrightarrow>
            snd (post_process used_chans pad_array n_templates sz i ncc_offset j (s, ncc)) =
            snd (sanitise_trace (ncc_offset + j * sz) sz (s, ncc)))"
proof -
  let ?p = "pad_array (i * n_templates + j)"
  have k0: "size_t_of_int ?p = nat ?p"
    using assms(3,5) by (intro size_t_of_int_nonneg) auto
  have pp: "snd (post_process used_chans pad_array n_templates sz i ncc_offset j (s, ncc)) =
      apply_pad (ncc_offset + j * sz) sz (nat ?p)
        (snd (sanitise_trace (ncc_offset + j * sz) sz (s, ncc)))"
    using assms(1,2) by (simp add: post_process_eq Let_def k0)
  have a: ?thesis if "?p = 0"
    using that assms(6) unfolding pp by (auto simp: apply_pad_at fun_eq_iff)
  have b: ?thesis if "?p \<noteq> 0"
    using that assms(6) unfolding pp by (auto simp: apply_pad_at add.assoc)
  from a b show ?thesis by blast
qed

theorem pad_shift_witness:
  "(\<lambda>_. 1::int) (0 * 1 + 0) \<noteq> 0
   \<and> fst (sanitise_trace (0 + 0 * 4) 4 (0, (\<lambda>k. Fin (real k / 10)))) = 0
   \<and> (0::int) \<le> (\<lambda>_. 1::int) (0 * 1 + 0) \<and> (\<lambda>_. 1::int) (0 * 1 + 0) \<le> int 4
   \<and> (\<lambda>_. 1::int) (0 * 1 + 0) < 2 ^ 31 \<and> (2::nat) < 4
   \<and> snd (post_process (\<lambda>_. 1) (\<lambda>_. 1) 1 4 0 0 0 (0, (\<lambda>k. Fin (real k / 10)))) (0 + 0 * 4 + 2)
       = Fin (3 / 10)"
proof -
  have ov: "\<not> overflows (Fin (real k / 10))" if "k < 4" for k
    using that by (simp add: overflows_def isnanf_def fgt_def)
  have h2: "fst (sanitise_trace (0 + 0 * 4) 4 (0, (\<lambda>k. Fin (real k / 10)))) = 0"
    by (simp add: sanitise_trace_eq ov)
  have cl: "clamped (Fin (3 / 10)) = Fin (3 / 10)"
    by (simp add: clamped_def isnanf_def fgt_def)
  have "snd (post_process (\<lambda>_. 1) (\<lambda>_. 1) 1 4 0 0 0 (0, (\<lambda>k. Fin (real k / 10)))) (0 + 0 * 4 + 2)
       = Fin (3 / 10)"
    using pad_shift [of "\<lambda>_. 1" 0 1 0 0 4 0 "\<lambda>k. Fin (real k / 10)" "\<lambda>_. 1" 2, OF _ h2]
    by (simp add: sanitise_trace_eq cl)
  with h2 show ?thesis by simp
qed

section \<open>Properties of the kernel's loops\<close>

lemma column_fold:
  assumes "i < steps"
  shows "fold (\<lambda>t ncc. ncc(t * steps + i := V t)) [0..<n] (ncc::fbuf) a =
     (if a mod steps = i \<and> a div steps < n then V (a div steps) else ncc a)"
proof -
  define F where "F = (\<lambda>t (ncc::fbuf). ncc(t * steps + i := V t))"
  have Fapp: "F t g a = (if a = t * steps + i then V t else g a)" for t g a
    by (simp add: F_def)
  have idx: "(a = t * steps + i) = (a mod steps = i \<and> a div steps = t)" for t
    using assms by (auto simp: div_mult_mod_eq [symmetric] simp del: div_mult_mod_eq)
  have "fold F [0..<n] ncc a =
     (if a mod steps = i \<and> a div steps < n then V (a div steps) else ncc a)"
  proof (induction n)
    case 0
    show ?case by simp
  next
    case (Suc n)
    have "fold F [0..<Suc n] ncc a = F n (fold F [0..<n] ncc) a" by simp
    also have "\<dots> = (if a = n * steps + i then V n else fold F [0..<n] ncc a)"
      by (rule Fapp)
    also have "\<dots> = (if a mod steps = i \<and> a div steps = n then V n
         else (if a mod steps = i \<and> a div steps < n then V (a div steps) else ncc a))"
      by (simp only: idx Suc)
    also have "\<dots> = (if a mod steps = i \<and> a div steps < Suc n then V (a div steps) else ncc a)"
      by (auto simp: less_Suc_eq)
    finally show ?case .
  qed
  then show ?thesis by (simp add: F_def)
qed


lemma first_column_at:
  assumes "0 < steps"
  shows "first_column ccc norm_sums fft_len n_templates template_len steps mean var ncc a =
     (if a mod steps = 0 \<and> a div steps < n_templates
      then (if flt var acceptedDiff then Fin 0
            else corr_value ccc norm_sums fft_len n_templates (template_len - 1)
                   mean (fsqrt var) (a div steps) 0)
      else ncc a)"
proof -
  have eq: "(\<lambda>t (ncc::fbuf).
            if flt var acceptedDiff then ncc(t * steps := Fin 0)
            else ncc(t * steps :=
                   corr_value ccc norm_sums fft_len n_templates (template_len - 1)
                     mean (fsqrt var) t 0)) =
        (\<lambda>t ncc. ncc(t * steps + 0 := (if flt var acceptedDiff then Fin 0
            else corr_value ccc norm_sums fft_len n_templates (template_len - 1)
                     mean (fsqrt var) t 0)))"
    by (auto simp: fun_eq_iff)
  show ?thesis
    unfolding first_column_def eq using column_fold [OF assms] by simp
qed

lemma next_column_eq:
  assumes "i < steps"
  shows "next_column img ccc norm_sums fft_len n_templates template_len steps i (mean, var, ncc) =
     (fst (update_moments img template_len i (mean, var)),
      snd (update_moments img template_len i (mean, var)),
      (\<lambda>a. if a mod steps = i \<and> a div steps < n_templates
           then (if fgt (snd (update_moments img template_len i (mean, var))) acceptedDiff
                 then corr_value ccc norm_sums fft_len n_templates (template_len - 1)
                        (fst (update_moments img template_len i (mean, var)))
                        (fsqrt (snd (update_moments img template_len i (mean, var))))
                        (a div steps) i
                 else Fin 0)
           else ncc a))"
proof -
  obtain m v where mv: "update_moments img template_len i (mean, var) = (m, v)"
    by (cases "update_moments img template_len i (mean, var)")
  have eq: "(\<lambda>t (ncc::fbuf).
                   if fgt v acceptedDiff
                   then ncc(t * steps + i :=
                          corr_value ccc norm_sums fft_len n_templates (template_len - 1)
                            m (fsqrt v) t i)
                   else ncc(t * steps + i := Fin 0)) =
       (\<lambda>t ncc. ncc(t * steps + i := (if fgt v acceptedDiff
                   then corr_value ccc norm_sums fft_len n_templates (template_len - 1)
                            m (fsqrt v) t i else Fin 0)))"
    by (auto simp: fun_eq_iff)
  show ?thesis
    unfolding next_column_def mv Let_def prod.case fst_conv snd_conv eq
    using column_fold [OF assms] by (simp add: fun_eq_iff)
qed

lemma run_moments_Suc:
  "run_moments img template_len (Suc i) =
     update_moments img template_len (Suc i) (run_moments img template_len i)"
  by (simp add: run_moments_def)

lemma columns_fold:
  assumes "m \<le> steps" "0 < m"
  shows "fold (next_column img ccc norm_sums fft_len n_templates template_len steps) [1..<m]
           (fst (run_moments img template_len 0), snd (run_moments img template_len 0), ncc) =
         (fst (run_moments img template_len (m - 1)), snd (run_moments img template_len (m - 1)),
          (\<lambda>a. if 0 < a mod steps \<and> a mod steps < m \<and> a div steps < n_templates
               then kernel_cell ccc norm_sums fft_len n_templates template_len img
                      (a div steps) (a mod steps)
               else ncc a))"
  using assms
proof (induction m)
  case 0
  then show ?case by simp
next
  case (Suc m)
  show ?case
  proof (cases "m = 0")
    case True
    then show ?thesis by (auto simp: fun_eq_iff)
  next
    case False
    then have m: "0 < m" "m \<le> steps" "m < steps" using Suc.prems by auto
    have step: "fold (next_column img ccc norm_sums fft_len n_templates template_len steps) [1..<Suc m] s =
        next_column img ccc norm_sums fft_len n_templates template_len steps m
          (fold (next_column img ccc norm_sums fft_len n_templates template_len steps) [1..<m] s)" for s
      using m by simp
    have rm: "update_moments img template_len m
            (fst (run_moments img template_len (m - 1)), snd (run_moments img template_len (m - 1)))
          = run_moments img template_len m"
      using m run_moments_Suc [of img template_len "m - 1"] by simp
    have cell: "kernel_cell ccc norm_sums fft_len n_templates template_len img t m =
        (if fgt (snd (run_moments img template_len m)) acceptedDiff
         then corr_value ccc norm_sums fft_len n_templates (template_len - 1)
                (fst (run_moments img template_len m)) (fsqrt (snd (run_moments img template_len m))) t m
         else Fin 0)" for t
      using m by (simp add: kernel_cell_def split: prod.splits)
    show ?thesis
      unfolding step Suc.IH [OF m(2) m(1)] next_column_eq [OF m(3)] rm
      using m by (auto simp: fun_eq_iff cell less_Suc_eq)
  qed
qed

lemma kernel_cells:
  assumes "template_len \<le> image_len"
  shows "snd (normxcorr_fftw_main templates template_len n_templates img image_len ncc fft_len
            template_ext image_ext ccc outa outb out pa pb px) a =
     (if a < n_templates * (image_len + 1 - template_len)
      then kernel_cell
             (kernel_ccc templates template_len n_templates img image_len fft_len
                template_ext image_ext ccc outa outb out pa pb px)
             (snd (flip_templates templates template_len n_templates fft_len template_ext))
             fft_len n_templates template_len img
             (a div (image_len + 1 - template_len)) (a mod (image_len + 1 - template_len))
      else ncc a)"
proof -
  define steps where "steps = image_len + 1 - template_len"
  define c where "c = kernel_ccc templates template_len n_templates img image_len fft_len
                template_ext image_ext ccc outa outb out pa pb px"
  define m0 where "m0 = start_mean img template_len"
  define v0 where "v0 = start_var img template_len m0"
  obtain te ns where ft:
    "flip_templates templates template_len n_templates fft_len template_ext = (te, ns)"
    by (cases "flip_templates templates template_len n_templates fft_len template_ext")
  have st: "0 < steps" "steps \<le> steps" using assms by (auto simp: steps_def)
  have rm0: "run_moments img template_len 0 = (m0, v0)"
    by (simp add: run_moments_def m0_def v0_def)
  have main: "snd (normxcorr_fftw_main templates template_len n_templates img image_len ncc fft_len
            template_ext image_ext ccc outa outb out pa pb px) =
      snd (snd (fold (next_column img c ns fft_len n_templates template_len steps) [1..<steps]
        (m0, v0, first_column c ns fft_len n_templates template_len steps m0 v0 ncc)))"
    by (simp add: normxcorr_fftw_main_def Let_def ft c_def kernel_ccc_def steps_def m0_def
        v0_def split: prod.splits)
  have cols: "snd (snd (fold (next_column img c ns fft_len n_templates template_len steps) [1..<steps]
        (m0, v0, g))) =
      (\<lambda>a. if 0 < a mod steps \<and> a mod steps < steps \<and> a div steps < n_templates
               then kernel_cell c ns fft_len n_templates template_len img
                      (a div steps) (a mod steps)
               else g a)" for g
    using columns_fold [OF st(2) st(1), of img c ns fft_len n_templates template_len g]
    by (simp add: rm0)
  have lt: "(a < n_templates * steps) = (a div steps < n_templates)"
    using st(1) by (simp add: less_mult_imp_div_less div_less_iff_less_mult mult.commute)
  have cell0: "kernel_cell c ns fft_len n_templates template_len img t 0 =
      (if flt v0 acceptedDiff then Fin 0
       else corr_value c ns fft_len n_templates (template_len - 1) m0 (fsqrt v0) t 0)" for t
    by (simp add: kernel_cell_def rm0)
  have "snd (normxcorr_fftw_main templates template_len n_templates img image_len ncc fft_len
            template_ext image_ext ccc outa outb out pa pb px) a =
     (if a < n_templates * steps
      then kernel_cell c ns fft_len n_templates template_len img (a div steps) (a mod steps)
      else ncc a)"
    unfolding main cols first_column_at [OF st(1)] lt using st(1)
    by (auto simp: cell0)
  then show ?thesis by (simp add: steps_def c_def ft)
qed

lemma kernel_status:
  "fst (normxcorr_fftw_main templates template_len n_templates img image_len ncc fft_len
            template_ext image_ext ccc outa outb out pa pb px) = 0"
  by (simp add: normxcorr_fftw_main_def Let_def split: prod.splits)

section \<open>The running moments in exact arithmetic\<close>

lemma is_fin_conv: "is_fin v = (v = Fin (val v))"
  by (cases v) auto

lemma fsub_Fin [simp]: "fsub (Fin a) (Fin b) = Fin (a - b)"
  by (simp add: fsub_def)

lemma fdiv_Fin: "b \<noteq> 0 \<Longrightarrow> fdiv (Fin a) (Fin b) = Fin (a / b)"
  by simp

lemma fold_fadd_Fin:
  assumes "\<And>i. i < n \<Longrightarrow> f i = Fin (g i)"
  shows "fold (\<lambda>i s. fadd s (f i)) [0..<n] (Fin a) = Fin (a + (\<Sum>i<n. g i))"
  using assms by (induction n) simp_all

lemma wmean_Suc:
  assumes "0 < L"
  shows "wmean x L (Suc j) = wmean x L j + (x (j + L) - x j) / real L"
proof -
  have "(\<Sum>p<Suc L. x (j + p)) = x (j + 0) + (\<Sum>p<L. x (j + Suc p))"
    by (rule sum.lessThan_Suc_shift)
  then have "(\<Sum>p<L. x (Suc j + p)) = (\<Sum>p<L. x (j + p)) + x (j + L) - x j"
    by simp
  then show ?thesis
    by (simp add: wmean_def add_divide_distrib diff_divide_distrib)
qed

lemma wvar_alt:
  assumes "0 < L"
  shows "wvar x L j = (\<Sum>p<L. (x (j + p))\<^sup>2) / real L - (wmean x L j)\<^sup>2"
proof -
  let ?m = "wmean x L j"
  have sx: "(\<Sum>p<L. x (j + p)) = real L * ?m"
    using assms by (simp add: wmean_def)
  have "(\<Sum>p<L. (x (j + p) - ?m)\<^sup>2) =
        (\<Sum>p<L. (x (j + p))\<^sup>2 - 2 * ?m * x (j + p) + ?m\<^sup>2)"
    by (intro sum.cong refl) (simp add: power2_diff algebra_simps)
  also have "\<dots> = (\<Sum>p<L. (x (j + p))\<^sup>2) - 2 * ?m * (\<Sum>p<L. x (j + p)) + real L * ?m\<^sup>2"
    by (simp add: sum.distrib sum_subtractf sum_distrib_left)
  also have "\<dots> = (\<Sum>p<L. (x (j + p))\<^sup>2) - real L * ?m\<^sup>2"
    unfolding sx by (simp add: power2_eq_square algebra_simps)
  finally show ?thesis
    using assms by (simp add: wvar_def diff_divide_distrib)
qed

lemma wvar_Suc:
  assumes "0 < L"
  shows "wvar x L (Suc j) =
     wvar x L j + (x (j + L) - x j) * (x (j + L) - wmean x L (Suc j) + x j - wmean x L j) / real L"
proof -
  have "(\<Sum>p<Suc L. (x (j + p))\<^sup>2) = (x (j + 0))\<^sup>2 + (\<Sum>p<L. (x (j + Suc p))\<^sup>2)"
    by (rule sum.lessThan_Suc_shift)
  then have s2: "(\<Sum>p<L. (x (Suc j + p))\<^sup>2) = (\<Sum>p<L. (x (j + p))\<^sup>2) + (x (j + L))\<^sup>2 - (x j)\<^sup>2"
    by simp
  define d where "d = (x (j + L) - x j) / real L"
  have m: "wmean x L (Suc j) = wmean x L j + d"
    by (simp add: wmean_Suc [OF assms] d_def)
  have f: "(x (j + L) - x j) = real L * d"
    using assms by (simp add: d_def)
  have "(x (j + L))\<^sup>2 - (x j)\<^sup>2 = (x (j + L) - x j) * (x (j + L) + x j)"
    by (simp add: power2_eq_square algebra_simps)
  then have e: "(x (j + L))\<^sup>2 - (x j)\<^sup>2 = real L * d * (x (j + L) + x j)"
    unfolding f .
  show ?thesis
    unfolding wvar_alt [OF assms] s2 m f
    using assms e by (simp add: field_simps power2_eq_square)
qed


lemma start_mean_exact:
  assumes "\<And>i. i < L \<Longrightarrow> is_fin (img i)" "0 < L"
  shows "start_mean img L = Fin (wmean (\<lambda>i. val (img i)) L 0)"
proof -
  have "fold (\<lambda>i s. fadd s (img i)) [0..<L] (Fin 0) = Fin (0 + (\<Sum>i<L. val (img i)))"
    using assms(1) by (intro fold_fadd_Fin) (simp add: is_fin_conv)
  then show ?thesis
    using assms(2) by (simp add: start_mean_def wmean_def)
qed

lemma start_var_exact:
  assumes "\<And>i. i < L \<Longrightarrow> is_fin (img i)" "0 < L"
  shows "start_var img L (Fin (wmean (\<lambda>i. val (img i)) L 0)) =
         Fin (wvar (\<lambda>i. val (img i)) L 0)"
proof -
  let ?m = "wmean (\<lambda>i. val (img i)) L 0"
  have "fold (\<lambda>i v. fadd v (fdiv (fmul (fsub (img i) (Fin ?m)) (fsub (img i) (Fin ?m)))
                                   (Fin (real L)))) [0..<L] (Fin 0) =
        Fin (0 + (\<Sum>i<L. (val (img i) - ?m)\<^sup>2 / real L))"
  proof (intro fold_fadd_Fin)
    fix i assume "i < L"
    then have "img i = Fin (val (img i))" using assms(1) by (simp add: is_fin_conv)
    then show "fdiv (fmul (fsub (img i) (Fin ?m)) (fsub (img i) (Fin ?m))) (Fin (real L)) =
        Fin ((val (img i) - ?m)\<^sup>2 / real L)"
      using assms(2) by (metis fsub_Fin fmul.simps(1) fdiv_Fin of_nat_0_less_iff less_irrefl power2_eq_square)
  qed
  then show ?thesis
    by (simp add: start_var_def wvar_def sum_divide_distrib)
qed

lemma update_moments_exact:
  assumes "is_fin (img (j + L))" "is_fin (img j)" "0 < L"
  shows "update_moments img L (Suc j)
           (Fin (wmean (\<lambda>i. val (img i)) L j), Fin (wvar (\<lambda>i. val (img i)) L j)) =
         (Fin (wmean (\<lambda>i. val (img i)) L (Suc j)), Fin (wvar (\<lambda>i. val (img i)) L (Suc j)))"
proof -
  obtain a b where n: "img (j + L) = Fin a" and o: "img j = Fin b"
    using assms by (auto simp: is_fin_conv)
  have va: "val (img (j + L)) = a" and vb: "val (img j) = b"
    by (simp_all add: n o)
  have idx: "Suc j + L - 1 = j + L" by simp
  have m': "wmean (\<lambda>i. val (img i)) L (Suc j) = wmean (\<lambda>i. val (img i)) L j + (a - b) / real L"
    using wmean_Suc [OF assms(3), of "\<lambda>i. val (img i)" j] by (simp add: va vb)
  have v': "wvar (\<lambda>i. val (img i)) L (Suc j) = wvar (\<lambda>i. val (img i)) L j
      + (a - b) * (a - (wmean (\<lambda>i. val (img i)) L j + (a - b) / real L) + b
                     - wmean (\<lambda>i. val (img i)) L j) / real L"
    using wvar_Suc [OF assms(3), of "\<lambda>i. val (img i)" j] by (simp add: va vb m')
  show ?thesis
    unfolding update_moments_def Let_def prod.case idx diff_Suc_1 n o m' v'
    using assms(3) by simp
qed

lemma run_moments_exact:
  assumes "\<And>i. i < j + L \<Longrightarrow> is_fin (img i)" "0 < L"
  shows "run_moments img L j =
         (Fin (wmean (\<lambda>i. val (img i)) L j), Fin (wvar (\<lambda>i. val (img i)) L j))"
  using assms(1)
proof (induction j)
  case 0
  then show ?case
    using start_mean_exact [of L img] start_var_exact [of L img] assms(2)
    by (simp add: run_moments_def)
next
  case (Suc j)
  have "run_moments img L j =
         (Fin (wmean (\<lambda>i. val (img i)) L j), Fin (wvar (\<lambda>i. val (img i)) L j))"
    using Suc by simp
  then show ?case
    using update_moments_exact [of img j L] Suc.prems assms(2)
    by (simp add: run_moments_Suc)
qed

section \<open>The variance floor\<close>


lemma cell_index:
  assumes "j < (steps::nat)"
  shows "(k * steps + j) div steps = k" "(k * steps + j) mod steps = j"
    "(k * steps + j < n * steps) = (k < n)"
proof -
  have pos: "0 < steps" using assms by simp
  show "(k * steps + j) div steps = k" using assms pos by simp
  show "(k * steps + j) mod steps = j" using assms by simp
  show "(k * steps + j < n * steps) = (k < n)"
  proof
    assume a: "k * steps + j < n * steps"
    show "k < n"
    proof (rule ccontr)
      assume "\<not> k < n"
      then have "n * steps \<le> k * steps" by (intro mult_le_mono1) simp
      with a show False by simp
    qed
  next
    assume "k < n"
    then have "Suc k * steps \<le> n * steps" by (intro mult_le_mono1) simp
    with assms show "k * steps + j < n * steps" by simp
  qed
qed

lemma kernel_cells_at:
  assumes "template_len \<le> image_len" and "j < image_len + 1 - template_len"
    and "k < n_templates"
  shows "snd (normxcorr_fftw_main templates template_len n_templates img image_len ncc fft_len
            template_ext image_ext ccc outa outb out pa pb px)
           (k * (image_len + 1 - template_len) + j) =
         kernel_cell
             (kernel_ccc templates template_len n_templates img image_len fft_len
                template_ext image_ext ccc outa outb out pa pb px)
             (snd (flip_templates templates template_len n_templates fft_len template_ext))
             fft_len n_templates template_len img k j"
  unfolding kernel_cells [OF assms(1)] cell_index [OF assms(2)] using assms(3) by (rule if_P)






section \<open>The cells the kernel reads and writes\<close>

lemma store_fold_frame:
  assumes "\<And>t. t < n \<Longrightarrow> a \<noteq> idx t"
  shows "fold (\<lambda>t (ncc::fbuf). ncc(idx t := V t)) [0..<n] ncc a = ncc a"
  using assms by (induction n) simp_all

lemma first_column_frame:
  assumes "\<And>t. t < n_templates \<Longrightarrow> a \<noteq> t * steps"
  shows "first_column ccc norm_sums fft_len n_templates template_len steps mean var ncc a = ncc a"
proof -
  have eq: "(\<lambda>t (ncc::fbuf).
            if flt var acceptedDiff then ncc(t * steps := Fin 0)
            else ncc(t * steps :=
                   corr_value ccc norm_sums fft_len n_templates (template_len - 1)
                     mean (fsqrt var) t 0)) =
        (\<lambda>t ncc. ncc(t * steps := (if flt var acceptedDiff then Fin 0
            else corr_value ccc norm_sums fft_len n_templates (template_len - 1)
                     mean (fsqrt var) t 0)))"
    by (auto simp: fun_eq_iff)
  show ?thesis
    unfolding first_column_def eq using assms by (rule store_fold_frame)
qed

lemma next_column_frame:
  assumes "\<And>t. t < n_templates \<Longrightarrow> a \<noteq> t * steps + i"
  shows "snd (snd (next_column img ccc norm_sums fft_len n_templates template_len steps i s)) a =
         snd (snd s) a"
proof -
  obtain mean var ncc where s: "s = (mean, var, ncc)" by (cases s) auto
  obtain m v where mv: "update_moments img template_len i (mean, var) = (m, v)"
    by (cases "update_moments img template_len i (mean, var)")
  have eq: "(\<lambda>t (ncc::fbuf).
                   if fgt v acceptedDiff
                   then ncc(t * steps + i :=
                          corr_value ccc norm_sums fft_len n_templates (template_len - 1)
                            m (fsqrt v) t i)
                   else ncc(t * steps + i := Fin 0)) =
       (\<lambda>t ncc. ncc(t * steps + i := (if fgt v acceptedDiff
                   then corr_value ccc norm_sums fft_len n_templates (template_len - 1)
                            m (fsqrt v) t i else Fin 0)))"
    by (auto simp: fun_eq_iff)
  show ?thesis
    unfolding s next_column_def mv Let_def prod.case snd_conv eq
    using assms by (rule store_fold_frame)
qed

lemma columns_frame:
  assumes "\<And>t i. t < n_templates \<Longrightarrow> 1 \<le> i \<Longrightarrow> i < m \<Longrightarrow> a \<noteq> t * steps + i"
  shows "snd (snd (fold (next_column img ccc norm_sums fft_len n_templates template_len steps)
                     [1..<m] s)) a = snd (snd s) a"
  using assms
proof (induction m)
  case 0
  show ?case by simp
next
  case (Suc m)
  show ?case
  proof (cases "1 \<le> m")
    case True
    then have step: "fold (next_column img ccc norm_sums fft_len n_templates template_len steps) [1..<Suc m] s =
        next_column img ccc norm_sums fft_len n_templates template_len steps m
          (fold (next_column img ccc norm_sums fft_len n_templates template_len steps) [1..<m] s)"
      by simp
    have ih: "snd (snd (fold (next_column img ccc norm_sums fft_len n_templates template_len steps) [1..<m] s)) a
        = snd (snd s) a"
      by (rule Suc.IH) (use Suc.prems in auto)
    have "snd (snd (next_column img ccc norm_sums fft_len n_templates template_len steps m
          (fold (next_column img ccc norm_sums fft_len n_templates template_len steps) [1..<m] s))) a
        = snd (snd (fold (next_column img ccc norm_sums fft_len n_templates template_len steps) [1..<m] s)) a"
      by (rule next_column_frame) (use True Suc.prems in auto)
    then show ?thesis
      unfolding step ih .
  next
    case False
    then show ?thesis by simp
  qed
qed

lemma kernel_frame:
  assumes "a \<notin> set (ncc_writes n_templates template_len image_len)"
  shows "snd (normxcorr_fftw_main templates template_len n_templates img image_len ncc fft_len
            template_ext image_ext ccc outa outb out pa pb px) a = ncc a"
proof -
  define steps where "steps = image_len + 1 - template_len"
  have w0: "a \<noteq> t * steps" if "t < n_templates" for t
    using assms that by (auto simp: ncc_writes_def steps_def)
  have w1: "a \<noteq> t * steps + i" if "t < n_templates" "1 \<le> i" "i < steps" for t i
  proof -
    have "t * steps + i \<in> set (ncc_writes n_templates template_len image_len)"
      using that unfolding ncc_writes_def steps_def by fastforce
    with assms show ?thesis by blast
  qed
  obtain te ns where ft:
    "flip_templates templates template_len n_templates fft_len template_ext = (te, ns)"
    by (cases "flip_templates templates template_len n_templates fft_len template_ext")
  have main: "snd (normxcorr_fftw_main templates template_len n_templates img image_len ncc fft_len
            template_ext image_ext ccc outa outb out pa pb px) =
      snd (snd (fold (next_column img
          (kernel_ccc templates template_len n_templates img image_len fft_len
                template_ext image_ext ccc outa outb out pa pb px) ns fft_len n_templates template_len steps) [1..<steps]
        (start_mean img template_len, start_var img template_len (start_mean img template_len),
         first_column (kernel_ccc templates template_len n_templates img image_len fft_len
                template_ext image_ext ccc outa outb out pa pb px) ns fft_len n_templates template_len steps
           (start_mean img template_len) (start_var img template_len (start_mean img template_len)) ncc)))"
    by (simp add: normxcorr_fftw_main_def Let_def ft kernel_ccc_def steps_def split: prod.splits)
  show ?thesis
    unfolding main
    by (subst columns_frame) (use w0 w1 in \<open>auto intro!: first_column_frame\<close>)
qed


lemma kernel_reads:
  assumes "\<And>i. i \<in> set (image_reads template_len image_len) \<Longrightarrow> img' i = img i"
  shows "normxcorr_fftw_main templates template_len n_templates img' image_len ncc fft_len
            template_ext image_ext ccc outa outb out pa pb px =
         normxcorr_fftw_main templates template_len n_templates img image_len ncc fft_len
            template_ext image_ext ccc outa outb out pa pb px"
proof -
  have r1: "img' i = img i" if "i < image_len" for i
    using that by (intro assms) (simp add: image_reads_def)
  have r2: "img' i = img i" if "i < template_len" for i
    using that by (intro assms) (simp add: image_reads_def)
  have r3: "img' (i + template_len - 1) = img (i + template_len - 1)" "img' (i - 1) = img (i - 1)"
    if "i \<in> set [1..<image_len + 1 - template_len]" for i
    using that by (auto intro!: assms simp: image_reads_def)
  have c: "copy_image img' image_len image_ext = copy_image img image_len image_ext"
    unfolding copy_image_def by (rule fold_cong) (auto simp: r1)
  have m: "start_mean img' template_len = start_mean img template_len"
    unfolding start_mean_def by (rule arg_cong2 [where f = fdiv], rule fold_cong) (auto simp: r2)
  have v: "start_var img' template_len mu = start_var img template_len mu" for mu
    unfolding start_var_def by (rule fold_cong) (auto simp: r2)
  have n: "next_column img' cc ns fft_len n_templates template_len st i =
           next_column img cc ns fft_len n_templates template_len st i"
    if "i \<in> set [1..<image_len + 1 - template_len]" for cc ns st i
    unfolding next_column_def update_moments_def using r3 [OF that] by simp
  have f: "fold (next_column img' cc ns fft_len n_templates template_len st)
              [1..<image_len + 1 - template_len] s0 =
           fold (next_column img cc ns fft_len n_templates template_len st)
              [1..<image_len + 1 - template_len] s0" for cc ns st s0
    by (rule fold_cong) (auto simp: n simp del: upt_Suc)
  show ?thesis
    unfolding normxcorr_fftw_main_def Let_def c m v f ..
qed

lemma reads_in_image:
  assumes "template_len \<le> image_len" "i \<in> set (image_reads template_len image_len)"
  shows "i < image_len"
  using assms by (auto simp: image_reads_def)

lemma writes_in_buffer:
  assumes "template_len \<le> image_len" "a \<in> set (ncc_writes n_templates template_len image_len)"
  shows "a < n_templates * (image_len + 1 - template_len)"
proof -
  define steps where "steps = image_len + 1 - template_len"
  have pos: "0 < steps" using assms(1) by (simp add: steps_def)
  have "a \<in> (\<lambda>t. t * steps) ` {0..<n_templates}
       \<or> (\<exists>i\<in>{1..<steps}. a \<in> (\<lambda>t. t * steps + i) ` {0..<n_templates})"
    using assms(2) by (simp add: ncc_writes_def steps_def)
  then have "\<exists>t i. a = t * steps + i \<and> t < n_templates \<and> i < steps"
  proof
    assume "a \<in> (\<lambda>t. t * steps) ` {0..<n_templates}"
    then obtain t where "a = t * steps" "t \<in> {0..<n_templates}" by blast
    then have "a = t * steps + 0 \<and> t < n_templates \<and> 0 < steps" using pos by simp
    then show ?thesis by blast
  next
    assume "\<exists>i\<in>{1..<steps}. a \<in> (\<lambda>t. t * steps + i) ` {0..<n_templates}"
    then obtain i t where "a = t * steps + i" "t \<in> {0..<n_templates}" "i \<in> {1..<steps}"
      by blast
    then have "a = t * steps + i \<and> t < n_templates \<and> i < steps" by simp
    then show ?thesis by blast
  qed
  then obtain t i where ti: "a = t * steps + i" "t < n_templates" "i < steps" by blast
  have "Suc t * steps \<le> n_templates * steps"
    using ti(2) by (intro mult_le_mono1) simp
  then show ?thesis using ti(1,3) by (simp add: steps_def)
qed


lemma last_store_fold:
  assumes "0 < n"
  shows "fold (\<lambda>t (ncc::fbuf). ncc(0 := W t)) [0..<n] ncc 0 = W (n - 1)"
  using assms by (cases n) simp_all

lemma first_column_written:
  assumes "image_len + 1 - template_len = 0" and "0 < n_templates"
  shows "snd (normxcorr_fftw_main templates template_len n_templates img image_len ncc fft_len
            template_ext image_ext ccc outa outb out pa pb px) 0 =
     (if flt (start_var img template_len (start_mean img template_len)) acceptedDiff then Fin 0
      else corr_value
             (kernel_ccc templates template_len n_templates img image_len fft_len
                template_ext image_ext ccc outa outb out pa pb px)
             (snd (flip_templates templates template_len n_templates fft_len template_ext))
             fft_len n_templates (template_len - 1) (start_mean img template_len)
             (fsqrt (start_var img template_len (start_mean img template_len)))
             (n_templates - 1) 0)"
proof -
  define W where "W = (\<lambda>t. if flt (start_var img template_len (start_mean img template_len))
                                 acceptedDiff then Fin 0
      else corr_value
             (kernel_ccc templates template_len n_templates img image_len fft_len
                template_ext image_ext ccc outa outb out pa pb px)
             (snd (flip_templates templates template_len n_templates fft_len template_ext))
             fft_len n_templates (template_len - 1) (start_mean img template_len)
             (fsqrt (start_var img template_len (start_mean img template_len))) t 0)"
  have fc: "first_column
             (kernel_ccc templates template_len n_templates img image_len fft_len
                template_ext image_ext ccc outa outb out pa pb px)
             (snd (flip_templates templates template_len n_templates fft_len template_ext))
             fft_len n_templates template_len 0 (start_mean img template_len)
             (start_var img template_len (start_mean img template_len)) ncc =
        fold (\<lambda>t (ncc::fbuf). ncc(0 := W t)) [0..<n_templates] ncc"
    unfolding first_column_def W_def
    by (rule arg_cong [where f = "\<lambda>f. fold f [0..<n_templates] ncc"]) (auto simp: fun_eq_iff)
  have z: "Suc image_len - template_len = 0" using assms(1) by simp
  have "snd (normxcorr_fftw_main templates template_len n_templates img image_len ncc fft_len
            template_ext image_ext ccc outa outb out pa pb px) =
        fold (\<lambda>t (ncc::fbuf). ncc(0 := W t)) [0..<n_templates] ncc"
    unfolding fc [symmetric] using z
    by (simp add: normxcorr_fftw_main_def Let_def case_prod_beta kernel_ccc_def)
  then show ?thesis
    using last_store_fold [OF assms(2), of W ncc] by (simp add: W_def)
qed

text \<open>
  C9 claims that a call with \<open>n_templates = 0\<close> or with no output column
  (\<open>image_len - template_len + 1 = 0\<close>) is a no-op that returns success. The second half
  fails: the kernel stores the first column before it looks at the number of columns. With
  one template of length 3 on an image of length 2 it writes \<open>ncc[0]\<close> (here \<open>0\<close> over the
  \<open>5\<close> that was there), and its starting window reads \<open>image[2]\<close>, beyond the image.
\<close>

theorem kernel_no_op_counterexample:
  "(2::nat) + 1 - 3 = 0
   \<and> snd (normxcorr_fftw_main (\<lambda>_. Fin 1) 3 1 (\<lambda>_. Fin 1) 2 (\<lambda>_. Fin 5) 4
            (\<lambda>_. Fin 0) (\<lambda>_. Fin 0) (\<lambda>_. Fin 0) (\<lambda>_. (Fin 0, Fin 0)) (\<lambda>_. (Fin 0, Fin 0))
            (\<lambda>_. (Fin 0, Fin 0)) (Plan_r2c_2d 1 4) (Plan_r2c_1d 4) (Plan_c2r_2d 1 4)) 0 = Fin 0
   \<and> (\<lambda>_. Fin 5) (0::nat) \<noteq> Fin 0
   \<and> 2 \<in> set (image_reads 3 2) \<and> \<not> (2::nat) < 2"
  by (simp add: normxcorr_fftw_main_def first_column_def start_mean_def start_var_def
      acceptedDiff_def Let_def image_reads_def eval_nat_numeral split: prod.splits)

text \<open>
  C9, amended. With \<open>n_templates = 0\<close> the kernel returns \<open>0\<close>, writes no cell of \<open>ncc\<close>
  and, when \<open>template_len \<le> image_len\<close>, reads the image only below \<open>image_len\<close>. With no
  output column the kernel still returns \<open>0\<close>, and \<open>ncc[0]\<close> is the only cell it can
  change; when there is a template it does write \<open>ncc[0]\<close>: every template stores its
  first column there, so the cell ends with the value of the last template.
\<close>

theorem kernel_no_op:
  "(n_templates = 0 \<longrightarrow>
      fst (normxcorr_fftw_main templates template_len n_templates img image_len ncc fft_len
            template_ext image_ext ccc outa outb out pa pb px) = 0
      \<and> snd (normxcorr_fftw_main templates template_len n_templates img image_len ncc fft_len
            template_ext image_ext ccc outa outb out pa pb px) = ncc
      \<and> ncc_writes n_templates template_len image_len = []
      \<and> (template_len \<le> image_len \<longrightarrow>
           (\<forall>i\<in>set (image_reads template_len image_len). i < image_len)))
   \<and> (image_len + 1 - template_len = 0 \<longrightarrow>
      fst (normxcorr_fftw_main templates template_len n_templates img image_len ncc fft_len
            template_ext image_ext ccc outa outb out pa pb px) = 0
      \<and> (\<forall>a. a \<noteq> 0 \<longrightarrow>
            snd (normxcorr_fftw_main templates template_len n_templates img image_len ncc fft_len
                   template_ext image_ext ccc outa outb out pa pb px) a = ncc a)
      \<and> (0 < n_templates \<longrightarrow>
            snd (normxcorr_fftw_main templates template_len n_templates img image_len ncc fft_len
                   template_ext image_ext ccc outa outb out pa pb px) 0 =
            (if flt (start_var img template_len (start_mean img template_len)) acceptedDiff
             then Fin 0
             else corr_value
                    (kernel_ccc templates template_len n_templates img image_len fft_len
                       template_ext image_ext ccc outa outb out pa pb px)
                    (snd (flip_templates templates template_len n_templates fft_len template_ext))
                    fft_len n_templates (template_len - 1) (start_mean img template_len)
                    (fsqrt (start_var img template_len (start_mean img template_len)))
                    (n_templates - 1) 0)))"
proof (intro conjI impI allI)
  assume "image_len + 1 - template_len = 0" and "0 < n_templates"
  then show "snd (normxcorr_fftw_main templates template_len n_templates img image_len ncc fft_len
                   template_ext image_ext ccc outa outb out pa pb px) 0 =
            (if flt (start_var img template_len (start_mean img template_len)) acceptedDiff
             then Fin 0
             else corr_value
                    (kernel_ccc templates template_len n_templates img image_len fft_len
                       template_ext image_ext ccc outa outb out pa pb px)
                    (snd (flip_templates templates template_len n_templates fft_len template_ext))
                    fft_len n_templates (template_len - 1) (start_mean img template_len)
                    (fsqrt (start_var img template_len (start_mean img template_len)))
                    (n_templates - 1) 0)"
    by (rule first_column_written)
next
  assume "template_len \<le> image_len"
  then show "\<forall>i\<in>set (image_reads template_len image_len). i < image_len"
    using reads_in_image by blast
next
  assume n: "n_templates = 0"
  show "ncc_writes n_templates template_len image_len = []"
    by (simp add: ncc_writes_def n)
  then show "snd (normxcorr_fftw_main templates template_len n_templates img image_len ncc fft_len
            template_ext image_ext ccc outa outb out pa pb px) = ncc"
    by (auto simp: fun_eq_iff kernel_frame)
next
  fix a :: nat
  assume "image_len + 1 - template_len = 0" "a \<noteq> 0"
  then have "a \<notin> set (ncc_writes n_templates template_len image_len)"
    by (auto simp: ncc_writes_def)
  then show "snd (normxcorr_fftw_main templates template_len n_templates img image_len ncc fft_len
                   template_ext image_ext ccc outa outb out pa pb px) a = ncc a"
    by (rule kernel_frame)
qed (simp_all add: kernel_status)

theorem kernel_no_op_witness:
  "fst (normxcorr_fftw_main (\<lambda>_. Fin 1) 2 0 (\<lambda>_. Fin 1) 3 (\<lambda>_. Fin 5) 4
            (\<lambda>_. Fin 0) (\<lambda>_. Fin 0) (\<lambda>_. Fin 0) (\<lambda>_. (Fin 0, Fin 0)) (\<lambda>_. (Fin 0, Fin 0))
            (\<lambda>_. (Fin 0, Fin 0)) (Plan_r2c_2d 0 4) (Plan_r2c_1d 4) (Plan_c2r_2d 0 4)) = 0
   \<and> snd (normxcorr_fftw_main (\<lambda>_. Fin 1) 2 0 (\<lambda>_. Fin 1) 3 (\<lambda>_. Fin 5) 4
            (\<lambda>_. Fin 0) (\<lambda>_. Fin 0) (\<lambda>_. Fin 0) (\<lambda>_. (Fin 0, Fin 0)) (\<lambda>_. (Fin 0, Fin 0))
            (\<lambda>_. (Fin 0, Fin 0)) (Plan_r2c_2d 0 4) (Plan_r2c_1d 4) (Plan_c2r_2d 0 4)) = (\<lambda>_. Fin 5)
   \<and> ncc_writes 0 2 3 = []
   \<and> list_all (\<lambda>i. i < 3) (image_reads 2 3)
   \<and> fst (normxcorr_fftw_main (\<lambda>_. Fin 1) 3 1 (\<lambda>_. Fin 1) 2 (\<lambda>_. Fin 5) 4
            (\<lambda>_. Fin 0) (\<lambda>_. Fin 0) (\<lambda>_. Fin 0) (\<lambda>_. (Fin 0, Fin 0)) (\<lambda>_. (Fin 0, Fin 0))
            (\<lambda>_. (Fin 0, Fin 0)) (Plan_r2c_2d 1 4) (Plan_r2c_1d 4) (Plan_c2r_2d 1 4)) = 0
   \<and> snd (normxcorr_fftw_main (\<lambda>_. Fin 1) 3 1 (\<lambda>_. Fin 1) 2 (\<lambda>_. Fin 5) 4
            (\<lambda>_. Fin 0) (\<lambda>_. Fin 0) (\<lambda>_. Fin 0) (\<lambda>_. (Fin 0, Fin 0)) (\<lambda>_. (Fin 0, Fin 0))
            (\<lambda>_. (Fin 0, Fin 0)) (Plan_r2c_2d 1 4) (Plan_r2c_1d 4) (Plan_c2r_2d 1 4)) 7 = Fin 5"
  using kernel_no_op [of 0 "\<lambda>_. Fin 1" 2 "\<lambda>_. Fin 1" 3 "\<lambda>_. Fin 5" 4
            "\<lambda>_. Fin 0" "\<lambda>_. Fin 0" "\<lambda>_. Fin 0" "\<lambda>_. (Fin 0, Fin 0)" "\<lambda>_. (Fin 0, Fin 0)"
            "\<lambda>_. (Fin 0, Fin 0)" "Plan_r2c_2d 0 4" "Plan_r2c_1d 4" "Plan_c2r_2d 0 4"]
    kernel_no_op [of 1 "\<lambda>_. Fin 1" 3 "\<lambda>_. Fin 1" 2 "\<lambda>_. Fin 5" 4
            "\<lambda>_. Fin 0" "\<lambda>_. Fin 0" "\<lambda>_. Fin 0" "\<lambda>_. (Fin 0, Fin 0)" "\<lambda>_. (Fin 0, Fin 0)"
            "\<lambda>_. (Fin 0, Fin 0)" "Plan_r2c_2d 1 4" "Plan_r2c_1d 4" "Plan_c2r_2d 1 4"]
  by (simp add: list_all_iff)

section \<open>The post-processing of the traces of a channel\<close>

lemma sanitise_trace_fst:
  "fst (sanitise_trace base sz (s, ncc)) = s + trace_overflows ncc base sz"
  by (simp add: sanitise_trace_eq trace_overflows_def)

lemma sanitise_trace_snd:
  "snd (sanitise_trace base sz (s, ncc)) a =
     (if base \<le> a \<and> a < base + sz then clamped (ncc a) else ncc a)"
  by (simp add: sanitise_trace_eq)

lemma trace_overflows_nonneg: "0 \<le> trace_overflows ncc base sz"
  by (simp add: trace_overflows_def)

lemma trace_overflows_zero:
  "(trace_overflows ncc base sz = 0) = (\<forall>k<sz. \<not> overflows (ncc (base + k)))"
  by (auto simp: trace_overflows_def filter_empty_conv)

lemma trace_overflows_cong:
  assumes "\<And>k. k < sz \<Longrightarrow> ncc' (base + k) = ncc (base + k)"
  shows "trace_overflows ncc' base sz = trace_overflows ncc base sz"
  unfolding trace_overflows_def
  by (rule arg_cong [where f = "\<lambda>xs. int (length xs)"], rule filter_cong) (auto simp: assms)

lemma clamped_in_range: "\<not> overflows v \<Longrightarrow> in_range (clamped v)"
  by (cases v) (auto simp: overflows_def clamped_def in_range_def isnanf_def fgt_def)

lemma in_range_zero [simp]: "in_range (Fin 0)"
  by (simp add: in_range_def)

lemma post_process_fst:
  "fst (post_process used_chans pad_array n_templates sz i ncc_offset j (s, ncc)) =
     s + (if used_chans (i * n_templates + j) = 0 then 0
          else trace_overflows ncc (ncc_offset + j * sz) sz)"
  by (simp add: post_process_eq Let_def sanitise_trace_fst)

lemma post_process_frame:
  assumes "a < ncc_offset + j * sz \<or> ncc_offset + j * sz + sz \<le> a"
  shows "snd (post_process used_chans pad_array n_templates sz i ncc_offset j (s, ncc)) a = ncc a"
  using assms
  by (auto simp: post_process_eq Let_def apply_pad_at zero_trace_at sanitise_trace_snd)

lemma post_process_masked:
  assumes "used_chans (i * n_templates + j) = 0" "m < sz"
  shows "snd (post_process used_chans pad_array n_templates sz i ncc_offset j (s, ncc))
           (ncc_offset + j * sz + m) = Fin 0"
  using assms by (auto simp: post_process_eq Let_def apply_pad_at zero_trace_at)

lemma post_process_in_range:
  assumes "fst (post_process used_chans pad_array n_templates sz i ncc_offset j (s, ncc)) = 0"
    and "0 \<le> s" and "m < sz"
  shows "in_range (snd (post_process used_chans pad_array n_templates sz i ncc_offset j (s, ncc))
           (ncc_offset + j * sz + m))"
proof (cases "used_chans (i * n_templates + j) = 0")
  case True
  then show ?thesis using assms(3) by (simp add: post_process_masked)
next
  case False
  have z: "s = 0" "trace_overflows ncc (ncc_offset + j * sz) sz = 0"
    using assms(1,2) False trace_overflows_nonneg [of ncc "ncc_offset + j * sz" sz]
    by (simp_all add: post_process_fst)
  have ok: "in_range (clamped (ncc (ncc_offset + j * sz + k)))" if "k < sz" for k
    using z(2) that by (intro clamped_in_range) (simp add: trace_overflows_zero)
  have ok': "in_range (clamped (ncc a))"
    if "ncc_offset + j * sz \<le> a" "a < ncc_offset + j * sz + sz" for a
    using ok [of "a - (ncc_offset + j * sz)"] that by simp
  show ?thesis
    using False z assms(3)
    by (auto simp: post_process_eq Let_def apply_pad_at sanitise_trace_snd sanitise_trace_fst
        intro!: ok')
qed


lemma post_process_cong:
  assumes "\<And>k. k < sz \<Longrightarrow> ncc' (ncc_offset + j * sz + k) = ncc (ncc_offset + j * sz + k)"
    and "m < sz"
  shows "fst (post_process used_chans pad_array n_templates sz i ncc_offset j (s, ncc')) =
         fst (post_process used_chans pad_array n_templates sz i ncc_offset j (s, ncc))"
    and "snd (post_process used_chans pad_array n_templates sz i ncc_offset j (s, ncc'))
           (ncc_offset + j * sz + m) =
         snd (post_process used_chans pad_array n_templates sz i ncc_offset j (s, ncc))
           (ncc_offset + j * sz + m)"
proof -
  have ov: "trace_overflows ncc' (ncc_offset + j * sz) sz =
            trace_overflows ncc (ncc_offset + j * sz) sz"
    by (rule trace_overflows_cong) (rule assms(1))
  show "fst (post_process used_chans pad_array n_templates sz i ncc_offset j (s, ncc')) =
         fst (post_process used_chans pad_array n_templates sz i ncc_offset j (s, ncc))"
    by (simp add: post_process_fst ov)
  have eq: "ncc' a = ncc a" if "ncc_offset + j * sz \<le> a" "a < ncc_offset + j * sz + sz" for a
    using assms(1) [of "a - (ncc_offset + j * sz)"] that by simp
  show "snd (post_process used_chans pad_array n_templates sz i ncc_offset j (s, ncc'))
           (ncc_offset + j * sz + m) =
         snd (post_process used_chans pad_array n_templates sz i ncc_offset j (s, ncc))
           (ncc_offset + j * sz + m)"
    using assms(2)
    by (auto simp: post_process_eq Let_def apply_pad_at zero_trace_at sanitise_trace_snd
        sanitise_trace_fst ov eq)
qed

lemma fold_post_step:
  "fold (post_process used_chans pad_array n_templates sz i ncc_offset) [0..<Suc n] st =
   post_process used_chans pad_array n_templates sz i ncc_offset n
     (fold (post_process used_chans pad_array n_templates sz i ncc_offset) [0..<n] st)"
  by simp

lemma trace_below:
  assumes "j < (n::nat)"
  shows "off + j * sz + sz \<le> off + n * sz"
proof -
  have "Suc j * sz \<le> n * sz" using assms by (intro mult_le_mono1) simp
  then show ?thesis by simp
qed

lemma fold_post_frame:
  assumes "a < ncc_offset \<or> ncc_offset + n * sz \<le> a"
  shows "snd (fold (post_process used_chans pad_array n_templates sz i ncc_offset) [0..<n] (s, ncc)) a
         = ncc a"
  using assms
proof (induction n)
  case 0
  show ?case by simp
next
  case (Suc n)
  obtain s' ncc' where st:
    "fold (post_process used_chans pad_array n_templates sz i ncc_offset) [0..<n] (s, ncc) = (s', ncc')"
    by (cases "fold (post_process used_chans pad_array n_templates sz i ncc_offset) [0..<n] (s, ncc)")
  have ih: "ncc' a = ncc a"
    using Suc.IH Suc.prems st by auto
  have "snd (post_process used_chans pad_array n_templates sz i ncc_offset n (s', ncc')) a = ncc' a"
    using Suc.prems by (intro post_process_frame) auto
  then show ?case unfolding fold_post_step st ih .
qed

lemma fold_post_fst:
  "fst (fold (post_process used_chans pad_array n_templates sz i ncc_offset) [0..<n] (s, ncc)) =
     s + (\<Sum>j<n. if used_chans (i * n_templates + j) = 0 then 0
                 else trace_overflows ncc (ncc_offset + j * sz) sz)"
proof (induction n)
  case 0
  show ?case by simp
next
  case (Suc n)
  obtain s' ncc' where st:
    "fold (post_process used_chans pad_array n_templates sz i ncc_offset) [0..<n] (s, ncc) = (s', ncc')"
    by (cases "fold (post_process used_chans pad_array n_templates sz i ncc_offset) [0..<n] (s, ncc)")
  have s': "s' = s + (\<Sum>j<n. if used_chans (i * n_templates + j) = 0 then 0
                 else trace_overflows ncc (ncc_offset + j * sz) sz)"
    using Suc.IH st by simp
  have fr: "ncc' (ncc_offset + n * sz + k) = ncc (ncc_offset + n * sz + k)" for k
    using fold_post_frame [of "ncc_offset + n * sz + k" ncc_offset n sz used_chans pad_array
        n_templates i s ncc] st by simp
  have ov: "trace_overflows ncc' (ncc_offset + n * sz) sz = trace_overflows ncc (ncc_offset + n * sz) sz"
    by (rule trace_overflows_cong) (rule fr)
  show ?case
    unfolding fold_post_step st by (simp add: post_process_fst ov s')
qed

lemma fold_post_trace:
  assumes "j < n" "m < sz"
  shows "snd (fold (post_process used_chans pad_array n_templates sz i ncc_offset) [0..<n] (s, ncc))
           (ncc_offset + j * sz + m) =
         snd (post_process used_chans pad_array n_templates sz i ncc_offset j
                (fst (fold (post_process used_chans pad_array n_templates sz i ncc_offset)
                        [0..<j] (s, ncc)), ncc))
           (ncc_offset + j * sz + m)"
  using assms(1)
proof (induction n)
  case 0
  then show ?case by simp
next
  case (Suc n)
  obtain s' ncc' where st:
    "fold (post_process used_chans pad_array n_templates sz i ncc_offset) [0..<n] (s, ncc) = (s', ncc')"
    by (cases "fold (post_process used_chans pad_array n_templates sz i ncc_offset) [0..<n] (s, ncc)")
  show ?case
  proof (cases "j = n")
    case True
    have fr: "ncc' (ncc_offset + n * sz + k) = ncc (ncc_offset + n * sz + k)" for k
      using fold_post_frame [of "ncc_offset + n * sz + k" ncc_offset n sz used_chans pad_array
          n_templates i s ncc] st by simp
    show ?thesis
      unfolding True fold_post_step st fst_conv
      by (rule post_process_cong(2)) (simp_all add: fr assms(2))
  next
    case False
    then have jn: "j < n" using Suc.prems by simp
    have "ncc_offset + j * sz + m < ncc_offset + n * sz"
      using trace_below [OF jn, of ncc_offset sz] assms(2) by simp
    then have "snd (post_process used_chans pad_array n_templates sz i ncc_offset n (s', ncc'))
        (ncc_offset + j * sz + m) = ncc' (ncc_offset + j * sz + m)"
      by (intro post_process_frame) simp
    then show ?thesis
      unfolding fold_post_step st using Suc.IH [OF jn] st by simp
  qed
qed


lemma fold_post_masked:
  assumes "j < n" "m < sz" "used_chans (i * n_templates + j) = 0"
  shows "snd (fold (post_process used_chans pad_array n_templates sz i ncc_offset) [0..<n] (s, ncc))
           (ncc_offset + j * sz + m) = Fin 0"
  unfolding fold_post_trace [OF assms(1,2)] using assms(2,3) by (simp add: post_process_masked)

lemma fold_post_mono:
  "s \<le> fst (fold (post_process used_chans pad_array n_templates sz i ncc_offset) [0..<n] (s, ncc))"
proof -
  have "0 \<le> (\<Sum>j<n. if used_chans (i * n_templates + j) = 0 then 0
                 else trace_overflows ncc (ncc_offset + j * sz) sz)"
    by (intro sum_nonneg) (simp add: trace_overflows_nonneg)
  then show ?thesis by (simp add: fold_post_fst)
qed

lemma fold_post_in_range:
  assumes "fst (fold (post_process used_chans pad_array n_templates sz i ncc_offset) [0..<n] (s, ncc)) = 0"
    and "0 \<le> s" and "j < n" and "m < sz"
  shows "in_range (snd (fold (post_process used_chans pad_array n_templates sz i ncc_offset)
                          [0..<n] (s, ncc)) (ncc_offset + j * sz + m))"
proof -
  let ?f = "\<lambda>j. if used_chans (i * n_templates + j) = 0 then 0
                 else trace_overflows ncc (ncc_offset + j * sz) sz"
  have nn: "0 \<le> ?f k" for k by (simp add: trace_overflows_nonneg)
  have tot: "s + (\<Sum>k<n. ?f k) = 0" using assms(1) by (simp add: fold_post_fst)
  have "(\<Sum>k<Suc j. ?f k) \<le> (\<Sum>k<n. ?f k)"
    using assms(3) nn by (intro sum_mono2) auto
  moreover have "0 \<le> (\<Sum>k<Suc j. ?f k)" by (intro sum_nonneg) (rule nn)
  ultimately have z: "s + (\<Sum>k<Suc j. ?f k) = 0" using tot assms(2) by linarith
  have sj: "0 \<le> fst (fold (post_process used_chans pad_array n_templates sz i ncc_offset)
                        [0..<j] (s, ncc))"
    using fold_post_mono [of s used_chans pad_array n_templates sz i ncc_offset j ncc] assms(2)
    by linarith
  have "fst (post_process used_chans pad_array n_templates sz i ncc_offset j
          (fst (fold (post_process used_chans pad_array n_templates sz i ncc_offset)
                        [0..<j] (s, ncc)), ncc)) = 0"
    using z by (simp add: post_process_fst fold_post_fst)
  then show ?thesis
    unfolding fold_post_trace [OF assms(3,4)] using sj assms(4)
    by (rule post_process_in_range)
qed

section \<open>One channel\<close>

lemma channel_body_eq:
  "channel_body rt templates n_templates template_len img image_len fft_len used_chans
       pad_array pa pb px i (r, s, ncc) =
     (r,
      fold (post_process used_chans pad_array n_templates (image_len + 1 - template_len) i
              ((image_len + 1 - template_len) * n_templates * i))
        [0..<n_templates]
        (s, store_buf ncc ((image_len + 1 - template_len) * n_templates * i)
              (snd (normxcorr_fftw_main (offset_buf templates (n_templates * template_len * i))
                 template_len n_templates (offset_buf img (image_len * i)) image_len
                 (offset_buf ncc ((image_len + 1 - template_len) * n_templates * i)) fft_len
                 (\<lambda>_. Fin 0) (\<lambda>_. Fin 0)
                 (ws_ccc (scratch rt i)) (ws_outa (scratch rt i)) (ws_outb (scratch rt i))
                 (ws_out (scratch rt i)) pa pb px))))"
proof -
  have k: "normxcorr_fftw_main t l n im il nc f te ie c oa ob ou pa pb px =
      (0, snd (normxcorr_fftw_main t l n im il nc f te ie c oa ob ou pa pb px))"
    for t l n im il nc f te ie c oa ob ou
    using kernel_status [of t l n im il nc f te ie c oa ob ou pa pb px]
    by (cases "normxcorr_fftw_main t l n im il nc f te ie c oa ob ou pa pb px") simp
  show ?thesis
    unfolding channel_body_def Let_def prod.case
    by (subst k) (simp split: prod.splits)
qed

lemma store_kernel_frame:
  assumes "template_len \<le> image_len"
    and "a < off \<or> off + n_templates * (image_len + 1 - template_len) \<le> a"
  shows "store_buf ncc off
           (snd (normxcorr_fftw_main templates template_len n_templates img image_len
                   (offset_buf ncc off) fft_len template_ext image_ext ccc outa outb out pa pb px)) a
         = ncc a"
  using assms(2) by (auto simp: store_buf_def kernel_cells [OF assms(1)] offset_buf_def)

lemma store_kernel_slice:
  assumes "template_len \<le> image_len"
    and "b < n_templates * (image_len + 1 - template_len)"
  shows "store_buf ncc off
           (snd (normxcorr_fftw_main templates template_len n_templates img image_len
                   (offset_buf ncc off) fft_len template_ext image_ext ccc outa outb out pa pb px))
           (off + b)
         = snd (normxcorr_fftw_main templates template_len n_templates img image_len
                   (\<lambda>_. Fin 0) fft_len template_ext image_ext ccc outa outb out pa pb px) b"
  using assms(2) by (simp add: store_buf_def kernel_cells [OF assms(1)])


lemma channel_body_fst:
  "fst (channel_body rt templates n_templates template_len img image_len fft_len used_chans
       pad_array pa pb px i (r, s, ncc)) = r"
  by (simp add: channel_body_eq)

lemma channel_body_mono:
  "s \<le> fst (snd (channel_body rt templates n_templates template_len img image_len fft_len
       used_chans pad_array pa pb px i (r, s, ncc)))"
  by (simp add: channel_body_eq fold_post_mono)

lemma channel_body_masked:
  assumes "j < n_templates" "m < image_len + 1 - template_len"
    and "used_chans (i * n_templates + j) = 0"
  shows "snd (snd (channel_body rt templates n_templates template_len img image_len fft_len
       used_chans pad_array pa pb px i (r, s, ncc)))
       ((image_len + 1 - template_len) * n_templates * i + j * (image_len + 1 - template_len) + m)
     = Fin 0"
  unfolding channel_body_eq snd_conv by (rule fold_post_masked) (rule assms)+

lemma channel_body_in_range:
  assumes "fst (snd (channel_body rt templates n_templates template_len img image_len fft_len
       used_chans pad_array pa pb px i (r, s, ncc))) = 0"
    and "0 \<le> s" and "j < n_templates" and "m < image_len + 1 - template_len"
  shows "in_range (snd (snd (channel_body rt templates n_templates template_len img image_len
       fft_len used_chans pad_array pa pb px i (r, s, ncc)))
       ((image_len + 1 - template_len) * n_templates * i + j * (image_len + 1 - template_len) + m))"
  using assms(1) unfolding channel_body_eq snd_conv
  by (rule fold_post_in_range) (rule assms)+

lemma channel_body_frame:
  assumes "template_len \<le> image_len"
    and "a < (image_len + 1 - template_len) * n_templates * i
         \<or> (image_len + 1 - template_len) * n_templates * i
              + n_templates * (image_len + 1 - template_len) \<le> a"
  shows "snd (snd (channel_body rt templates n_templates template_len img image_len fft_len
       used_chans pad_array pa pb px i (r, s, ncc))) a = ncc a"
  unfolding channel_body_eq snd_conv
  by (subst fold_post_frame [OF assms(2)]) (rule store_kernel_frame [OF assms])

lemma trace_overflows_shift:
  assumes "\<And>k. k < sz \<Longrightarrow> f (b1 + k) = g (b2 + k)"
  shows "trace_overflows f b1 sz = trace_overflows g b2 sz"
  unfolding trace_overflows_def
  by (rule arg_cong [where f = "\<lambda>xs. int (length xs)"], rule filter_cong) (auto simp: assms)

lemma channel_body_overflows:
  assumes "template_len \<le> image_len"
  shows "fst (snd (channel_body rt templates n_templates template_len img image_len fft_len
       used_chans pad_array (Plan_r2c_2d n_templates fft_len) (Plan_r2c_1d fft_len)
       (Plan_c2r_2d n_templates fft_len) i (r, s, ncc))) =
     s + channel_overflows rt templates n_templates template_len img image_len fft_len used_chans i"
proof -
  let ?sz = "image_len + 1 - template_len"
  let ?off = "?sz * n_templates * i"
  let ?X = "store_buf ncc ?off
              (snd (normxcorr_fftw_main (offset_buf templates (n_templates * template_len * i))
                 template_len n_templates (offset_buf img (image_len * i)) image_len
                 (offset_buf ncc ?off) fft_len
                 (\<lambda>_. Fin 0) (\<lambda>_. Fin 0)
                 (ws_ccc (scratch rt i)) (ws_outa (scratch rt i)) (ws_outb (scratch rt i))
                 (ws_out (scratch rt i)) (Plan_r2c_2d n_templates fft_len) (Plan_r2c_1d fft_len)
                 (Plan_c2r_2d n_templates fft_len)))"
  have ov: "trace_overflows ?X (?off + j * ?sz) ?sz =
      trace_overflows (channel_out rt templates n_templates template_len img image_len fft_len i)
        (j * ?sz) ?sz" if "j < n_templates" for j
  proof (rule trace_overflows_shift)
    fix k assume "k < ?sz"
    then have "j * ?sz + k < n_templates * ?sz"
      using trace_below [OF that, of 0 ?sz] by simp
    then show "?X (?off + j * ?sz + k) =
        channel_out rt templates n_templates template_len img image_len fft_len i (j * ?sz + k)"
      unfolding channel_out_def add.assoc by (rule store_kernel_slice [OF assms])
  qed
  show ?thesis
    unfolding channel_body_eq snd_conv fold_post_fst channel_overflows_def
  proof (rule arg_cong [where f = "\<lambda>x. s + x"], rule sum.cong [OF refl])
    fix j assume "j \<in> {..<n_templates}"
    then have j: "j < n_templates" by simp
    show "(if used_chans (i * n_templates + j) = 0 then 0
           else trace_overflows ?X (?off + j * ?sz) ?sz) =
          (if used_chans (i * n_templates + j) = 0 then 0
           else trace_overflows
                  (channel_out rt templates n_templates template_len img image_len fft_len i)
                  (j * ?sz) ?sz)"
      by (simp only: ov [OF j])
  qed
qed

section \<open>The loop over the channels\<close>

lemma channel_body_overflows_all:
  "fst (snd (channel_body rt templates n_templates template_len img image_len fft_len
       used_chans pad_array (Plan_r2c_2d n_templates fft_len) (Plan_r2c_1d fft_len)
       (Plan_c2r_2d n_templates fft_len) i (r, s, ncc))) =
     s + channel_overflows rt templates n_templates template_len img image_len fft_len used_chans i"
proof (cases "template_len \<le> image_len")
  case True
  then show ?thesis by (rule channel_body_overflows)
next
  case False
  then have z: "image_len + 1 - template_len = 0" by simp
  have t: "trace_overflows f b 0 = 0" for f b by (simp add: trace_overflows_def)
  show ?thesis
    unfolding channel_body_eq snd_conv fold_post_fst channel_overflows_def z t by simp
qed

lemma fold_established:
  assumes "\<exists>x\<in>set xs. E x"
    and "\<And>x s. E x \<Longrightarrow> P (f x s)"
    and "\<And>x s. \<not> E x \<Longrightarrow> P s \<Longrightarrow> P (f x s)"
  shows "P (fold f xs s)"
  using assms(1)
proof (induction xs rule: rev_induct)
  case Nil
  then show ?case by simp
next
  case (snoc x xs)
  show ?case
  proof (cases "E x")
    case True
    then show ?thesis by (simp add: assms(2))
  next
    case False
    then have "\<exists>x\<in>set xs. E x" using snoc.prems by auto
    then have "P (fold f xs s)" by (rule snoc.IH)
    then show ?thesis using False by (simp add: assms(3))
  qed
qed

lemma slice_address:
  assumes "j < n" "m < (sz::nat)"
  shows "sz * n * c \<le> sz * n * c + j * sz + m"
    and "sz * n * c + j * sz + m < sz * n * c + n * sz"
  using trace_below [OF assms(1), of "sz * n * c" sz] assms(2) by simp_all

lemma slices_disjoint:
  assumes "c \<noteq> x" "j < n" "m < (sz::nat)"
  shows "sz * n * c + j * sz + m < sz * n * x \<or> sz * n * x + n * sz \<le> sz * n * c + j * sz + m"
proof (cases "c < x")
  case True
  then have "sz * n * Suc c \<le> sz * n * x" by (intro mult_le_mono2) simp
  then show ?thesis using slice_address(2) [OF assms(2,3), of c] by (simp add: mult.commute)
next
  case False
  then have "Suc x \<le> c" using assms(1) by simp
  then have "sz * n * Suc x \<le> sz * n * c" by (intro mult_le_mono2)
  then show ?thesis by (simp add: mult.commute)
qed


lemma worker_snoc:
  "worker rt templates n_templates template_len img image_len fft_len used_chans pad_array
     (xs @ [x]) st =
   channel_body rt templates n_templates template_len img image_len fft_len used_chans pad_array
     (Plan_r2c_2d n_templates fft_len) (Plan_r2c_1d fft_len) (Plan_c2r_2d n_templates fft_len) x
     (worker rt templates n_templates template_len img image_len fft_len used_chans pad_array xs st)"
  by (simp add: worker_def)

lemma worker_Nil:
  "worker rt templates n_templates template_len img image_len fft_len used_chans pad_array [] st = st"
  by (simp add: worker_def)

lemma worker_fst:
  "fst (worker rt templates n_templates template_len img image_len fft_len used_chans pad_array
          chans (r, s, ncc)) = r"
proof (induction chans rule: rev_induct)
  case Nil
  show ?case by (simp add: worker_Nil)
next
  case (snoc x xs)
  obtain r1 s1 ncc1 where st: "worker rt templates n_templates template_len img image_len fft_len
      used_chans pad_array xs (r, s, ncc) = (r1, s1, ncc1)"
    by (cases "worker rt templates n_templates template_len img image_len fft_len
      used_chans pad_array xs (r, s, ncc)") auto
  show ?case using snoc st by (simp add: worker_snoc channel_body_fst)
qed

lemma worker_overflows:
  "fst (snd (worker rt templates n_templates template_len img image_len fft_len used_chans
          pad_array chans (r, s, ncc))) =
   s + (\<Sum>c\<leftarrow>chans. channel_overflows rt templates n_templates template_len img image_len
                    fft_len used_chans c)"
proof (induction chans rule: rev_induct)
  case Nil
  show ?case by (simp add: worker_Nil)
next
  case (snoc x xs)
  obtain r1 s1 ncc1 where st: "worker rt templates n_templates template_len img image_len fft_len
      used_chans pad_array xs (r, s, ncc) = (r1, s1, ncc1)"
    by (cases "worker rt templates n_templates template_len img image_len fft_len
      used_chans pad_array xs (r, s, ncc)") auto
  show ?case using snoc st by (simp add: worker_snoc channel_body_overflows_all)
qed

lemma trace_overflows_sum_nonneg:
  "0 \<le> channel_overflows rt templates n_templates template_len img image_len fft_len used_chans c"
  unfolding channel_overflows_def by (intro sum_nonneg) (simp add: trace_overflows_nonneg)

lemma channel_overflows_sum_nonneg:
  "0 \<le> (\<Sum>c\<leftarrow>chans. channel_overflows rt templates n_templates template_len img image_len
                    fft_len used_chans c)"
  by (intro sum_list_nonneg) (auto simp: trace_overflows_sum_nonneg)

lemma worker_frame:
  assumes "template_len \<le> image_len"
    and "\<And>c. c \<in> set chans \<Longrightarrow>
           a < (image_len + 1 - template_len) * n_templates * c
           \<or> (image_len + 1 - template_len) * n_templates * c
                + n_templates * (image_len + 1 - template_len) \<le> a"
  shows "snd (snd (worker rt templates n_templates template_len img image_len fft_len used_chans
          pad_array chans (r, s, ncc))) a = ncc a"
  using assms(2)
proof (induction chans rule: rev_induct)
  case Nil
  show ?case by (simp add: worker_Nil)
next
  case (snoc x xs)
  obtain r1 s1 ncc1 where st: "worker rt templates n_templates template_len img image_len fft_len
      used_chans pad_array xs (r, s, ncc) = (r1, s1, ncc1)"
    by (cases "worker rt templates n_templates template_len img image_len fft_len
      used_chans pad_array xs (r, s, ncc)") auto
  have ih: "ncc1 a = ncc a" using snoc.IH snoc.prems st by simp
  have "snd (snd (channel_body rt templates n_templates template_len img image_len fft_len
      used_chans pad_array (Plan_r2c_2d n_templates fft_len) (Plan_r2c_1d fft_len)
      (Plan_c2r_2d n_templates fft_len) x (r1, s1, ncc1))) a = ncc1 a"
    by (rule channel_body_frame [OF assms(1)]) (rule snoc.prems, simp)
  then show ?case unfolding worker_snoc st ih .
qed

lemma worker_masked:
  assumes "c \<in> set chans" "j < n_templates" "m < image_len + 1 - template_len"
    and "used_chans (c * n_templates + j) = 0"
  shows "snd (snd (worker rt templates n_templates template_len img image_len fft_len used_chans
          pad_array chans st))
       ((image_len + 1 - template_len) * n_templates * c + j * (image_len + 1 - template_len) + m)
     = Fin 0"
  unfolding worker_def
proof (rule fold_established [where E = "\<lambda>x. x = c"])
  show "\<exists>x\<in>set chans. x = c" using assms(1) by simp
next
  fix x and st :: "int \<times> int \<times> fbuf"
  assume xc: "x = c"
  obtain r1 s1 ncc1 where st: "st = (r1, s1, ncc1)" by (cases st) auto
  show "snd (snd (channel_body rt templates n_templates template_len img image_len fft_len
      used_chans pad_array (Plan_r2c_2d n_templates fft_len) (Plan_r2c_1d fft_len)
      (Plan_c2r_2d n_templates fft_len) x st))
       ((image_len + 1 - template_len) * n_templates * c + j * (image_len + 1 - template_len) + m)
     = Fin 0"
    unfolding st xc by (rule channel_body_masked) (rule assms)+
next
  fix x and st :: "int \<times> int \<times> fbuf"
  assume x: "x \<noteq> c" and p: "snd (snd st)
       ((image_len + 1 - template_len) * n_templates * c + j * (image_len + 1 - template_len) + m)
     = Fin 0"
  have le: "template_len \<le> image_len" using assms(3) by simp
  obtain r1 s1 ncc1 where st: "st = (r1, s1, ncc1)" by (cases st) auto
  show "snd (snd (channel_body rt templates n_templates template_len img image_len fft_len
      used_chans pad_array (Plan_r2c_2d n_templates fft_len) (Plan_r2c_1d fft_len)
      (Plan_c2r_2d n_templates fft_len) x st))
       ((image_len + 1 - template_len) * n_templates * c + j * (image_len + 1 - template_len) + m)
     = Fin 0"
    unfolding st
    by (subst channel_body_frame [OF le slices_disjoint])
       (use x p st assms(2,3) in auto)
qed


lemma worker_in_range:
  assumes "0 \<le> s"
  shows "fst (snd (worker rt templates n_templates template_len img image_len fft_len used_chans
                pad_array chans (r, s, ncc))) = 0 \<longrightarrow>
         (\<forall>c\<in>set chans. \<forall>j<n_templates. \<forall>m<image_len + 1 - template_len.
            in_range (snd (snd (worker rt templates n_templates template_len img image_len fft_len
                used_chans pad_array chans (r, s, ncc)))
              ((image_len + 1 - template_len) * n_templates * c
                 + j * (image_len + 1 - template_len) + m)))"
proof (induction chans rule: rev_induct)
  case Nil
  show ?case by simp
next
  case (snoc x xs)
  obtain r1 s1 ncc1 where st: "worker rt templates n_templates template_len img image_len fft_len
      used_chans pad_array xs (r, s, ncc) = (r1, s1, ncc1)"
    by (cases "worker rt templates n_templates template_len img image_len fft_len
      used_chans pad_array xs (r, s, ncc)") auto
  have s1: "s1 = s + (\<Sum>c\<leftarrow>xs. channel_overflows rt templates n_templates template_len img
      image_len fft_len used_chans c)"
    using worker_overflows [of rt templates n_templates template_len img image_len fft_len
        used_chans pad_array xs r s ncc] st by simp
  have s1_nonneg: "0 \<le> s1"
    unfolding s1 using assms channel_overflows_sum_nonneg [of rt templates n_templates
        template_len img image_len fft_len used_chans xs] by linarith
  let ?cb = "channel_body rt templates n_templates template_len img image_len fft_len
      used_chans pad_array (Plan_r2c_2d n_templates fft_len) (Plan_r2c_1d fft_len)
      (Plan_c2r_2d n_templates fft_len) x (r1, s1, ncc1)"
  show ?case
    unfolding worker_snoc st
  proof (intro impI ballI allI)
    fix c j m
    assume z: "fst (snd ?cb) = 0" and c: "c \<in> set (xs @ [x])"
      and j: "j < n_templates" and m: "m < image_len + 1 - template_len"
    have le: "template_len \<le> image_len" using m by simp
    have "s1 \<le> fst (snd ?cb)" by (rule channel_body_mono)
    then have s1z: "s1 = 0" using z s1_nonneg by simp
    show "in_range (snd (snd ?cb)
        ((image_len + 1 - template_len) * n_templates * c + j * (image_len + 1 - template_len) + m))"
    proof (cases "c = x")
      case True
      show ?thesis unfolding True using z s1_nonneg j m by (rule channel_body_in_range)
    next
      case False
      then have "c \<in> set xs" using c by simp
      then have "in_range (ncc1
        ((image_len + 1 - template_len) * n_templates * c + j * (image_len + 1 - template_len) + m))"
        using snoc.IH st s1z j m by simp
      then show ?thesis
        by (subst channel_body_frame [OF le slices_disjoint]) (use False j m in auto)
    qed
  qed
qed

lemma run_worker_eq:
  "run_worker rt templates n_templates template_len img image_len fft_len used_chans pad_array
     chans (r, s, ncc) =
   (r, s + fst (snd (worker rt templates n_templates template_len img image_len fft_len
                    used_chans pad_array chans (0, 0, ncc))),
        snd (snd (worker rt templates n_templates template_len img image_len fft_len
                    used_chans pad_array chans (0, 0, ncc))))"
proof -
  obtain r1 s1 ncc1 where w: "worker rt templates n_templates template_len img image_len fft_len
                    used_chans pad_array chans (0, 0, ncc) = (r1, s1, ncc1)"
    by (cases "worker rt templates n_templates template_len img image_len fft_len
                    used_chans pad_array chans (0, 0, ncc)") auto
  have "r1 = 0"
    using worker_fst [of rt templates n_templates template_len img image_len fft_len
                    used_chans pad_array chans 0 0 ncc] w by simp
  then show ?thesis by (simp add: run_worker_def w)
qed


lemma loop_fst:
  "fst (fold (run_worker rt templates n_templates template_len img image_len fft_len used_chans
                pad_array) sched (r, s, ncc)) = r"
proof (induction sched rule: rev_induct)
  case Nil
  show ?case by simp
next
  case (snoc x xs)
  obtain r1 s1 ncc1 where st: "fold (run_worker rt templates n_templates template_len img
      image_len fft_len used_chans pad_array) xs (r, s, ncc) = (r1, s1, ncc1)"
    by (cases "fold (run_worker rt templates n_templates template_len img
      image_len fft_len used_chans pad_array) xs (r, s, ncc)") auto
  show ?case using snoc st by (simp add: run_worker_eq)
qed

lemma loop_overflows:
  "fst (snd (fold (run_worker rt templates n_templates template_len img image_len fft_len
                used_chans pad_array) sched (r, s, ncc))) =
   s + (\<Sum>c\<leftarrow>concat sched. channel_overflows rt templates n_templates template_len img
                    image_len fft_len used_chans c)"
proof (induction sched rule: rev_induct)
  case Nil
  show ?case by simp
next
  case (snoc x xs)
  obtain r1 s1 ncc1 where st: "fold (run_worker rt templates n_templates template_len img
      image_len fft_len used_chans pad_array) xs (r, s, ncc) = (r1, s1, ncc1)"
    by (cases "fold (run_worker rt templates n_templates template_len img
      image_len fft_len used_chans pad_array) xs (r, s, ncc)") auto
  show ?case using snoc st by (simp add: run_worker_eq worker_overflows)
qed

lemma loop_masked:
  assumes "c \<in> set (concat sched)" "j < n_templates" "m < image_len + 1 - template_len"
    and "used_chans (c * n_templates + j) = 0"
  shows "snd (snd (fold (run_worker rt templates n_templates template_len img image_len fft_len
                used_chans pad_array) sched st))
       ((image_len + 1 - template_len) * n_templates * c + j * (image_len + 1 - template_len) + m)
     = Fin 0"
proof (rule fold_established [where E = "\<lambda>chans. c \<in> set chans"])
  show "\<exists>chans\<in>set sched. c \<in> set chans" using assms(1) by auto
next
  fix chans and st :: "int \<times> int \<times> fbuf"
  assume c: "c \<in> set chans"
  obtain r1 s1 ncc1 where st: "st = (r1, s1, ncc1)" by (cases st) auto
  show "snd (snd (run_worker rt templates n_templates template_len img image_len fft_len
      used_chans pad_array chans st))
       ((image_len + 1 - template_len) * n_templates * c + j * (image_len + 1 - template_len) + m)
     = Fin 0"
    unfolding st run_worker_eq snd_conv by (rule worker_masked) (rule c assms)+
next
  fix chans and st :: "int \<times> int \<times> fbuf"
  assume c: "c \<notin> set chans" and p: "snd (snd st)
       ((image_len + 1 - template_len) * n_templates * c + j * (image_len + 1 - template_len) + m)
     = Fin 0"
  have le: "template_len \<le> image_len" using assms(3) by simp
  obtain r1 s1 ncc1 where st: "st = (r1, s1, ncc1)" by (cases st) auto
  have "snd (snd (worker rt templates n_templates template_len img image_len fft_len used_chans
          pad_array chans (0, 0, ncc1)))
       ((image_len + 1 - template_len) * n_templates * c + j * (image_len + 1 - template_len) + m)
     = ncc1
       ((image_len + 1 - template_len) * n_templates * c + j * (image_len + 1 - template_len) + m)"
  proof (rule worker_frame [OF le])
    fix x assume "x \<in> set chans"
    then have "c \<noteq> x" using c by auto
    then show "(image_len + 1 - template_len) * n_templates * c
          + j * (image_len + 1 - template_len) + m
          < (image_len + 1 - template_len) * n_templates * x
        \<or> (image_len + 1 - template_len) * n_templates * x
             + n_templates * (image_len + 1 - template_len)
           \<le> (image_len + 1 - template_len) * n_templates * c
               + j * (image_len + 1 - template_len) + m"
      using assms(2,3) by (rule slices_disjoint)
  qed
  then show "snd (snd (run_worker rt templates n_templates template_len img image_len fft_len
      used_chans pad_array chans st))
       ((image_len + 1 - template_len) * n_templates * c + j * (image_len + 1 - template_len) + m)
     = Fin 0"
    unfolding st run_worker_eq snd_conv using p st by simp
qed


lemma loop_in_range:
  assumes "0 \<le> s"
  shows "fst (snd (fold (run_worker rt templates n_templates template_len img image_len fft_len
                used_chans pad_array) sched (r, s, ncc))) = 0 \<longrightarrow>
         (\<forall>c\<in>set (concat sched). \<forall>j<n_templates. \<forall>m<image_len + 1 - template_len.
            in_range (snd (snd (fold (run_worker rt templates n_templates template_len img
                image_len fft_len used_chans pad_array) sched (r, s, ncc)))
              ((image_len + 1 - template_len) * n_templates * c
                 + j * (image_len + 1 - template_len) + m)))"
proof (induction sched rule: rev_induct)
  case Nil
  show ?case by simp
next
  case (snoc chans xs)
  obtain r1 s1 ncc1 where st: "fold (run_worker rt templates n_templates template_len img
      image_len fft_len used_chans pad_array) xs (r, s, ncc) = (r1, s1, ncc1)"
    by (cases "fold (run_worker rt templates n_templates template_len img
      image_len fft_len used_chans pad_array) xs (r, s, ncc)") auto
  have s1: "s1 = s + (\<Sum>c\<leftarrow>concat xs. channel_overflows rt templates n_templates template_len
      img image_len fft_len used_chans c)"
    using loop_overflows [of rt templates n_templates template_len img image_len fft_len
        used_chans pad_array xs r s ncc] st by simp
  have s1_nonneg: "0 \<le> s1"
    unfolding s1 using assms channel_overflows_sum_nonneg [of rt templates n_templates
        template_len img image_len fft_len used_chans "concat xs"] by linarith
  let ?w = "worker rt templates n_templates template_len img image_len fft_len used_chans
              pad_array chans (0, 0, ncc1)"
  have sw: "0 \<le> fst (snd ?w)"
    unfolding worker_overflows using channel_overflows_sum_nonneg [of rt templates n_templates
        template_len img image_len fft_len used_chans chans] by simp
  show ?case
    unfolding fold_append comp_def fold_simps st run_worker_eq snd_conv fst_conv
  proof (intro impI ballI allI)
    fix c j m
    assume z: "s1 + fst (snd ?w) = 0" and c: "c \<in> set (concat (xs @ [chans]))"
      and j: "j < n_templates" and m: "m < image_len + 1 - template_len"
    have le: "template_len \<le> image_len" using m by simp
    have z1: "s1 = 0" and zw: "fst (snd ?w) = 0" using z s1_nonneg sw by simp_all
    show "in_range (snd (snd ?w)
        ((image_len + 1 - template_len) * n_templates * c + j * (image_len + 1 - template_len) + m))"
    proof (cases "c \<in> set chans")
      case True
      have "0 \<le> (0::int)" by simp
      then show ?thesis using worker_in_range zw True j m by blast
    next
      case False
      then have "c \<in> set (concat xs)" using c by simp
      then have ir: "in_range (ncc1
        ((image_len + 1 - template_len) * n_templates * c + j * (image_len + 1 - template_len) + m))"
        using snoc.IH st z1 j m by auto
      have "snd (snd ?w)
        ((image_len + 1 - template_len) * n_templates * c + j * (image_len + 1 - template_len) + m)
        = ncc1
        ((image_len + 1 - template_len) * n_templates * c + j * (image_len + 1 - template_len) + m)"
      proof (rule worker_frame [OF le])
        fix x assume "x \<in> set chans"
        then have "c \<noteq> x" using False by auto
        then show "(image_len + 1 - template_len) * n_templates * c
              + j * (image_len + 1 - template_len) + m
              < (image_len + 1 - template_len) * n_templates * x
            \<or> (image_len + 1 - template_len) * n_templates * x
                 + n_templates * (image_len + 1 - template_len)
               \<le> (image_len + 1 - template_len) * n_templates * c
                   + j * (image_len + 1 - template_len) + m"
          using j m by (rule slices_disjoint)
      qed
      then show ?thesis using ir by simp
    qed
  qed
qed

text \<open>
  C4. The tensor after the loop over the channels (post-processed, before the sum over
  the channels) is zero on every trace \<open>(c, k)\<close> whose \<open>used_chans\<close> flag is zero: sample
  \<open>j\<close> of that trace is the cell \<open>(c * n_templates + k) * steps + j\<close>. This holds for every
  schedule that runs every channel, whatever overflows the workers have counted.
\<close>

theorem masked_trace_zero:
  assumes "valid_schedule (schedule rt) n_channels" and "c < n_channels"
    and "k < n_templates" and "j < image_len + 1 - template_len"
    and "used_chans (c * n_templates + k) = 0"
  shows "snd (snd (channel_loop rt templates n_templates template_len img image_len fft_len
                     used_chans pad_array ncc))
           ((image_len + 1 - template_len) * n_templates * c
              + k * (image_len + 1 - template_len) + j) = Fin 0"
proof -
  have "c \<in> set (concat (schedule rt))"
    using assms(1,2) by (simp add: valid_schedule_def)
  then show ?thesis
    unfolding channel_loop_def using assms(3,4,5) by (rule loop_masked)
qed

theorem masked_trace_zero_witness:
  "valid_schedule
     (schedule \<lparr>N_THREADS = Some 1, alloc_fails = (\<lambda>_. False), schedule = [[0, 1]],
        scratch = (\<lambda>_. \<lparr>ws_ccc = (\<lambda>_. Fin 0), ws_outa = (\<lambda>_. (Fin 0, Fin 0)),
                        ws_outb = (\<lambda>_. (Fin 0, Fin 0)), ws_out = (\<lambda>_. (Fin 0, Fin 0))\<rparr>)\<rparr>) 2
   \<and> (1::nat) < 2 \<and> (0::nat) < 1 \<and> (1::nat) < 3 + 1 - 2
   \<and> (\<lambda>i::nat. if i = 1 then 0 else 1::int) (1 * 1 + 0) = 0
   \<and> snd (snd (channel_loop
         \<lparr>N_THREADS = Some 1, alloc_fails = (\<lambda>_. False), schedule = [[0, 1]],
          scratch = (\<lambda>_. \<lparr>ws_ccc = (\<lambda>_. Fin 0), ws_outa = (\<lambda>_. (Fin 0, Fin 0)),
                        ws_outb = (\<lambda>_. (Fin 0, Fin 0)), ws_out = (\<lambda>_. (Fin 0, Fin 0))\<rparr>)\<rparr>
         (\<lambda>i. Fin (real i)) 1 2 (\<lambda>i. Fin (real (i * i))) 3 4
         (\<lambda>i. if i = 1 then 0 else 1) (\<lambda>_. 0) (\<lambda>_. NaN)))
       ((3 + 1 - 2) * 1 * 1 + 0 * (3 + 1 - 2) + 1) = Fin 0"
proof -
  have v: "valid_schedule
     (schedule \<lparr>N_THREADS = Some 1, alloc_fails = (\<lambda>_. False), schedule = [[0, 1]],
        scratch = (\<lambda>_. \<lparr>ws_ccc = (\<lambda>_. Fin 0), ws_outa = (\<lambda>_. (Fin 0, Fin 0)),
                        ws_outb = (\<lambda>_. (Fin 0, Fin 0)), ws_out = (\<lambda>_. (Fin 0, Fin 0))\<rparr>)\<rparr>) 2"
    by (auto simp: valid_schedule_def)
  show ?thesis
    using v masked_trace_zero [OF v, where c = 1 and k = 0 and n_templates = 1 and j = 1
        and image_len = 3 and template_len = 2 and used_chans = "\<lambda>i. if i = 1 then 0 else 1"
        and templates = "\<lambda>i. Fin (real i)" and img = "\<lambda>i. Fin (real (i * i))"
        and fft_len = 4 and pad_array = "\<lambda>_. 0" and ncc = "\<lambda>_. NaN"]
    by simp
qed

section \<open>The transforms: roots of unity and circular convolution\<close>

lemma root_zero [simp]: "unity_root n 0 = 1"
  by (simp add: unity_root_def)

lemma root_add: "unity_root n (a + b) = unity_root n a * unity_root n b"
  by (simp add: unity_root_def cis_mult add_divide_distrib distrib_left)

lemma root_cnj: "cnj (unity_root n m) = unity_root n (- m)"
  by (simp add: unity_root_def cis_cnj)

lemma root_pow: "unity_root n (m * int k) = unity_root n m ^ k"
  by (simp add: unity_root_def DeMoivre mult_ac)

lemma root_full:
  assumes "0 < n"
  shows "unity_root n (int n * q) = 1"
proof -
  have "2 * pi * real_of_int (int n * q) / real n = 2 * pi * real_of_int q"
    using assms by simp
  then show ?thesis by (simp add: unity_root_def)
qed

lemma root_period:
  assumes "0 < n"
  shows "unity_root n (m + int n * q) = unity_root n m"
  by (simp add: root_add root_full [OF assms])

lemma root_eq_1_iff:
  assumes "0 < n"
  shows "(unity_root n m = 1) = (int n dvd m)"
proof
  assume "unity_root n m = 1"
  then have "cos (2 * pi * real_of_int m / real n) = 1"
    by (simp add: unity_root_def complex_eq_iff)
  then obtain q :: int where q: "2 * pi * real_of_int m / real n = real_of_int q * 2 * pi"
    by (auto simp: cos_one_2pi_int)
  then have "(2 * pi) * (real_of_int m / real n) = (2 * pi) * real_of_int q"
    by (simp add: algebra_simps)
  then have "real_of_int m / real n = real_of_int q"
    using pi_gt_zero by (simp only: mult_cancel_left) auto
  then have "real_of_int m = real_of_int (q * int n)"
    using assms by (simp add: field_simps)
  then have "m = q * int n" by (simp only: of_int_eq_iff)
  then show "int n dvd m" by simp
next
  assume "int n dvd m"
  then obtain q where "m = int n * q" by (auto simp: dvd_def)
  then show "unity_root n m = 1" by (simp add: root_full [OF assms])
qed

lemma root_orthogonal:
  assumes "0 < n"
  shows "(\<Sum>k<n. unity_root n (m * int k)) = (if int n dvd m then of_nat n else 0)"
proof (cases "int n dvd m")
  case True
  then have "unity_root n m = 1" by (simp add: root_eq_1_iff [OF assms])
  then show ?thesis using True by (simp add: root_pow)
next
  case False
  then have ne: "unity_root n m \<noteq> 1" by (simp add: root_eq_1_iff [OF assms])
  have pn: "unity_root n m ^ n = 1"
    using root_full [OF assms, of m] by (simp add: root_pow [symmetric] mult.commute)
  have "(\<Sum>k<n. unity_root n m ^ k) = (unity_root n m ^ n - 1) / (unity_root n m - 1)"
    using ne by (rule geometric_sum)
  then show ?thesis using False by (simp add: root_pow pn)
qed


lemma dvd_diff_index:
  assumes "p < n" "q < n"
  shows "(int n dvd (int j - int p - int q)) = (q = (j + n - p) mod n)"
proof -
  have "(int n dvd (int j - int p - int q)) = ((int j - int p) mod int n = int q mod int n)"
    by (simp add: mod_eq_dvd_iff)
  also have "(int j - int p) mod int n = (int j + int n - int p) mod int n"
    by (metis add_diff_eq diff_add_eq mod_add_self2)
  also have "int j + int n - int p = int (j + n - p)"
    using assms(1) by (simp add: of_nat_diff)
  also have "int (j + n - p) mod int n = int ((j + n - p) mod n)"
    by (simp add: zmod_int)
  also have "int q mod int n = int q" using assms(2) by simp
  finally show ?thesis by (auto simp: eq_commute)
qed

lemma shifted_inversion:
  assumes "0 < n" "p < n"
  shows "(\<Sum>k<n. unity_root n ((int j - int p) * int k)
                  * (\<Sum>q<n. b q * unity_root n (- (int q * int k))))
         = of_nat n * b ((j + n - p) mod n)"
proof -
  have "(\<Sum>k<n. unity_root n ((int j - int p) * int k)
                  * (\<Sum>q<n. b q * unity_root n (- (int q * int k))))
      = (\<Sum>k<n. \<Sum>q<n. b q * unity_root n ((int j - int p - int q) * int k))"
  proof (rule sum.cong [OF refl])
    fix k
    have "unity_root n ((int j - int p) * int k) * (b q * unity_root n (- (int q * int k)))
        = b q * unity_root n ((int j - int p - int q) * int k)" for q
    proof -
      have e: "(int j - int p - int q) * int k = (int j - int p) * int k + - (int q * int k)"
        by (simp add: algebra_simps)
      show ?thesis unfolding e root_add by (simp add: mult_ac)
    qed
    note pw = this
    have "unity_root n ((int j - int p) * int k)
                  * (\<Sum>q<n. b q * unity_root n (- (int q * int k)))
        = (\<Sum>q<n. unity_root n ((int j - int p) * int k)
                  * (b q * unity_root n (- (int q * int k))))"
      by (rule sum_distrib_left)
    also have "\<dots> = (\<Sum>q<n. b q * unity_root n ((int j - int p - int q) * int k))"
      by (rule sum.cong [OF refl]) (rule pw)
    finally show "unity_root n ((int j - int p) * int k)
                  * (\<Sum>q<n. b q * unity_root n (- (int q * int k)))
        = (\<Sum>q<n. b q * unity_root n ((int j - int p - int q) * int k))" .
  qed
  also have "\<dots> = (\<Sum>q<n. \<Sum>k<n. b q * unity_root n ((int j - int p - int q) * int k))"
    by (rule sum.swap)
  also have "\<dots> = (\<Sum>q<n. b q * (if int n dvd (int j - int p - int q) then of_nat n else 0))"
    by (simp add: sum_distrib_left [symmetric] root_orthogonal [OF assms(1)])
  also have "\<dots> = (\<Sum>q<n. if q = (j + n - p) mod n then b q * of_nat n else 0)"
    by (rule sum.cong [OF refl]) (simp add: dvd_diff_index [OF assms(2)])
  also have "\<dots> = b ((j + n - p) mod n) * of_nat n"
    using assms(1) by (simp add: sum.delta)
  finally show ?thesis by (simp add: mult.commute)
qed

lemma circular_convolution:
  assumes "0 < n"
  shows "(\<Sum>k<n. (\<Sum>p<n. a p * unity_root n (- (int p * int k)))
                  * (\<Sum>q<n. b q * unity_root n (- (int q * int k)))
                  * unity_root n (int j * int k))
         = of_nat n * (\<Sum>p<n. a p * b ((j + n - p) mod n))"
proof -
  let ?B = "\<lambda>k. (\<Sum>q<n. b q * unity_root n (- (int q * int k)))"
  have "(\<Sum>k<n. (\<Sum>p<n. a p * unity_root n (- (int p * int k))) * ?B k
                  * unity_root n (int j * int k))
      = (\<Sum>k<n. \<Sum>p<n. a p * (unity_root n ((int j - int p) * int k) * ?B k))"
  proof (rule sum.cong [OF refl])
    fix k
    have "a p * unity_root n (- (int p * int k)) * ?B k * unity_root n (int j * int k)
        = a p * (unity_root n ((int j - int p) * int k) * ?B k)" for p
    proof -
      have e: "(int j - int p) * int k = - (int p * int k) + int j * int k"
        by (simp add: algebra_simps)
      show ?thesis unfolding e root_add by (simp add: mult_ac)
    qed
    note pw = this
    have "(\<Sum>p<n. a p * unity_root n (- (int p * int k))) * ?B k
                  * unity_root n (int j * int k)
        = (\<Sum>p<n. a p * unity_root n (- (int p * int k)) * ?B k
                  * unity_root n (int j * int k))"
      by (simp only: sum_distrib_right)
    also have "\<dots> = (\<Sum>p<n. a p * (unity_root n ((int j - int p) * int k) * ?B k))"
      by (rule sum.cong [OF refl]) (rule pw)
    finally show "(\<Sum>p<n. a p * unity_root n (- (int p * int k))) * ?B k
                  * unity_root n (int j * int k)
        = (\<Sum>p<n. a p * (unity_root n ((int j - int p) * int k) * ?B k))" .
  qed
  also have "\<dots> = (\<Sum>p<n. \<Sum>k<n. a p * (unity_root n ((int j - int p) * int k) * ?B k))"
    by (rule sum.swap)
  also have "\<dots> = (\<Sum>p<n. a p * (of_nat n * b ((j + n - p) mod n)))"
    by (rule sum.cong [OF refl])
       (simp add: sum_distrib_left [symmetric] shifted_inversion [OF assms])
  finally show ?thesis by (simp add: sum_distrib_left mult_ac)
qed

lemma axis_inversion:
  assumes "0 < n" "j < n"
  shows "(\<Sum>k<n. unity_root n (int j * int k)
                  * (\<Sum>i<n. f i * unity_root n (- (int i * int k))))
         = of_nat n * f j"
proof -
  have "(\<Sum>k<n. unity_root n (int j * int k)
                  * (\<Sum>i<n. f i * unity_root n (- (int i * int k))))
      = (\<Sum>k<n. unity_root n ((int j - int 0) * int k)
                  * (\<Sum>i<n. f i * unity_root n (- (int i * int k))))"
    by simp
  also have "\<dots> = of_nat n * f ((j + n - 0) mod n)"
    by (rule shifted_inversion) (use assms in auto)
  finally show ?thesis using assms(2) by simp
qed


lemma root_cong:
  assumes "0 < n" "int n dvd (a - b)"
  shows "unity_root n a = unity_root n b"
proof -
  from assms(2) obtain q where "a - b = int n * q" by (auto simp: dvd_def)
  then have "a = b + int n * q" by simp
  then show ?thesis by (simp add: root_period [OF assms(1)])
qed

lemma dft_1d_cnj:
  assumes "0 < n" "k \<le> n"
  shows "cnj (dft_r2c_1d n y (n - k)) = dft_r2c_1d n y k"
proof -
  have "cnj (unity_root n (- (int q * int (n - k)))) = unity_root n (- (int q * int k))" for q
  proof -
    have "int (n - k) = int n - int k" using assms(2) by (simp add: of_nat_diff)
    then have "int q * int (n - k) - - (int q * int k) = int n * int q"
      by (simp add: algebra_simps)
    then have "int n dvd (int q * int (n - k) - - (int q * int k))" by simp
    then show ?thesis
      unfolding root_cnj minus_minus by (rule root_cong [OF assms(1)])
  qed
  then show ?thesis by (simp add: dft_r2c_1d_def)
qed

lemma dft_2d_cnj:
  assumes "0 < n0" "0 < n1" "k0 < n0" "k1 \<le> n1"
  shows "cnj (dft_r2c_2d n0 n1 x ((n0 - k0) mod n0) (n1 - k1)) = dft_r2c_2d n0 n1 x k0 k1"
proof -
  have r1: "cnj (unity_root n1 (- (int q * int (n1 - k1)))) = unity_root n1 (- (int q * int k1))"
    for q
  proof -
    have "int (n1 - k1) = int n1 - int k1" using assms(4) by (simp add: of_nat_diff)
    then have "int q * int (n1 - k1) - - (int q * int k1) = int n1 * int q"
      by (simp add: algebra_simps)
    then have "int n1 dvd (int q * int (n1 - k1) - - (int q * int k1))" by simp
    then show ?thesis
      unfolding root_cnj minus_minus by (rule root_cong [OF assms(2)])
  qed
  have r0: "cnj (unity_root n0 (- (int q * int ((n0 - k0) mod n0)))) = unity_root n0 (- (int q * int k0))"
    for q
  proof -
    have "((n0 - k0) mod n0 + k0) mod n0 = 0"
      using assms(3) by (simp add: mod_add_left_eq)
    then have "n0 dvd ((n0 - k0) mod n0 + k0)" by (simp add: dvd_eq_mod_eq_0)
    then have "int n0 dvd int ((n0 - k0) mod n0 + k0)" by (simp only: int_dvd_int_iff)
    then have "int n0 dvd int q * (int ((n0 - k0) mod n0) + int k0)" by simp
    moreover have "int q * int ((n0 - k0) mod n0) - - (int q * int k0)
        = int q * (int ((n0 - k0) mod n0) + int k0)" by (simp add: algebra_simps)
    ultimately have "int n0 dvd (int q * int ((n0 - k0) mod n0) - - (int q * int k0))" by simp
    then show ?thesis
      unfolding root_cnj minus_minus by (rule root_cong [OF assms(1)])
  qed
  show ?thesis by (simp add: dft_r2c_2d_def r0 r1)
qed

lemma herm_product:
  assumes "0 < n0" "0 < n1" "k0 < n0" "k1 < n1"
    and P: "\<And>a b. a < n0 \<Longrightarrow> b \<le> n1 div 2 \<Longrightarrow>
              P (a * (n1 div 2 + 1) + b) = dft_r2c_2d n0 n1 x a b * dft_r2c_1d n1 y b"
  shows "herm n0 n1 P k0 k1 = dft_r2c_2d n0 n1 x k0 k1 * dft_r2c_1d n1 y k1"
proof (cases "k1 \<le> n1 div 2")
  case True
  then show ?thesis using P [OF assms(3) True] by (simp add: herm_def)
next
  case False
  have a: "(n0 - k0) mod n0 < n0" using assms(1) by simp
  have b: "n1 - k1 \<le> n1 div 2" using False by simp
  have "herm n0 n1 P k0 k1 =
      cnj (dft_r2c_2d n0 n1 x ((n0 - k0) mod n0) (n1 - k1) * dft_r2c_1d n1 y (n1 - k1))"
    using False P [OF a b] by (simp add: herm_def)
  also have "\<dots> = dft_r2c_2d n0 n1 x k0 k1 * dft_r2c_1d n1 y k1"
    using assms(4)
    by (simp add: dft_2d_cnj [OF assms(1,2,3)] dft_1d_cnj [OF assms(2)])
  finally show ?thesis .
qed

lemma dft_2d_rows:
  "dft_r2c_2d n0 n1 x k0 k1 =
     (\<Sum>i0<n0. dft_r2c_1d n1 (\<lambda>i1. x (i0 * n1 + i1)) k1 * unity_root n0 (- (int i0 * int k0)))"
  unfolding dft_r2c_2d_def dft_r2c_1d_def
proof (rule sum.cong [OF refl])
  fix i0
  have "(\<Sum>j<n1. complex_of_real (x (i0 * n1 + j)) * unity_root n1 (- (int j * int k1)))
          * unity_root n0 (- (int i0 * int k0))
      = (\<Sum>j<n1. complex_of_real (x (i0 * n1 + j)) * unity_root n1 (- (int j * int k1))
          * unity_root n0 (- (int i0 * int k0)))"
    by (rule sum_distrib_right)
  also have "\<dots> = (\<Sum>j1<n1. complex_of_real (x (i0 * n1 + j1))
         * unity_root n0 (- (int i0 * int k0)) * unity_root n1 (- (int j1 * int k1)))"
    by (rule sum.cong [OF refl]) (simp add: mult_ac)
  finally show "(\<Sum>j1<n1. complex_of_real (x (i0 * n1 + j1))
         * unity_root n0 (- (int i0 * int k0)) * unity_root n1 (- (int j1 * int k1)))
      = (\<Sum>j<n1. complex_of_real (x (i0 * n1 + j)) * unity_root n1 (- (int j * int k1)))
          * unity_root n0 (- (int i0 * int k0))" by (rule sym)
qed

lemma fftw_pipeline:
  assumes "0 < n0" "0 < n1" "j0 < n0" "j1 < n1"
    and P: "\<And>a b. a < n0 \<Longrightarrow> b \<le> n1 div 2 \<Longrightarrow>
              P (a * (n1 div 2 + 1) + b) = dft_r2c_2d n0 n1 x a b * dft_r2c_1d n1 y b"
  shows "dft_c2r_2d n0 n1 P j0 j1 =
         real (n0 * n1) * (\<Sum>p<n1. x (j0 * n1 + p) * y ((j1 + n1 - p) mod n1))"
proof -
  let ?A1 = "\<lambda>i0 k1. dft_r2c_1d n1 (\<lambda>i1. x (i0 * n1 + i1)) k1"
  let ?B = "\<lambda>k1. dft_r2c_1d n1 y k1"
  have "(\<Sum>k0<n0. \<Sum>k1<n1. herm n0 n1 P k0 k1
           * unity_root n0 (int j0 * int k0) * unity_root n1 (int j1 * int k1))
      = (\<Sum>k0<n0. \<Sum>k1<n1. dft_r2c_2d n0 n1 x k0 k1 * ?B k1
           * unity_root n0 (int j0 * int k0) * unity_root n1 (int j1 * int k1))"
    by (intro sum.cong refl) (simp add: herm_product [OF assms(1,2) _ _ P])
  also have "\<dots> = (\<Sum>k1<n1. \<Sum>k0<n0. dft_r2c_2d n0 n1 x k0 k1 * ?B k1
           * unity_root n0 (int j0 * int k0) * unity_root n1 (int j1 * int k1))"
    by (rule sum.swap)
  also have "\<dots> = (\<Sum>k1<n1. (of_nat n0 * ?A1 j0 k1) * ?B k1 * unity_root n1 (int j1 * int k1))"
  proof (rule sum.cong [OF refl])
    fix k1
    have "(\<Sum>k0<n0. dft_r2c_2d n0 n1 x k0 k1 * ?B k1
           * unity_root n0 (int j0 * int k0) * unity_root n1 (int j1 * int k1))
        = (\<Sum>k0<n0. unity_root n0 (int j0 * int k0) * dft_r2c_2d n0 n1 x k0 k1)
           * (?B k1 * unity_root n1 (int j1 * int k1))"
      unfolding sum_distrib_right by (rule sum.cong [OF refl]) (simp add: mult_ac)
    also have "(\<Sum>k0<n0. unity_root n0 (int j0 * int k0) * dft_r2c_2d n0 n1 x k0 k1)
        = of_nat n0 * ?A1 j0 k1"
      unfolding dft_2d_rows by (rule axis_inversion [OF assms(1,3)])
    finally show "(\<Sum>k0<n0. dft_r2c_2d n0 n1 x k0 k1 * ?B k1
           * unity_root n0 (int j0 * int k0) * unity_root n1 (int j1 * int k1))
        = (of_nat n0 * ?A1 j0 k1) * ?B k1 * unity_root n1 (int j1 * int k1)"
      by (simp add: mult_ac)
  qed
  also have "\<dots> = of_nat n0 * (\<Sum>k1<n1. ?A1 j0 k1 * ?B k1 * unity_root n1 (int j1 * int k1))"
    unfolding sum_distrib_left by (rule sum.cong [OF refl]) (simp add: mult_ac)
  also have "(\<Sum>k1<n1. ?A1 j0 k1 * ?B k1 * unity_root n1 (int j1 * int k1))
      = of_nat n1 * (\<Sum>p<n1. of_real (x (j0 * n1 + p)) * of_real (y ((j1 + n1 - p) mod n1)))"
    unfolding dft_r2c_1d_def by (rule circular_convolution [OF assms(2)])
  also have "of_nat n0 * (of_nat n1 * (\<Sum>p<n1. of_real (x (j0 * n1 + p))
        * of_real (y ((j1 + n1 - p) mod n1)))) =
      (of_real (real (n0 * n1) * (\<Sum>p<n1. x (j0 * n1 + p) * y ((j1 + n1 - p) mod n1))) :: complex)"
    by simp
  finally show ?thesis
    unfolding dft_c2r_2d_def by (simp only: Re_complex_of_real)
qed

section \<open>The work arrays of the kernel\<close>

lemma row_store_fold:
  "fold (\<lambda>i b. b(base + i := W i)) [0..<L] (b::nat \<Rightarrow> 'a) a =
     (if base \<le> a \<and> a < base + L then W (a - base) else b a)"
proof (induction L)
  case 0
  show ?case by auto
next
  case (Suc L)
  have "fold (\<lambda>i b. b(base + i := W i)) [0..<Suc L] b a =
        (if a = base + L then W L else fold (\<lambda>i b. b(base + i := W i)) [0..<L] b a)"
    by simp
  also have "\<dots> = (if base \<le> a \<and> a < base + Suc L then W (a - base) else b a)"
    unfolding Suc by auto
  finally show ?case .
qed

lemma row_index:
  assumes "L \<le> (N::nat)"
  shows "(t * N \<le> a \<and> a < t * N + L) = (a div N = t \<and> a mod N < L)"
proof (cases "N = 0")
  case True
  then show ?thesis using assms by simp
next
  case False
  then have pos: "0 < N" by simp
  show ?thesis
  proof
    assume h: "t * N \<le> a \<and> a < t * N + L"
    then obtain i where i: "a = t * N + i" "i < L" by (metis le_Suc_ex nat_add_left_cancel_less)
    then have "i < N" using assms by simp
    then show "a div N = t \<and> a mod N < L" using i pos by simp
  next
    assume h: "a div N = t \<and> a mod N < L"
    have "a = a div N * N + a mod N" by simp
    then have "a = t * N + a mod N" using h by simp
    then show "t * N \<le> a \<and> a < t * N + L" using h by linarith
  qed
qed

lemma nested_store_fold:
  assumes "L \<le> N"
  shows "fold (\<lambda>t. fold (\<lambda>i b. b(t * N + i := V t i)) [0..<L]) [0..<n] (b::nat \<Rightarrow> 'a) a =
     (if a div N < n \<and> a mod N < L then V (a div N) (a mod N) else b a)"
proof (induction n)
  case 0
  show ?case by simp
next
  case (Suc n)
  have "fold (\<lambda>t. fold (\<lambda>i b. b(t * N + i := V t i)) [0..<L]) [0..<Suc n] b a =
        fold (\<lambda>i b. b(n * N + i := V n i)) [0..<L]
          (fold (\<lambda>t. fold (\<lambda>i b. b(t * N + i := V t i)) [0..<L]) [0..<n] b) a"
    by simp
  also have "\<dots> = (if a div N = n \<and> a mod N < L then V n (a - n * N)
        else (if a div N < n \<and> a mod N < L then V (a div N) (a mod N) else b a))"
    unfolding row_store_fold Suc row_index [OF assms] ..
  also have "\<dots> = (if a div N < Suc n \<and> a mod N < L then V (a div N) (a mod N) else b a)"
  proof (cases "a div N = n \<and> a mod N < L")
    case True
    have "a = a div N * N + a mod N" by simp
    then have "a - n * N = a mod N" using True by simp
    then show ?thesis using True by simp
  next
    case False
    then show ?thesis by (auto simp: less_Suc_eq)
  qed
  finally show ?case .
qed

lemma fold_pair:
  "fold (\<lambda>x (a, b). (f x a, g x b)) xs (a0, b0) = (fold f xs a0, fold g xs b0)"
  by (induction xs arbitrary: a0 b0) simp_all

lemma fold_pair_fun:
  "fold (\<lambda>x (a, b). (f x a, g x b)) xs = (\<lambda>(a, b). (fold f xs a, fold g xs b))"
  by (auto simp: fun_eq_iff fold_pair)

lemma flip_templates_eq:
  "flip_templates templates template_len n_templates fft_len template_ext =
     (fold (\<lambda>t. fold (\<lambda>i te. te(t * fft_len + i := templates ((t + 1) * template_len - (i + 1))))
              [0..<template_len]) [0..<n_templates] template_ext,
      fold (\<lambda>t. fold (\<lambda>i ns. ns(t := fadd (ns t) (templates (t * template_len + i))))
              [0..<template_len]) [0..<n_templates] (\<lambda>_. Fin 0))"
  unfolding flip_templates_def fold_pair_fun by simp

lemma acc_fold:
  "fold (\<lambda>i ns. ns(t := fadd (ns t) (c i))) [0..<L] (ns::fbuf) =
     ns(t := fold (\<lambda>i s. fadd s (c i)) [0..<L] (ns t))"
proof -
  define F where "F = (\<lambda>i (ns::fbuf). ns(t := fadd (ns t) (c i)))"
  have "fold F [0..<L] ns = ns(t := fold (\<lambda>i s. fadd s (c i)) [0..<L] (ns t))"
  proof (induction L)
    case 0
    show ?case by simp
  next
    case (Suc L)
    have "fold F [0..<Suc L] ns = F L (fold F [0..<L] ns)" by simp
    also have "\<dots> = F L (ns(t := fold (\<lambda>i s. fadd s (c i)) [0..<L] (ns t)))"
      unfolding Suc ..
    also have "\<dots> = ns(t := fold (\<lambda>i s. fadd s (c i)) [0..<Suc L] (ns t))"
      by (simp add: F_def)
    finally show ?case .
  qed
  then show ?thesis by (simp add: F_def)
qed

lemma acc_rows_fold:
  "fold (\<lambda>t (ns::fbuf). ns(t := S t (ns t))) [0..<n] ns0 t' =
     (if t' < n then S t' (ns0 t') else ns0 t')"
proof -
  define F where "F = (\<lambda>t (ns::fbuf). ns(t := S t (ns t)))"
  have Fapp: "F t g a = (if a = t then S t (g t) else g a)" for t g a
    by (simp add: F_def)
  have "fold F [0..<n] ns0 t' = (if t' < n then S t' (ns0 t') else ns0 t')"
  proof (induction n)
    case 0
    show ?case by simp
  next
    case (Suc n)
    have "fold F [0..<Suc n] ns0 t' = F n (fold F [0..<n] ns0) t'" by simp
    also have "\<dots> = (if t' = n then S n (fold F [0..<n] ns0 n) else fold F [0..<n] ns0 t')"
      by (rule Fapp)
    also have "fold F [0..<n] ns0 n = ns0 n"
    proof -
      have "fold F [0..<m] ns0 n = ns0 n" if "m \<le> n" for m
        using that by (induction m) (simp_all add: Fapp)
      then show ?thesis by simp
    qed
    also have "(if t' = n then S n (ns0 n) else fold F [0..<n] ns0 t') =
        (if t' < Suc n then S t' (ns0 t') else ns0 t')"
      unfolding Suc by (auto simp: less_Suc_eq)
    finally show ?case .
  qed
  then show ?thesis by (simp add: F_def)
qed

lemma flip_ext_at:
  assumes "template_len \<le> fft_len"
  shows "fst (flip_templates templates template_len n_templates fft_len template_ext) a =
     (if a div fft_len < n_templates \<and> a mod fft_len < template_len
      then templates ((a div fft_len + 1) * template_len - (a mod fft_len + 1))
      else template_ext a)"
  unfolding flip_templates_eq fst_conv by (rule nested_store_fold [OF assms])

lemma flip_sums_at:
  assumes "\<And>i. i < n_templates * template_len \<Longrightarrow> is_fin (templates i)" "t < n_templates"
  shows "snd (flip_templates templates template_len n_templates fft_len template_ext) t =
         Fin (tsum (\<lambda>i. val (templates i)) template_len t)"
proof -
  have fin: "templates (t * template_len + i) = Fin (val (templates (t * template_len + i)))"
    if "i < template_len" for i
  proof -
    have "t * template_len + i < n_templates * template_len"
      using trace_below [OF assms(2), of 0 template_len] that by simp
    then show ?thesis using assms(1) by (simp add: is_fin_conv)
  qed
  have "fold (\<lambda>i s. fadd s (templates (t * template_len + i))) [0..<template_len] (Fin 0) =
      Fin (0 + (\<Sum>i<template_len. val (templates (t * template_len + i))))"
    by (rule fold_fadd_Fin) (rule fin)
  then show ?thesis
    unfolding flip_templates_eq snd_conv acc_fold
    using assms(2)
      acc_rows_fold [where S = "\<lambda>t v. fold (\<lambda>i s. fadd s (templates (t * template_len + i)))
          [0..<template_len] v" and n = n_templates and ?ns0.0 = "\<lambda>_. Fin 0" and t' = t]
    by (simp add: tsum_def)
qed

lemma copy_image_at:
  "copy_image img image_len image_ext a = (if a < image_len then img a else image_ext a)"
  using row_store_fold [of 0 img image_len image_ext a] by (simp add: copy_image_def)

lemma dot_product_at:
  "dot_product n_templates N2 outa outb out a =
     (if a div N2 < n_templates \<and> a mod N2 < N2
      then (fsub (fmul (fst (outa (a div N2 * N2 + a mod N2))) (fst (outb (a mod N2))))
                 (fmul (snd (outa (a div N2 * N2 + a mod N2))) (snd (outb (a mod N2)))),
            fadd (fmul (fst (outa (a div N2 * N2 + a mod N2))) (snd (outb (a mod N2))))
                 (fmul (snd (outa (a div N2 * N2 + a mod N2))) (fst (outb (a mod N2)))))
      else out a)"
  unfolding dot_product_def
  using nested_store_fold [of N2 N2 "\<lambda>t i. (fsub (fmul (fst (outa (t * N2 + i))) (fst (outb i)))
                      (fmul (snd (outa (t * N2 + i))) (snd (outb i))),
                 fadd (fmul (fst (outa (t * N2 + i))) (snd (outb i)))
                      (fmul (snd (outa (t * N2 + i))) (fst (outb i))))" n_templates out a]
  by simp

lemma cfp_mult:
  "(fsub (fmul (fst (cfp A)) (fst (cfp B))) (fmul (snd (cfp A)) (snd (cfp B))),
    fadd (fmul (fst (cfp A)) (snd (cfp B))) (fmul (snd (cfp A)) (fst (cfp B)))) = cfp (A * B)"
  by (simp add: cfp_def)

lemma cval_cfp [simp]: "cval (cfp z) = z"
  by (simp add: cval_def cfp_def)

lemma cfp_fin [simp]: "is_fin (fst (cfp z))" "is_fin (snd (cfp z))"
  by (simp_all add: cfp_def)


lemma valid_sum:
  assumes "0 < L" "L \<le> Li" "Li \<le> F" "i < Li + 1 - L"
    and X: "\<And>p. p < F \<Longrightarrow> X (t * F + p) = (if p < L then T ((t + 1) * L - (p + 1)) else 0)"
    and Y: "\<And>q. q < F \<Longrightarrow> Y q = (if q < Li then x q else 0)"
  shows "(\<Sum>p<F. X (t * F + p) * Y ((i + (L - 1) + F - p) mod F)) =
         (\<Sum>q<L. T (t * L + q) * x (i + q :: nat) :: real)"
proof -
  have "(\<Sum>p<F. X (t * F + p) * Y ((i + (L - 1) + F - p) mod F)) =
        (\<Sum>p<L. X (t * F + p) * Y ((i + (L - 1) + F - p) mod F))"
    by (rule sum.mono_neutral_right) (use assms(2,3) X in auto)
  also have "\<dots> = (\<Sum>p<L. T (t * L + (L - Suc p)) * x (i + (L - Suc p)))"
  proof (rule sum.cong [OF refl])
    fix p assume "p \<in> {..<L}"
    then have p: "p < L" by simp
    then have pF: "p < F" using assms(2,3) by simp
    have e1: "(t + 1) * L - (p + 1) = t * L + (L - Suc p)" using p by (simp add: algebra_simps)
    have "i + (L - 1) + F - p = F + (i + (L - Suc p))" using p by simp
    moreover have lt: "i + (L - Suc p) < Li" using p assms(4) by simp
    ultimately have e2: "(i + (L - 1) + F - p) mod F = i + (L - Suc p)"
      using assms(3) by simp
    have ltF: "i + (L - Suc p) < F" using lt assms(3) by simp
    have Xp: "X (t * F + p) = T (t * L + (L - Suc p))"
      by (simp only: X [OF pF] p if_True e1)
    have Yp: "Y (i + (L - Suc p)) = x (i + (L - Suc p))"
      by (simp only: Y [OF ltF] lt if_True)
    show "X (t * F + p) * Y ((i + (L - 1) + F - p) mod F) =
        T (t * L + (L - Suc p)) * x (i + (L - Suc p))"
      unfolding e2 Xp Yp ..
  qed
  also have "\<dots> = (\<Sum>q<L. T (t * L + q) * x (i + q))"
    by (rule sum.nat_diff_reindex)
  finally show ?thesis .
qed


lemma div_mod_index:
  assumes "b < (N::nat)"
  shows "(a * N + b) div N = a" "(a * N + b) mod N = b"
  using assms by simp_all

lemma kernel_ccc_value:
  assumes ft: "\<And>i. i < n_templates * template_len \<Longrightarrow> is_fin (templates i)"
    and fi: "\<And>i. i < image_len \<Longrightarrow> is_fin (img i)"
    and L: "0 < template_len" "template_len \<le> image_len" "image_len \<le> fft_len"
    and zt: "\<And>i. i < n_templates * fft_len \<Longrightarrow> template_ext i = Fin 0"
    and zi: "\<And>i. i < fft_len \<Longrightarrow> image_ext i = Fin 0"
    and t: "t < n_templates" and i: "i < image_len + 1 - template_len"
  shows "kernel_ccc templates template_len n_templates img image_len fft_len
           template_ext image_ext ccc outa outb out
           (Plan_r2c_2d n_templates fft_len) (Plan_r2c_1d fft_len)
           (Plan_c2r_2d n_templates fft_len) (t * fft_len + i + (template_len - 1)) =
         Fin (real (fft_len * n_templates)
              * xcorr (\<lambda>i. val (templates i)) (\<lambda>i. val (img i)) template_len t i)"
proof -
  define N2 where "N2 = fft_len div 2 + 1"
  define te where "te = fst (flip_templates templates template_len n_templates fft_len template_ext)"
  define ie where "ie = copy_image img image_len image_ext"
  define oa where "oa = fftw_execute_dft_r2c (Plan_r2c_2d n_templates fft_len) te outa"
  define ob where "ob = fftw_execute_dft_r2c (Plan_r2c_1d fft_len) ie outb"
  define ou where "ou = dot_product n_templates N2 oa ob out"
  define X where "X = (\<lambda>a. val (te a))"
  define Y where "Y = (\<lambda>q. val (ie q))"
  have F: "0 < fft_len" "template_len \<le> fft_len" using L by simp_all
  have n: "0 < n_templates" using t by simp
  have N2: "0 < N2" by (simp add: N2_def)
  have te_at: "te a = (if a div fft_len < n_templates \<and> a mod fft_len < template_len
      then templates ((a div fft_len + 1) * template_len - (a mod fft_len + 1))
      else template_ext a)" for a
    unfolding te_def by (rule flip_ext_at [OF F(2)])
  have te_fin: "is_fin (te a)" if "a < n_templates * fft_len" for a
  proof (cases "a div fft_len < n_templates \<and> a mod fft_len < template_len")
    case True
    have "(a div fft_len + 1) * template_len \<le> n_templates * template_len"
      using True by (intro mult_le_mono1) simp
    then have idx: "(a div fft_len + 1) * template_len - (a mod fft_len + 1) < n_templates * template_len"
      using L(1) by simp
    have "te a = templates ((a div fft_len + 1) * template_len - (a mod fft_len + 1))"
      using True by (simp only: te_at simp_thms if_True)
    then show ?thesis using ft [OF idx] by simp
  next
    case False
    then have "te a = template_ext a" by (simp only: te_at if_False)
    then show ?thesis using zt [OF that] by simp
  qed
  have X_at: "X (t' * fft_len + p) =
      (if p < template_len then val (templates ((t' + 1) * template_len - (p + 1))) else 0)"
    if "p < fft_len" "t' < n_templates" for t' p
  proof -
    have lt: "t' * fft_len + p < n_templates * fft_len"
      using trace_below [OF that(2), of 0 fft_len] that(1) by simp
    show ?thesis
      unfolding X_def te_at div_mod_index [OF that(1)]
      using that(2) zt [OF lt] by simp
  qed
  have ie_at: "ie a = (if a < image_len then img a else image_ext a)" for a
    unfolding ie_def by (rule copy_image_at)
  have ie_fin: "is_fin (ie a)" if "a < fft_len" for a
    using fi [of a] zi [OF that] by (simp add: ie_at)
  have Y_at: "Y q = (if q < image_len then val (img q) else 0)" if "q < fft_len" for q
    using zi [OF that] by (simp add: Y_def ie_at)
  have oa_at: "oa (a * N2 + b) = cfp (dft_r2c_2d n_templates fft_len X a b)"
    if "a < n_templates" "b < N2" for a b
  proof -
    have lt: "a * N2 + b < n_templates * N2"
      using trace_below [OF that(1), of 0 N2] that(2) by simp
    have fin: "fin_upto (n_templates * fft_len) te"
      using te_fin by (simp add: fin_upto_def)
    show ?thesis
      unfolding oa_def fftw_execute_dft_r2c_def fftw_plan.case N2_def [symmetric]
      using lt fin that(2) by (simp add: div_mod_index [OF that(2)] X_def)
  qed
  have ob_at: "ob b = cfp (dft_r2c_1d fft_len Y b)" if "b < N2" for b
  proof -
    have fin: "fin_upto fft_len ie" using ie_fin by (simp add: fin_upto_def)
    show ?thesis
      unfolding ob_def fftw_execute_dft_r2c_def fftw_plan.case N2_def [symmetric]
      using that fin by (simp add: Y_def)
  qed
  have ou_at: "ou (a * N2 + b) =
      cfp (dft_r2c_2d n_templates fft_len X a b * dft_r2c_1d fft_len Y b)"
    if "a < n_templates" "b < N2" for a b
    unfolding ou_def dot_product_at div_mod_index [OF that(2)]
    using that by (simp only: oa_at ob_at cfp_mult) simp
  have ou_fin: "cfin_upto (n_templates * N2) ou"
    unfolding cfin_upto_def
  proof (intro allI impI)
    fix idx assume "idx < n_templates * N2"
    then have a: "idx div N2 < n_templates"
      using N2 by (simp add: less_mult_imp_div_less)
    have b: "idx mod N2 < N2" using N2 by simp
    have "idx = idx div N2 * N2 + idx mod N2" by simp
    then have "ou idx = cfp (dft_r2c_2d n_templates fft_len X (idx div N2) (idx mod N2)
        * dft_r2c_1d fft_len Y (idx mod N2))"
      using ou_at [OF a b] by simp
    then show "is_fin (fst (ou idx)) \<and> is_fin (snd (ou idx))" by simp
  qed
  have P: "cval (ou (a * (fft_len div 2 + 1) + b)) =
      dft_r2c_2d n_templates fft_len X a b * dft_r2c_1d fft_len Y b"
    if "a < n_templates" "b \<le> fft_len div 2" for a b
    using ou_at [of a b] that by (simp add: N2_def)
  define m where "m = i + (template_len - 1)"
  have m: "m < fft_len" using i L by (simp add: m_def)
  have lt: "t * fft_len + m < n_templates * fft_len"
    using trace_below [OF t, of 0 fft_len] m by simp
  have "kernel_ccc templates template_len n_templates img image_len fft_len
           template_ext image_ext ccc outa outb out
           (Plan_r2c_2d n_templates fft_len) (Plan_r2c_1d fft_len)
           (Plan_c2r_2d n_templates fft_len) (t * fft_len + m) =
      Fin (dft_c2r_2d n_templates fft_len (\<lambda>i. cval (ou i)) t m)"
    unfolding kernel_ccc_def te_def [symmetric] ie_def [symmetric] oa_def [symmetric]
      ob_def [symmetric] N2_def [symmetric] ou_def [symmetric]
      fftw_execute_dft_c2r_def fftw_plan.case
    using lt ou_fin m by (simp add: div_mod_index [OF m] N2_def)
  also have "dft_c2r_2d n_templates fft_len (\<lambda>i. cval (ou i)) t m =
      real (n_templates * fft_len) * (\<Sum>p<fft_len. X (t * fft_len + p) * Y ((m + fft_len - p) mod fft_len))"
    by (rule fftw_pipeline [OF n F(1) t m]) (rule P)
  also have "(\<Sum>p<fft_len. X (t * fft_len + p) * Y ((m + fft_len - p) mod fft_len)) =
      (\<Sum>q<template_len. val (templates (t * template_len + q)) * val (img (i + q)))"
    unfolding m_def
    by (rule valid_sum [OF L i]) (simp_all add: X_at [OF _ t] Y_at)
  finally show ?thesis
    by (simp add: m_def xcorr_def add.assoc mult.commute)
qed

section \<open>The value the kernel stores\<close>

lemma kernel_value:
  assumes ft: "\<And>i. i < n_templates * template_len \<Longrightarrow> is_fin (templates i)"
    and fi: "\<And>i. i < image_len \<Longrightarrow> is_fin (img i)"
    and L: "0 < template_len" "template_len \<le> image_len" "image_len \<le> fft_len"
    and zt: "\<And>i. i < n_templates * fft_len \<Longrightarrow> template_ext i = Fin 0"
    and zi: "\<And>i. i < fft_len \<Longrightarrow> image_ext i = Fin 0"
    and k: "k < n_templates" and j: "j < image_len + 1 - template_len"
  shows "snd (normxcorr_fftw_main templates template_len n_templates img image_len ncc fft_len
            template_ext image_ext ccc outa outb out
            (Plan_r2c_2d n_templates fft_len) (Plan_r2c_1d fft_len)
            (Plan_c2r_2d n_templates fft_len))
           (k * (image_len + 1 - template_len) + j) =
     (if (if j = 0 then wvar (\<lambda>i. val (img i)) template_len j < 1 / 10000000
          else \<not> 1 / 10000000 < wvar (\<lambda>i. val (img i)) template_len j)
      then Fin 0
      else Fin ((xcorr (\<lambda>i. val (templates i)) (\<lambda>i. val (img i)) template_len k j
                 - tsum (\<lambda>i. val (templates i)) template_len k
                   * wmean (\<lambda>i. val (img i)) template_len j)
                / sqrt (wvar (\<lambda>i. val (img i)) template_len j)))"
proof -
  let ?v = "wvar (\<lambda>i. val (img i)) template_len j"
  let ?m = "wmean (\<lambda>i. val (img i)) template_len j"
  have fin: "is_fin (img i)" if "i < j + template_len" for i
    using that j by (intro fi) simp
  have rm: "run_moments img template_len j = (Fin ?m, Fin ?v)"
    using run_moments_exact [of j template_len img] fin L(1) by simp
  have nz: "real (fft_len * n_templates) \<noteq> 0" using L k by simp
  have cv: "corr_value
      (kernel_ccc templates template_len n_templates img image_len fft_len
                template_ext image_ext ccc outa outb out
                (Plan_r2c_2d n_templates fft_len) (Plan_r2c_1d fft_len)
                (Plan_c2r_2d n_templates fft_len))
      (snd (flip_templates templates template_len n_templates fft_len template_ext))
      fft_len n_templates (template_len - 1) (Fin ?m) (fsqrt (Fin ?v)) k j =
    Fin ((xcorr (\<lambda>i. val (templates i)) (\<lambda>i. val (img i)) template_len k j
                 - tsum (\<lambda>i. val (templates i)) template_len k * ?m) / sqrt ?v)"
    if pos: "0 < ?v"
  proof -
    have s: "fsqrt (Fin ?v) = Fin (sqrt ?v)" using pos by simp
    have sn: "sqrt ?v \<noteq> 0" using pos by simp
    have c: "kernel_ccc templates template_len n_templates img image_len fft_len
                template_ext image_ext ccc outa outb out
                (Plan_r2c_2d n_templates fft_len) (Plan_r2c_1d fft_len)
                (Plan_c2r_2d n_templates fft_len) (k * fft_len + j + (template_len - 1)) =
         Fin (real (fft_len * n_templates)
              * xcorr (\<lambda>i. val (templates i)) (\<lambda>i. val (img i)) template_len k j)"
      by (rule kernel_ccc_value [OF ft fi L zt zi k j])
    have n: "snd (flip_templates templates template_len n_templates fft_len template_ext) k =
         Fin (tsum (\<lambda>i. val (templates i)) template_len k)"
      by (rule flip_sums_at [OF ft k])
    show ?thesis
      unfolding corr_value_def s c n
      using nz sn by simp
  qed
  have lt: "flt (Fin ?v) acceptedDiff = (?v < 1 / 10000000)"
    by (simp add: acceptedDiff_def)
  have gt: "fgt (Fin ?v) acceptedDiff = (1 / 10000000 < ?v)"
    by (simp add: acceptedDiff_def fgt_def)
  show ?thesis
  proof (cases "j = 0")
    case True
    show ?thesis
    proof (cases "?v < 1 / 10000000")
      case small: True
      show ?thesis
        unfolding kernel_cells_at [OF L(2) j k] kernel_cell_def rm prod.case Let_def lt
        using True small by simp
    next
      case large: False
      then have pos: "0 < ?v" by simp
      show ?thesis
        unfolding kernel_cells_at [OF L(2) j k] kernel_cell_def rm prod.case Let_def lt
        using True large cv [OF pos] by (simp only: if_True if_False simp_thms)
    qed
  next
    case False
    show ?thesis
    proof (cases "1 / 10000000 < ?v")
      case large: True
      then have pos: "0 < ?v" by simp
      show ?thesis
        unfolding kernel_cells_at [OF L(2) j k] kernel_cell_def rm prod.case Let_def gt
        using False large cv [OF pos] by (simp only: if_True if_False simp_thms)
    next
      case small: False
      show ?thesis
        unfolding kernel_cells_at [OF L(2) j k] kernel_cell_def rm prod.case Let_def gt
        using False small by simp
    qed
  qed
qed

lemma centred_sum:
  "(\<Sum>p<L. T (k * L + p) * (x (j + p) - m)) = xcorr T x L k j - tsum T L k * (m::real)"
  by (simp add: xcorr_def tsum_def right_diff_distrib sum_subtractf sum_distrib_right)

text \<open>
  C1 claims that, for zero-mean templates and a window variance of at least \<open>10\<^sup>-\<^sup>7\<close>, the
  kernel's output in exact arithmetic is the centred correlation sum divided by
  \<open>\<sigma>\<^sub>j * ||t[k]||\<close>. The kernel never divides by the norm of the template: for the
  zero-mean template \<open>[1, -1]\<close> (norm \<open>\<surd>2\<close>) on the image \<open>[0, 1]\<close> it stores \<open>-2\<close>, not
  \<open>-\<surd>2\<close>.
\<close>

theorem ncc_value_counterexample:
  "tsum (\<lambda>i. val (if i = 0 then Fin 1 else Fin (- 1))) 2 0 = 0
   \<and> 1 / 10000000 \<le> wvar (\<lambda>i. val (Fin (real i))) 2 0
   \<and> (1::nat) \<le> 2 \<and> (2::nat) \<le> 2 \<and> (2::nat) + 2 - 1 \<le> 4
   \<and> snd (normxcorr_fftw_main (\<lambda>i. if i = 0 then Fin 1 else Fin (- 1)) 2 1
             (\<lambda>i. Fin (real i)) 2 (\<lambda>_. Fin 0) 4 (\<lambda>_. Fin 0) (\<lambda>_. Fin 0) (\<lambda>_. Fin 0)
             (\<lambda>_. (Fin 0, Fin 0)) (\<lambda>_. (Fin 0, Fin 0)) (\<lambda>_. (Fin 0, Fin 0))
             (Plan_r2c_2d 1 4) (Plan_r2c_1d 4) (Plan_c2r_2d 1 4)) (0 * (2 + 1 - 2) + 0)
       \<noteq> Fin ((\<Sum>p<2. val (if 0 * 2 + p = 0 then Fin 1 else Fin (- 1))
                       * (val (Fin (real (0 + p))) - wmean (\<lambda>i. val (Fin (real i))) 2 0))
              / (sqrt (wvar (\<lambda>i. val (Fin (real i))) 2 0)
                 * tnorm (\<lambda>i. val (if i = 0 then Fin 1 else Fin (- 1))) 2 0))"
proof -
  have m: "wmean (\<lambda>i. val (Fin (real i))) 2 0 = 1 / 2"
    by (simp add: wmean_def numeral_2_eq_2)
  have v: "wvar (\<lambda>i. val (Fin (real i))) 2 0 = 1 / 4"
    by (simp add: wvar_def wmean_def numeral_2_eq_2 power2_eq_square)
  have s: "sqrt (1 / 4) = 1 / 2"
    by (simp add: real_sqrt_divide)
  have ts: "tsum (\<lambda>i. val (if i = 0 then Fin 1 else Fin (- 1))) 2 0 = 0"
    by (simp add: tsum_def numeral_2_eq_2)
  have xc: "xcorr (\<lambda>i. val (if i = 0 then Fin 1 else Fin (- 1))) (\<lambda>i. val (Fin (real i))) 2 0 0 = - 1"
    by (simp add: xcorr_def numeral_2_eq_2)
  have tn: "tnorm (\<lambda>i. val (if i = 0 then Fin 1 else Fin (- 1))) 2 0 = sqrt 2"
    by (simp add: tnorm_def numeral_2_eq_2)
  have kv: "snd (normxcorr_fftw_main (\<lambda>i. if i = 0 then Fin 1 else Fin (- 1)) 2 1
             (\<lambda>i. Fin (real i)) 2 (\<lambda>_. Fin 0) 4 (\<lambda>_. Fin 0) (\<lambda>_. Fin 0) (\<lambda>_. Fin 0)
             (\<lambda>_. (Fin 0, Fin 0)) (\<lambda>_. (Fin 0, Fin 0)) (\<lambda>_. (Fin 0, Fin 0))
             (Plan_r2c_2d 1 4) (Plan_r2c_1d 4) (Plan_c2r_2d 1 4)) (0 * (2 + 1 - 2) + 0) =
     (if (if (0::nat) = 0 then wvar (\<lambda>i. val (Fin (real i))) 2 0 < 1 / 10000000
          else \<not> 1 / 10000000 < wvar (\<lambda>i. val (Fin (real i))) 2 0)
      then Fin 0
      else Fin ((xcorr (\<lambda>i. val (if i = 0 then Fin 1 else Fin (- 1))) (\<lambda>i. val (Fin (real i))) 2 0 0
                 - tsum (\<lambda>i. val (if i = 0 then Fin 1 else Fin (- 1))) 2 0
                   * wmean (\<lambda>i. val (Fin (real i))) 2 0)
                / sqrt (wvar (\<lambda>i. val (Fin (real i))) 2 0)))"
    by (rule kernel_value) simp_all
  have k: "snd (normxcorr_fftw_main (\<lambda>i. if i = 0 then Fin 1 else Fin (- 1)) 2 1
             (\<lambda>i. Fin (real i)) 2 (\<lambda>_. Fin 0) 4 (\<lambda>_. Fin 0) (\<lambda>_. Fin 0) (\<lambda>_. Fin 0)
             (\<lambda>_. (Fin 0, Fin 0)) (\<lambda>_. (Fin 0, Fin 0)) (\<lambda>_. (Fin 0, Fin 0))
             (Plan_r2c_2d 1 4) (Plan_r2c_1d 4) (Plan_c2r_2d 1 4)) (0 * (2 + 1 - 2) + 0) = Fin (- 2)"
    unfolding kv v m ts xc s by simp
  have num: "(\<Sum>p<2. val (if 0 * 2 + p = 0 then Fin 1 else Fin (- 1))
                       * (val (Fin (real (0 + p))) - wmean (\<lambda>i. val (Fin (real i))) 2 0)) = - 1"
    by (simp add: wmean_def numeral_2_eq_2)
  have ne: "(- 2::real) \<noteq> - 1 / (1 / 2 * sqrt 2)"
  proof
    assume "(- 2::real) = - 1 / (1 / 2 * sqrt 2)"
    then have "sqrt 2 = 1" by (simp add: field_simps)
    then show False by simp
  qed
  show ?thesis
    unfolding k num v s tn ts using ne by simp
qed


text \<open>
  C1, amended. On finite samples, with \<open>1 \<le> template_len \<le> image_len \<le> fft_len\<close>, zeroed
  \<^verbatim>\<open>template_ext\<close> and \<^verbatim>\<open>image_ext\<close> and the plans that the callers create, the kernel stores
  for template \<open>k\<close> at every column \<open>j\<close> whose window variance exceeds \<open>10\<^sup>-\<^sup>7\<close> the value
  \<open>(\<Sum>p. t[k][p] * (x[j+p] - \<mu>\<^sub>j)) / \<sigma>\<^sub>j\<close> (exact arithmetic), with the window mean and
  the biased window variance; the mean of the template does not matter.
\<close>

theorem ncc_value:
  assumes "\<forall>i<n_templates * template_len. is_fin (templates i)"
    and "\<forall>i<image_len. is_fin (img i)"
    and "0 < template_len" and "template_len \<le> image_len" and "image_len \<le> fft_len"
    and "\<forall>i<n_templates * fft_len. template_ext i = Fin 0"
    and "\<forall>i<fft_len. image_ext i = Fin 0"
    and "k < n_templates" and "j < image_len + 1 - template_len"
    and "1 / 10000000 < wvar (\<lambda>i. val (img i)) template_len j"
  shows "snd (normxcorr_fftw_main templates template_len n_templates img image_len ncc fft_len
            template_ext image_ext ccc outa outb out
            (Plan_r2c_2d n_templates fft_len) (Plan_r2c_1d fft_len)
            (Plan_c2r_2d n_templates fft_len))
           (k * (image_len + 1 - template_len) + j) =
         Fin ((\<Sum>p<template_len. val (templates (k * template_len + p))
                   * (val (img (j + p)) - wmean (\<lambda>i. val (img i)) template_len j))
              / sqrt (wvar (\<lambda>i. val (img i)) template_len j))"
proof -
  have "snd (normxcorr_fftw_main templates template_len n_templates img image_len ncc fft_len
            template_ext image_ext ccc outa outb out
            (Plan_r2c_2d n_templates fft_len) (Plan_r2c_1d fft_len)
            (Plan_c2r_2d n_templates fft_len))
           (k * (image_len + 1 - template_len) + j) =
     (if (if j = 0 then wvar (\<lambda>i. val (img i)) template_len j < 1 / 10000000
          else \<not> 1 / 10000000 < wvar (\<lambda>i. val (img i)) template_len j)
      then Fin 0
      else Fin ((xcorr (\<lambda>i. val (templates i)) (\<lambda>i. val (img i)) template_len k j
                 - tsum (\<lambda>i. val (templates i)) template_len k
                   * wmean (\<lambda>i. val (img i)) template_len j)
                / sqrt (wvar (\<lambda>i. val (img i)) template_len j)))"
    by (rule kernel_value) (use assms in auto)
  also have "\<dots> = Fin ((xcorr (\<lambda>i. val (templates i)) (\<lambda>i. val (img i)) template_len k j
                 - tsum (\<lambda>i. val (templates i)) template_len k
                   * wmean (\<lambda>i. val (img i)) template_len j)
                / sqrt (wvar (\<lambda>i. val (img i)) template_len j))"
    using assms(10) by (cases "j = 0") auto
  finally show ?thesis
    using centred_sum [where T = "\<lambda>i. val (templates i)" and k = k and L = template_len
        and x = "\<lambda>i. val (img i)" and j = j and m = "wmean (\<lambda>i. val (img i)) template_len j"]
    by simp
qed

theorem ncc_value_witness:
  "(0::nat) < 2 \<and> (2::nat) \<le> 3 \<and> (3::nat) \<le> 4 \<and> (0::nat) < 1 \<and> (1::nat) < 3 + 1 - 2
   \<and> 1 / 10000000 < wvar (\<lambda>i. val (Fin (real (i * i)))) 2 1
   \<and> snd (normxcorr_fftw_main (\<lambda>i. if i = 0 then Fin 1 else Fin (- 1)) 2 1
             (\<lambda>i. Fin (real (i * i))) 3 (\<lambda>_. NaN) 4 (\<lambda>_. Fin 0) (\<lambda>_. Fin 0) (\<lambda>_. NaN)
             (\<lambda>_. (NaN, NaN)) (\<lambda>_. (NaN, NaN)) (\<lambda>_. (NaN, NaN))
             (Plan_r2c_2d 1 4) (Plan_r2c_1d 4) (Plan_c2r_2d 1 4)) (0 * (3 + 1 - 2) + 1)
       = Fin (- 2)"
proof -
  have m: "wmean (\<lambda>i. val (Fin (real (i * i)))) 2 1 = 5 / 2"
    by (simp add: wmean_def numeral_2_eq_2)
  have v: "wvar (\<lambda>i. val (Fin (real (i * i)))) 2 1 = 9 / 4"
    by (simp add: wvar_def wmean_def numeral_2_eq_2 power2_eq_square)
  have s: "sqrt (9 / 4) = 3 / 2"
    using real_sqrt_abs2 [of "3 / 2"] by (simp add: power2_eq_square)
  have big: "1 / 10000000 < wvar (\<lambda>i. val (Fin (real (i * i)))) 2 1"
    unfolding v by simp
  have num: "(\<Sum>p<2. val (if 0 * 2 + p = 0 then Fin 1 else Fin (- 1))
       * (val (Fin (real ((1 + p) * (1 + p)))) - 5 / 2)) = - 3"
    by (simp add: numeral_2_eq_2)
  have "snd (normxcorr_fftw_main (\<lambda>i. if i = 0 then Fin 1 else Fin (- 1)) 2 1
             (\<lambda>i. Fin (real (i * i))) 3 (\<lambda>_. NaN) 4 (\<lambda>_. Fin 0) (\<lambda>_. Fin 0) (\<lambda>_. NaN)
             (\<lambda>_. (NaN, NaN)) (\<lambda>_. (NaN, NaN)) (\<lambda>_. (NaN, NaN))
             (Plan_r2c_2d 1 4) (Plan_r2c_1d 4) (Plan_c2r_2d 1 4)) (0 * (3 + 1 - 2) + 1)
       = Fin ((\<Sum>p<2. val (if 0 * 2 + p = 0 then Fin 1 else Fin (- 1))
                   * (val (Fin (real ((1 + p) * (1 + p))))
                      - wmean (\<lambda>i. val (Fin (real (i * i)))) 2 1))
              / sqrt (wvar (\<lambda>i. val (Fin (real (i * i)))) 2 1))"
    by (rule ncc_value) (use big in simp_all)
  then have "snd (normxcorr_fftw_main (\<lambda>i. if i = 0 then Fin 1 else Fin (- 1)) 2 1
             (\<lambda>i. Fin (real (i * i))) 3 (\<lambda>_. NaN) 4 (\<lambda>_. Fin 0) (\<lambda>_. Fin 0) (\<lambda>_. NaN)
             (\<lambda>_. (NaN, NaN)) (\<lambda>_. (NaN, NaN)) (\<lambda>_. (NaN, NaN))
             (Plan_r2c_2d 1 4) (Plan_r2c_1d 4) (Plan_c2r_2d 1 4)) (0 * (3 + 1 - 2) + 1)
       = Fin (- 2)"
    unfolding m v s num by simp
  with big show ?thesis by simp
qed

section \<open>Allocation and release\<close>

text \<open>
  \<^verbatim>\<open>free_fftw_arrays\<close> releases every block that the tables name, so every return of the
  routine leaves an empty heap; and the first failing request decides the early return.
\<close>

lemma free_outer_fold:
  "fold (\<lambda>a. free (outer a)) [0..<n] h = h - {b. \<exists>a<n. outer a = Some b}"
proof (induction n)
  case 0
  show ?case by simp
next
  case (Suc n)
  have s: "{b. \<exists>a<Suc n. outer a = Some b} = {b. \<exists>a<n. outer a = Some b} \<union> {b. outer n = Some b}"
    by (auto simp: less_Suc_eq)
  have "fold (\<lambda>a. free (outer a)) [0..<Suc n] h =
        free (outer n) (fold (\<lambda>a. free (outer a)) [0..<n] h)"
    by simp
  also have "\<dots> = free (outer n) (h - {b. \<exists>a<n. outer a = Some b})"
    by (simp only: Suc)
  also have "\<dots> = h - {b. \<exists>a<Suc n. outer a = Some b}"
    unfolding s by (cases "outer n") (auto simp: free_def)
  finally show ?case .
qed

lemma fold_minus:
  "fold (\<lambda>i h. h - S i) [0..<n] h = h - {b. \<exists>i<n. b \<in> S i}"
  by (induction n) (auto simp: less_Suc_eq)

lemma free_inner_fold:
  "fold (\<lambda>i. fold (\<lambda>a. free (inner a i)) [0..<6]) [0..<sz] h =
     h - {b. \<exists>i<sz. \<exists>a<6. inner a i = Some b}"
proof -
  have "(\<lambda>i. fold (\<lambda>a. free (inner a i)) [0..<6]) =
        (\<lambda>i h. h - {b. \<exists>a<6. inner a i = Some b})"
    by (intro ext) (rule free_outer_fold)
  then show ?thesis
    by (simp only: fold_minus) simp
qed

lemma free_fftw_arrays_eq:
  "free_fftw_arrays sz outer inner h =
     h - {b. \<exists>i<sz. \<exists>a<6. inner a i = Some b} - {b. \<exists>a<6. outer a = Some b}"
  by (simp add: free_fftw_arrays_def Let_def free_inner_fold free_outer_fold)

lemma free_fftw_arrays_empty:
  assumes "tracked sz outer inner h"
  shows "free_fftw_arrays sz outer inner h = {}"
  using assms unfolding free_fftw_arrays_eq tracked_def by blast


lemma alloc_outer_fail:
  assumes "set as \<subseteq> {..<6}" "tracked 0 outer inner h" "\<exists>a\<in>set as. fails a"
  shows "alloc_outer fails as outer h = Inl {}"
  using assms
proof (induction as arbitrary: outer h)
  case Nil
  then show ?case by simp
next
  case (Cons a as)
  show ?case
  proof (cases "fails a")
    case True
    have "tracked 0 outer (\<lambda>_ _. None) h"
      using Cons.prems(2) by (auto simp: tracked_def)
    then show ?thesis
      using True by (simp add: malloc_def free_fftw_arrays_empty)
  next
    case False
    have t: "tracked 0 (outer(a := Some a)) inner (insert a h)"
      using Cons.prems(1,2) by (auto simp: tracked_def)
    have "alloc_outer fails as (outer(a := Some a)) (insert a h) = Inl {}"
      by (rule Cons.IH [OF _ t]) (use Cons.prems False in auto)
    then show ?thesis
      using False by (simp add: malloc_def)
  qed
qed

lemma alloc_outer_ok:
  assumes "set as \<subseteq> {..<6}" "tracked 0 outer inner h" "\<forall>a\<in>set as. \<not> fails a"
  shows "\<exists>outer' h'. alloc_outer fails as outer h = Inr (outer', h') \<and> tracked 0 outer' inner h'"
  using assms
proof (induction as arbitrary: outer h)
  case Nil
  then show ?case by simp
next
  case (Cons a as)
  have t: "tracked 0 (outer(a := Some a)) inner (insert a h)"
    using Cons.prems(1,2) by (auto simp: tracked_def)
  have "\<exists>outer' h'. alloc_outer fails as (outer(a := Some a)) (insert a h) = Inr (outer', h')
          \<and> tracked 0 outer' inner h'"
    by (rule Cons.IH [OF _ t]) (use Cons.prems in auto)
  then show ?case
    using Cons.prems(3) by (simp add: malloc_def)
qed

lemma tracked_buf:
  assumes "tracked (Suc i) outer inner h" "a < 6"
  shows "tracked (Suc i) outer (inner(a := (inner a)(i := Some (6 + 6 * i + a))))
           (insert (6 + 6 * i + a) h)"
  unfolding tracked_def
proof
  fix b assume b: "b \<in> insert (6 + 6 * i + a) h"
  let ?inner = "inner(a := (inner a)(i := Some (6 + 6 * i + a)))"
  show "(b < 6 \<and> outer b = Some b)
          \<or> (\<exists>i'<Suc i. \<exists>a'<6. b = 6 + 6 * i' + a' \<and> ?inner a' i' = Some b)"
  proof (cases "b = 6 + 6 * i + a")
    case True
    then have "i < Suc i \<and> a < 6 \<and> b = 6 + 6 * i + a \<and> ?inner a i = Some b"
      using assms(2) by simp
    then show ?thesis by blast
  next
    case False
    then have "b \<in> h" using b by simp
    then consider "b < 6 \<and> outer b = Some b"
      | i' a' where "i' < Suc i" "a' < 6" "b = 6 + 6 * i' + a'" "inner a' i' = Some b"
      using assms(1) unfolding tracked_def by blast
    then show ?thesis
    proof cases
      case 1
      then show ?thesis by simp
    next
      case 2
      have "\<not> (a' = a \<and> i' = i)" using False 2(3) by auto
      then have "?inner a' i' = Some b" using 2(4) by auto
      then show ?thesis using 2(1,2,3) by blast
    qed
  qed
qed

lemma alloc_bufs_fail:
  assumes "set as \<subseteq> {..<6}" "tracked (Suc i) outer inner h" "\<exists>a\<in>set as. fails (6 + 6 * i + a)"
  shows "alloc_bufs fails i as outer inner h = Inl {}"
  using assms
proof (induction as arbitrary: inner h)
  case Nil
  then show ?case by simp
next
  case (Cons a as)
  show ?case
  proof (cases "fails (6 + 6 * i + a)")
    case True
    then show ?thesis
      using Cons.prems(2) by (simp add: malloc_def free_fftw_arrays_empty)
  next
    case False
    have t: "tracked (Suc i) outer (inner(a := (inner a)(i := Some (6 + 6 * i + a))))
               (insert (6 + 6 * i + a) h)"
      by (rule tracked_buf) (use Cons.prems in auto)
    have "alloc_bufs fails i as outer (inner(a := (inner a)(i := Some (6 + 6 * i + a))))
            (insert (6 + 6 * i + a) h) = Inl {}"
      by (rule Cons.IH [OF _ t]) (use Cons.prems False in auto)
    then show ?thesis
      using False by (simp add: malloc_def)
  qed
qed

lemma alloc_bufs_ok:
  assumes "set as \<subseteq> {..<6}" "tracked (Suc i) outer inner h"
    "\<forall>a\<in>set as. \<not> fails (6 + 6 * i + a)"
  shows "\<exists>inner' h'. alloc_bufs fails i as outer inner h = Inr (inner', h')
           \<and> tracked (Suc i) outer inner' h'"
  using assms
proof (induction as arbitrary: inner h)
  case Nil
  then show ?case by simp
next
  case (Cons a as)
  have t: "tracked (Suc i) outer (inner(a := (inner a)(i := Some (6 + 6 * i + a))))
             (insert (6 + 6 * i + a) h)"
    by (rule tracked_buf) (use Cons.prems in auto)
  have "\<exists>inner' h'. alloc_bufs fails i as outer (inner(a := (inner a)(i := Some (6 + 6 * i + a))))
            (insert (6 + 6 * i + a) h) = Inr (inner', h') \<and> tracked (Suc i) outer inner' h'"
    by (rule Cons.IH [OF _ t]) (use Cons.prems in auto)
  then show ?case
    using Cons.prems(3) by (simp add: malloc_def)
qed

lemma tracked_reset:
  assumes "tracked i outer inner h"
  shows "tracked (Suc i) outer (\<lambda>a. (inner a)(i := None)) h"
  using assms unfolding tracked_def by (auto simp: less_Suc_eq)


lemma tracked_mono:
  assumes "tracked n outer inner h" "n \<le> m"
  shows "tracked m outer inner h"
  using assms unfolding tracked_def by (meson less_le_trans)

lemma alloc_workers_fail:
  assumes "tracked lo outer inner h" "\<exists>i a. lo \<le> i \<and> i < hi \<and> a < 6 \<and> fails (6 + 6 * i + a)"
  shows "alloc_workers fails [lo..<hi] outer inner h = Inl {}"
  using assms
proof (induction "hi - lo" arbitrary: lo inner h)
  case 0
  then show ?case by auto
next
  case (Suc d)
  then have lo: "lo < hi" by simp
  have t: "tracked (Suc lo) outer (\<lambda>a. (inner a)(lo := None)) h"
    by (rule tracked_reset) (rule Suc.prems)
  show ?case
  proof (cases "\<exists>a<6. fails (6 + 6 * lo + a)")
    case True
    have "alloc_bufs fails lo [0..<6] outer (\<lambda>a. (inner a)(lo := None)) h = Inl {}"
      by (rule alloc_bufs_fail [OF _ t]) (use True in auto)
    then show ?thesis
      using lo by (simp add: upt_conv_Cons)
  next
    case False
    have "\<exists>inner' h'. alloc_bufs fails lo [0..<6] outer (\<lambda>a. (inner a)(lo := None)) h
             = Inr (inner', h') \<and> tracked (Suc lo) outer inner' h'"
      by (rule alloc_bufs_ok [OF _ t]) (use False in auto)
    then obtain inner' h' where
      b: "alloc_bufs fails lo [0..<6] outer (\<lambda>a. (inner a)(lo := None)) h = Inr (inner', h')"
      and t': "tracked (Suc lo) outer inner' h'"
      by blast
    obtain i a where ia: "lo \<le> i" "i < hi" "a < 6" "fails (6 + 6 * i + a)"
      using Suc.prems(2) by blast
    have "i \<noteq> lo" using False ia by auto
    then have "\<exists>i a. Suc lo \<le> i \<and> i < hi \<and> a < 6 \<and> fails (6 + 6 * i + a)"
      using ia by (intro exI [of _ i] exI [of _ a]) simp
    then have "alloc_workers fails [Suc lo..<hi] outer inner' h' = Inl {}"
      using Suc.hyps(2) by (intro Suc.hyps(1) t') simp_all
    then show ?thesis
      using lo b by (simp add: upt_conv_Cons)
  qed
qed

lemma alloc_workers_ok:
  assumes "tracked lo outer inner h" "\<forall>i a. lo \<le> i \<and> i < hi \<and> a < 6 \<longrightarrow> \<not> fails (6 + 6 * i + a)"
  shows "\<exists>inner' h'. alloc_workers fails [lo..<hi] outer inner h = Inr (inner', h')
           \<and> tracked (max lo hi) outer inner' h'"
  using assms
proof (induction "hi - lo" arbitrary: lo inner h)
  case 0
  then show ?case by (simp add: max_def)
next
  case (Suc d)
  then have lo: "lo < hi" by simp
  have t: "tracked (Suc lo) outer (\<lambda>a. (inner a)(lo := None)) h"
    by (rule tracked_reset) (rule Suc.prems)
  have "\<exists>inner' h'. alloc_bufs fails lo [0..<6] outer (\<lambda>a. (inner a)(lo := None)) h
           = Inr (inner', h') \<and> tracked (Suc lo) outer inner' h'"
    by (rule alloc_bufs_ok [OF _ t]) (use Suc.prems(2) lo in auto)
  then obtain inner' h' where
    b: "alloc_bufs fails lo [0..<6] outer (\<lambda>a. (inner a)(lo := None)) h = Inr (inner', h')"
    and t': "tracked (Suc lo) outer inner' h'"
    by blast
  have "\<exists>inner'' h''. alloc_workers fails [Suc lo..<hi] outer inner' h' = Inr (inner'', h'')
           \<and> tracked (max (Suc lo) hi) outer inner'' h''"
    using Suc.hyps(2) Suc.prems(2) by (intro Suc.hyps(1) t') simp_all
  moreover have "max (Suc lo) hi = max lo hi" using lo by simp
  ultimately show ?case
    using lo b by (simp add: upt_conv_Cons)
qed

lemma request_cases:
  "(\<exists>k<6 + 6 * T. fails k) \<longleftrightarrow>
     (\<exists>a<6. fails a) \<or> (\<exists>i a. 0 \<le> i \<and> i < T \<and> a < 6 \<and> fails (6 + 6 * i + (a::nat)))"
proof
  assume "\<exists>k<6 + 6 * T. fails k"
  then obtain k where k: "k < 6 + 6 * T" "fails k" by blast
  show "(\<exists>a<6. fails a) \<or> (\<exists>i a. 0 \<le> i \<and> i < T \<and> a < 6 \<and> fails (6 + 6 * i + a))"
  proof (cases "k < 6")
    case True
    then show ?thesis using k by blast
  next
    case False
    define i where "i = (k - 6) div 6"
    define a where "a = (k - 6) mod 6"
    have "k = 6 + 6 * i + a" "i < T" "a < 6"
      using False k(1) by (auto simp: i_def a_def)
    then show ?thesis using k(2) by blast
  qed
next
  assume "(\<exists>a<6. fails a) \<or> (\<exists>i a. 0 \<le> i \<and> i < T \<and> a < 6 \<and> fails (6 + 6 * i + a))"
  then show "\<exists>k<6 + 6 * T. fails k"
  proof
    assume "\<exists>a<6. fails a"
    then show ?thesis by (meson trans_less_add1)
  next
    assume "\<exists>i a. 0 \<le> i \<and> i < T \<and> a < 6 \<and> fails (6 + 6 * i + a)"
    then obtain i a where ia: "i < T" "a < 6" "fails (6 + 6 * i + a)" by blast
    have "6 + 6 * i + a < 6 + 6 * T" using ia(1,2) by simp
    then show ?thesis using ia(3) by blast
  qed
qed


lemma tracked_empty: "tracked 0 (\<lambda>_. None) inner {}"
  by (simp add: tracked_def)

lemma multi_fail:
  assumes "\<exists>k<6 + 6 * num_threads_of rt n_channels. alloc_fails rt k"
  shows "multi_normxcorr_fftw rt templates n_templates template_len n_channels img image_len ncc
           fft_len used_chans pad_array = (1, ncc, {})"
proof (cases "\<exists>a<6. alloc_fails rt a")
  case True
  have "alloc_outer (alloc_fails rt) [0..<6] (\<lambda>_. None) {} = Inl {}"
    by (rule alloc_outer_fail [OF _ tracked_empty]) (use True in auto)
  then show ?thesis
    by (simp add: multi_normxcorr_fftw_def)
next
  case False
  have "\<exists>outer' h'. alloc_outer (alloc_fails rt) [0..<6] (\<lambda>_. None) {} = Inr (outer', h')
          \<and> tracked 0 outer' (\<lambda>_ _. None) h'"
    by (rule alloc_outer_ok [OF _ tracked_empty]) (use False in auto)
  then obtain outer' h' where
    o: "alloc_outer (alloc_fails rt) [0..<6] (\<lambda>_. None) {} = Inr (outer', h')"
    and t: "tracked 0 outer' (\<lambda>_ _. None) h'"
    by blast
  have "\<exists>i a. 0 \<le> i \<and> i < num_threads_of rt n_channels \<and> a < 6
           \<and> alloc_fails rt (6 + 6 * i + a)"
    using assms False unfolding request_cases by blast
  then have "alloc_workers (alloc_fails rt) [0..<num_threads_of rt n_channels] outer'
               (\<lambda>_ _. None) h' = Inl {}"
    by (rule alloc_workers_fail [OF t])
  then show ?thesis
    by (simp add: multi_normxcorr_fftw_def o)
qed

lemma multi_ok:
  assumes "\<not> (\<exists>k<6 + 6 * num_threads_of rt n_channels. alloc_fails rt k)"
  shows "multi_normxcorr_fftw rt templates n_templates template_len n_channels img image_len ncc
           fft_len used_chans pad_array =
         (if fst (snd (channel_loop rt templates n_templates template_len img image_len
                         fft_len used_chans pad_array ncc)) \<noteq> 0
          then (- 1, snd (snd (channel_loop rt templates n_templates template_len img image_len
                         fft_len used_chans pad_array ncc)), {})
          else (0, accumulate n_templates n_channels (image_len + 1 - template_len)
                     (snd (snd (channel_loop rt templates n_templates template_len img image_len
                         fft_len used_chans pad_array ncc))), {}))"
proof -
  have nf: "\<not> (\<exists>a<6. alloc_fails rt a)"
    "\<not> (\<exists>i a. 0 \<le> i \<and> i < num_threads_of rt n_channels \<and> a < 6
           \<and> alloc_fails rt (6 + 6 * i + a))"
    using assms unfolding request_cases by blast+
  have "\<exists>outer' h'. alloc_outer (alloc_fails rt) [0..<6] (\<lambda>_. None) {} = Inr (outer', h')
          \<and> tracked 0 outer' (\<lambda>_ _. None) h'"
    by (rule alloc_outer_ok [OF _ tracked_empty]) (use nf(1) in auto)
  then obtain outer' h' where
    o: "alloc_outer (alloc_fails rt) [0..<6] (\<lambda>_. None) {} = Inr (outer', h')"
    and t: "tracked 0 outer' (\<lambda>_ _. None) h'"
    by blast
  have "\<exists>inner' h''. alloc_workers (alloc_fails rt) [0..<num_threads_of rt n_channels] outer'
               (\<lambda>_ _. None) h' = Inr (inner', h'')
          \<and> tracked (max 0 (num_threads_of rt n_channels)) outer' inner' h''"
    by (rule alloc_workers_ok [OF t]) (use nf(2) in blast)
  then obtain inner' h'' where
    w: "alloc_workers (alloc_fails rt) [0..<num_threads_of rt n_channels] outer'
               (\<lambda>_ _. None) h' = Inr (inner', h'')"
    and t': "tracked (num_threads_of rt n_channels) outer' inner' h''"
    by auto
  have f: "free_fftw_arrays (num_threads_of rt n_channels) outer' inner' h'' = {}"
    using t' by (rule free_fftw_arrays_empty)
  obtain r s ncc' where l: "channel_loop rt templates n_templates template_len img image_len
                         fft_len used_chans pad_array ncc = (r, s, ncc')"
    by (cases "channel_loop rt templates n_templates template_len img image_len
                         fft_len used_chans pad_array ncc") auto
  have "r = 0"
    using loop_fst [of rt templates n_templates template_len img image_len fft_len used_chans
                      pad_array "schedule rt" 0 0 ncc] l
    by (simp add: channel_loop_def)
  then show ?thesis
    by (simp add: multi_normxcorr_fftw_def o w f l)
qed

section \<open>The status of the routine\<close>

lemma channel_overflows_pos:
  "(channel_overflows rt templates n_templates template_len img image_len fft_len used_chans c
      \<noteq> 0) =
   (\<exists>k<n_templates. \<exists>j<image_len + 1 - template_len.
        used_chans (c * n_templates + k) \<noteq> 0
      \<and> overflows (channel_out rt templates n_templates template_len img image_len fft_len c
                     (k * (image_len + 1 - template_len) + j)))"
proof -
  have "(channel_overflows rt templates n_templates template_len img image_len fft_len
           used_chans c = 0) =
        (\<forall>k\<in>{..<n_templates}.
           (if used_chans (c * n_templates + k) = 0 then 0
            else trace_overflows
                   (channel_out rt templates n_templates template_len img image_len fft_len c)
                   (k * (image_len + 1 - template_len)) (image_len + 1 - template_len)) = 0)"
    unfolding channel_overflows_def
    by (rule sum_nonneg_eq_0_iff) (simp_all add: trace_overflows_nonneg)
  then show ?thesis
    by (auto simp: trace_overflows_zero)
qed

lemma sum_list_zero_iff:
  fixes f :: "'a \<Rightarrow> int"
  assumes "\<And>x. 0 \<le> f x"
  shows "((\<Sum>x\<leftarrow>xs. f x) = 0) = (\<forall>x\<in>set xs. f x = 0)"
proof (induction xs)
  case Nil
  show ?case by simp
next
  case (Cons a xs)
  have "0 \<le> (\<Sum>x\<leftarrow>xs. f x)" by (intro sum_list_nonneg) (auto simp: assms)
  moreover have "0 \<le> f a" by (rule assms)
  ultimately have "(f a + (\<Sum>x\<leftarrow>xs. f x) = 0) = (f a = 0 \<and> (\<Sum>x\<leftarrow>xs. f x) = 0)"
    by linarith
  then show ?case using Cons by simp
qed

lemma loop_overflows_pos:
  "((\<Sum>c\<leftarrow>chans. channel_overflows rt templates n_templates template_len img image_len
                    fft_len used_chans c) \<noteq> 0) =
   (\<exists>c\<in>set chans. \<exists>k<n_templates. \<exists>j<image_len + 1 - template_len.
        used_chans (c * n_templates + k) \<noteq> 0
      \<and> overflows (channel_out rt templates n_templates template_len img image_len fft_len c
                     (k * (image_len + 1 - template_len) + j)))"
proof -
  have "((\<Sum>c\<leftarrow>chans. channel_overflows rt templates n_templates template_len img image_len
                    fft_len used_chans c) = 0) =
        (\<forall>c\<in>set chans. channel_overflows rt templates n_templates template_len img image_len
                    fft_len used_chans c = 0)"
    by (rule sum_list_zero_iff) (rule trace_overflows_sum_nonneg)
  then show ?thesis
    using channel_overflows_pos [of rt templates n_templates template_len img image_len fft_len
        used_chans] by blast
qed

lemma loop_count:
  "(fst (snd (channel_loop rt templates n_templates template_len img image_len fft_len
                used_chans pad_array ncc)) \<noteq> 0) =
   (\<exists>c\<in>set (concat (schedule rt)). \<exists>k<n_templates. \<exists>j<image_len + 1 - template_len.
        used_chans (c * n_templates + k) \<noteq> 0
      \<and> overflows (channel_out rt templates n_templates template_len img image_len fft_len c
                     (k * (image_len + 1 - template_len) + j)))"
  unfolding channel_loop_def loop_overflows by (simp only: loop_overflows_pos add_0)




section \<open>The sum over the channels\<close>

text \<open>
  The reduction adds, into every cell of the plane of channel \<open>0\<close>, the cells of the later
  channels at the same template and sample; it reads only cells it never writes.
\<close>

lemma acc_read_fold:
  assumes "\<And>k. k \<in> set ks \<Longrightarrow> idx k \<noteq> a"
  shows "fold (\<lambda>k (ncc::fbuf). ncc(a := faddf (ncc a) (ncc (idx k)))) ks ncc =
         ncc(a := fold (\<lambda>k s. faddf s (ncc (idx k))) ks (ncc a))"
  using assms
proof (induction ks rule: rev_induct)
  case Nil
  show ?case by simp
next
  case (snoc k ks)
  define F where "F = (\<lambda>k (ncc::fbuf). ncc(a := faddf (ncc a) (ncc (idx k))))"
  have ih: "fold F ks ncc = ncc(a := fold (\<lambda>k s. faddf s (ncc (idx k))) ks (ncc a))"
    unfolding F_def by (rule snoc.IH) (simp add: snoc.prems)
  have k: "idx k \<noteq> a" by (rule snoc.prems) simp
  have "fold F (ks @ [k]) ncc = F k (fold F ks ncc)" by simp
  also have "\<dots> = F k (ncc(a := fold (\<lambda>k s. faddf s (ncc (idx k))) ks (ncc a)))"
    unfolding ih ..
  also have "\<dots> = ncc(a := fold (\<lambda>k s. faddf s (ncc (idx k))) (ks @ [k]) (ncc a))"
    using k by (simp add: F_def)
  finally show ?case by (simp only: F_def)
qed

lemma channel_sum_cong:
  assumes "\<And>b. a \<le> b \<Longrightarrow> ncc' b = (ncc::fbuf) b"
  shows "fold (\<lambda>k s. faddf s (ncc' (a + k * off))) ks (ncc' a) =
         fold (\<lambda>k s. faddf s (ncc (a + k * off))) ks (ncc a)"
proof -
  have "(\<lambda>k s. faddf s (ncc' (a + k * off))) = (\<lambda>k s. faddf s (ncc (a + k * off)))"
    by (intro ext) (simp add: assms)
  then show ?thesis by (simp add: assms)
qed

lemma acc_row_fold:
  assumes "0 < off"
  shows "fold (\<lambda>j. fold (\<lambda>k (ncc::fbuf). ncc(base + j := faddf (ncc (base + j))
                                    (ncc (base + j + k * off)))) [1..<C]) [0..<m] ncc a =
         (if base \<le> a \<and> a < base + m
          then fold (\<lambda>k s. faddf s (ncc (a + k * off))) [1..<C] (ncc a) else ncc a)"
proof (induction m arbitrary: a)
  case 0
  show ?case by simp
next
  case (Suc m)
  define G where "G = (\<lambda>j. fold (\<lambda>k (ncc::fbuf). ncc(base + j := faddf (ncc (base + j))
                                    (ncc (base + j + k * off)))) [1..<C])"
  define prev where "prev = fold G [0..<m] ncc"
  have prev: "prev b = (if base \<le> b \<and> b < base + m
          then fold (\<lambda>k s. faddf s (ncc (b + k * off))) [1..<C] (ncc b) else ncc b)" for b
    unfolding prev_def G_def by (rule Suc)
  have G: "G m prev = prev(base + m := fold (\<lambda>k s. faddf s (prev (base + m + k * off))) [1..<C]
                                        (prev (base + m)))"
    unfolding G_def by (rule acc_read_fold) (use assms in auto)
  have same: "fold (\<lambda>k s. faddf s (prev (base + m + k * off))) [1..<C] (prev (base + m)) =
              fold (\<lambda>k s. faddf s (ncc (base + m + k * off))) [1..<C] (ncc (base + m))"
    by (rule channel_sum_cong) (simp add: prev)
  have "fold G [0..<Suc m] ncc a = G m prev a"
    by (simp add: prev_def)
  also have "\<dots> = (if base \<le> a \<and> a < base + Suc m
          then fold (\<lambda>k s. faddf s (ncc (a + k * off))) [1..<C] (ncc a) else ncc a)"
    unfolding G same by (auto simp: prev)
  finally show ?case by (simp only: G_def)
qed

lemma acc_plane_fold:
  assumes "0 < off"
  shows "fold (\<lambda>i. fold (\<lambda>j. fold (\<lambda>k (ncc::fbuf). ncc(i * dimz + j := faddf (ncc (i * dimz + j))
                                    (ncc (i * dimz + j + k * off)))) [1..<C]) [0..<dimz])
           [0..<n] ncc a =
         (if a < n * dimz
          then fold (\<lambda>k s. faddf s (ncc (a + k * off))) [1..<C] (ncc a) else ncc a)"
proof (induction n arbitrary: a)
  case 0
  show ?case by simp
next
  case (Suc n)
  define R where "R = (\<lambda>i. fold (\<lambda>j. fold (\<lambda>k (ncc::fbuf). ncc(i * dimz + j :=
                          faddf (ncc (i * dimz + j)) (ncc (i * dimz + j + k * off)))) [1..<C])
                        [0..<dimz])"
  define prev where "prev = fold R [0..<n] ncc"
  have prev: "prev b = (if b < n * dimz
          then fold (\<lambda>k s. faddf s (ncc (b + k * off))) [1..<C] (ncc b) else ncc b)" for b
    unfolding prev_def R_def by (rule Suc)
  have R: "R n prev a = (if n * dimz \<le> a \<and> a < n * dimz + dimz
          then fold (\<lambda>k s. faddf s (prev (a + k * off))) [1..<C] (prev a) else prev a)"
    unfolding R_def using assms by (rule acc_row_fold)
  have same: "fold (\<lambda>k s. faddf s (prev (a + k * off))) [1..<C] (prev a) =
              fold (\<lambda>k s. faddf s (ncc (a + k * off))) [1..<C] (ncc a)" if "n * dimz \<le> a"
    by (rule channel_sum_cong) (use that in \<open>simp add: prev\<close>)
  have "fold R [0..<Suc n] ncc a = R n prev a"
    by (simp add: prev_def)
  also have "\<dots> = (if a < Suc n * dimz
          then fold (\<lambda>k s. faddf s (ncc (a + k * off))) [1..<C] (ncc a) else ncc a)"
    unfolding R using same by (auto simp: prev)
  finally show ?case by (simp only: R_def)
qed

lemma accumulate_eq:
  "accumulate n_templates n_channels dimz ncc a =
     (if a < n_templates * dimz
      then fold (\<lambda>k s. faddf s (ncc (a + k * (n_templates * dimz)))) [1..<n_channels] (ncc a)
      else ncc a)"
proof (cases "0 < n_templates * dimz")
  case True
  then show ?thesis
    unfolding accumulate_def Let_def by (rule acc_plane_fold)
next
  case False
  have id: "fold (\<lambda>i. id) xs = (id :: fbuf \<Rightarrow> fbuf)" for xs :: "nat list"
    by (induction xs) simp_all
  from False consider "n_templates = 0" | "dimz = 0" by auto
  then show ?thesis
  proof cases
    case 1
    then show ?thesis by (simp add: accumulate_def)
  next
    case 2
    then show ?thesis by (simp add: accumulate_def id)
  qed
qed

section \<open>Templates of two samples on a rising image\<close>

text \<open>
  For templates of length two the stored value is the difference of the two template
  samples times the sign of the step of the image; on an image that rises by at least
  one at every sample the variance is above the floor everywhere.
\<close>

lemma sum_2: "(\<Sum>p<2. f p) = f 0 + (f (1::nat) :: real)"
  by (simp add: numeral_2_eq_2)

lemma wmean_2: "wmean x 2 j = (x j + x (j + 1)) / 2"
  by (simp add: wmean_def sum_2)

lemma wvar_2: "wvar x 2 j = ((x (j + 1) - x j) / 2)\<^sup>2"
  by (simp add: wvar_def wmean_2 sum_2 power2_eq_square field_simps)

lemma xcorr_2: "xcorr t x 2 k j = t (k * 2) * x j + t (k * 2 + 1) * x (j + 1)"
  by (simp add: xcorr_def sum_2)

lemma tsum_2: "tsum t 2 k = t (k * 2) + t (k * 2 + 1)"
  by (simp add: tsum_def sum_2)

lemma rising_ratio:
  fixes x0 x1 t0 t1 :: real
  assumes "x0 < x1"
  shows "(t0 * x0 + t1 * x1 - (t0 + t1) * ((x0 + x1) / 2)) / sqrt (((x1 - x0) / 2)\<^sup>2) = t1 - t0"
proof -
  have s: "sqrt (((x1 - x0) / 2)\<^sup>2) = (x1 - x0) / 2"
    using assms by simp
  have n: "t0 * x0 + t1 * x1 - (t0 + t1) * ((x0 + x1) / 2) = (t1 - t0) * ((x1 - x0) / 2)"
    by (simp add: algebra_simps)
  show ?thesis
    unfolding s n using assms by simp
qed

lemma kernel_rising:
  assumes ft: "\<And>i. i < n_templates * 2 \<Longrightarrow> is_fin (templates i)"
    and fi: "\<And>i. i < image_len \<Longrightarrow> is_fin (img i)"
    and L: "2 \<le> image_len" "image_len \<le> fft_len"
    and zt: "\<And>i. i < n_templates * fft_len \<Longrightarrow> template_ext i = Fin 0"
    and zi: "\<And>i. i < fft_len \<Longrightarrow> image_ext i = Fin 0"
    and k: "k < n_templates" and j: "j < image_len + 1 - 2"
    and r: "1 \<le> val (img (j + 1)) - val (img j)"
  shows "snd (normxcorr_fftw_main templates 2 n_templates img image_len ncc fft_len
            template_ext image_ext ccc outa outb out
            (Plan_r2c_2d n_templates fft_len) (Plan_r2c_1d fft_len)
            (Plan_c2r_2d n_templates fft_len))
           (k * (image_len + 1 - 2) + j) =
         Fin (val (templates (k * 2 + 1)) - val (templates (k * 2)))"
proof -
  have kv: "snd (normxcorr_fftw_main templates 2 n_templates img image_len ncc fft_len
            template_ext image_ext ccc outa outb out
            (Plan_r2c_2d n_templates fft_len) (Plan_r2c_1d fft_len)
            (Plan_c2r_2d n_templates fft_len))
           (k * (image_len + 1 - 2) + j) =
     (if (if j = 0 then wvar (\<lambda>i. val (img i)) 2 j < 1 / 10000000
          else \<not> 1 / 10000000 < wvar (\<lambda>i. val (img i)) 2 j)
      then Fin 0
      else Fin ((xcorr (\<lambda>i. val (templates i)) (\<lambda>i. val (img i)) 2 k j
                 - tsum (\<lambda>i. val (templates i)) 2 k
                   * wmean (\<lambda>i. val (img i)) 2 j)
                / sqrt (wvar (\<lambda>i. val (img i)) 2 j)))"
    by (rule kernel_value) (use assms in simp_all)
  define d where "d = val (img (j + 1)) - val (img j)"
  have d: "1 \<le> d" using r by (simp add: d_def)
  have "1 * 1 \<le> d * d" using d by (intro mult_mono) simp_all
  then have "1 \<le> d * d" by simp
  then have v: "1 / 10000000 < wvar (\<lambda>i. val (img i)) 2 j"
    unfolding wvar_2 d_def [symmetric] by (simp add: power2_eq_square)
  have lt: "val (img j) < val (img (j + 1))" using r by simp
  have c: "\<not> (if j = 0 then wvar (\<lambda>i. val (img i)) 2 j < 1 / 10000000
          else \<not> 1 / 10000000 < wvar (\<lambda>i. val (img i)) 2 j)"
    using v by auto
  have q: "(xcorr (\<lambda>i. val (templates i)) (\<lambda>i. val (img i)) 2 k j
                 - tsum (\<lambda>i. val (templates i)) 2 k
                   * wmean (\<lambda>i. val (img i)) 2 j)
                / sqrt (wvar (\<lambda>i. val (img i)) 2 j) =
           val (templates (k * 2 + 1)) - val (templates (k * 2))"
    unfolding wvar_2 wmean_2 xcorr_2 tsum_2 by (rule rising_ratio [OF lt])
  show ?thesis
    unfolding kv if_not_P [OF c] q ..
qed


lemma channel_out_rising:
  assumes ft: "\<And>i. is_fin (templates i)" and fi: "\<And>i. is_fin (img i)"
    and L: "2 \<le> image_len" "image_len \<le> fft_len"
    and k: "k < n_templates" and j: "j < image_len + 1 - 2"
    and r: "\<And>i. 1 \<le> val (img (i + 1)) - val (img i)"
  shows "channel_out rt templates n_templates 2 img image_len fft_len c
           (k * (image_len + 1 - 2) + j) =
         Fin (val (templates (n_templates * 2 * c + (k * 2 + 1)))
              - val (templates (n_templates * 2 * c + k * 2)))"
proof -
  have "snd (normxcorr_fftw_main (offset_buf templates (n_templates * 2 * c)) 2 n_templates
            (offset_buf img (image_len * c)) image_len (\<lambda>_. Fin 0) fft_len
            (\<lambda>_. Fin 0) (\<lambda>_. Fin 0)
            (ws_ccc (scratch rt c)) (ws_outa (scratch rt c)) (ws_outb (scratch rt c))
            (ws_out (scratch rt c)) (Plan_r2c_2d n_templates fft_len) (Plan_r2c_1d fft_len)
            (Plan_c2r_2d n_templates fft_len))
           (k * (image_len + 1 - 2) + j) =
         Fin (val (offset_buf templates (n_templates * 2 * c) (k * 2 + 1))
              - val (offset_buf templates (n_templates * 2 * c) (k * 2)))"
  proof (rule kernel_rising)
    show "1 \<le> val (offset_buf img (image_len * c) (j + 1)) - val (offset_buf img (image_len * c) j)"
      using r [of "image_len * c + j"] by (simp add: offset_buf_def add.assoc)
  qed (use assms in \<open>simp_all add: offset_buf_def\<close>)
  then show ?thesis
    by (simp add: channel_out_def offset_buf_def)
qed

lemma overflows_Fin: "overflows (Fin v) = (101 / 100 < \<bar>v\<bar>)"
  by (simp add: overflows_def isnanf_def fgt_def)

lemma rising_status:
  assumes a: "\<not> (\<exists>k<6 + 6 * num_threads_of rt n_channels. alloc_fails rt k)"
    and ft: "\<And>i. is_fin (templates i)" and fi: "\<And>i. is_fin (img i)"
    and L: "2 \<le> image_len" "image_len \<le> fft_len"
    and r: "\<And>i. 1 \<le> val (img (i + 1)) - val (img i)"
  shows "fst (multi_normxcorr_fftw rt templates n_templates 2 n_channels img image_len ncc
                fft_len used_chans pad_array) =
         (if \<exists>c\<in>set (concat (schedule rt)). \<exists>k<n_templates.
                 used_chans (c * n_templates + k) \<noteq> 0
               \<and> 101 / 100 < \<bar>val (templates (n_templates * 2 * c + (k * 2 + 1)))
                                - val (templates (n_templates * 2 * c + k * 2))\<bar>
          then - 1 else 0)"
proof -
  have o: "overflows (channel_out rt templates n_templates 2 img image_len fft_len c
                     (k * (image_len + 1 - 2) + j)) =
           (101 / 100 < \<bar>val (templates (n_templates * 2 * c + (k * 2 + 1)))
                                - val (templates (n_templates * 2 * c + k * 2))\<bar>)"
    if "k < n_templates" "j < image_len + 1 - 2" for c k j
  proof -
    have "channel_out rt templates n_templates 2 img image_len fft_len c
           (k * (image_len + 1 - 2) + j) =
         Fin (val (templates (n_templates * 2 * c + (k * 2 + 1)))
              - val (templates (n_templates * 2 * c + k * 2)))"
      by (rule channel_out_rising) (rule ft fi L that r)+
    then show ?thesis
      unfolding overflows_Fin [symmetric] by simp
  qed
  have j0: "0 < image_len + 1 - 2" using L(1) by simp
  have "(fst (snd (channel_loop rt templates n_templates 2 img image_len fft_len
                used_chans pad_array ncc)) \<noteq> 0) =
        (\<exists>c\<in>set (concat (schedule rt)). \<exists>k<n_templates.
                 used_chans (c * n_templates + k) \<noteq> 0
               \<and> 101 / 100 < \<bar>val (templates (n_templates * 2 * c + (k * 2 + 1)))
                                - val (templates (n_templates * 2 * c + k * 2))\<bar>)"
    unfolding loop_count using o j0 by blast
  then show ?thesis
    unfolding multi_ok [OF a] by auto
qed

section \<open>The status of the routine with the requests of its kernel calls\<close>


lemma channel_faults_iff:
  "channel_faults rt templates n_templates template_len n_channels img image_len ncc fft_len i =
     (alloc_fails rt (6 + 6 * num_threads_of rt n_channels + i)
      \<and> 0 < n_templates \<and> 0 < template_len)"
  by (simp add: channel_faults_def normxcorr_fftw_main_calloc_def)

lemma alloc_fail_cases:
  assumes "\<exists>k<6 + 6 * num_threads_of rt n_channels. alloc_fails rt k"
  shows "alloc_outer (alloc_fails rt) [0..<6] (\<lambda>_. None) {} = Inl {}
       \<or> (\<exists>outer h. alloc_outer (alloc_fails rt) [0..<6] (\<lambda>_. None) {} = Inr (outer, h)
            \<and> alloc_workers (alloc_fails rt) [0..<num_threads_of rt n_channels] outer
                 (\<lambda>_ _. None) h = Inl {})"
proof (cases "\<exists>a<6. alloc_fails rt a")
  case True
  have "alloc_outer (alloc_fails rt) [0..<6] (\<lambda>_. None) {} = Inl {}"
    by (rule alloc_outer_fail [OF _ tracked_empty]) (use True in auto)
  then show ?thesis by simp
next
  case False
  have "\<exists>outer' h'. alloc_outer (alloc_fails rt) [0..<6] (\<lambda>_. None) {} = Inr (outer', h')
          \<and> tracked 0 outer' (\<lambda>_ _. None) h'"
    by (rule alloc_outer_ok [OF _ tracked_empty]) (use False in auto)
  then obtain outer' h' where
    o: "alloc_outer (alloc_fails rt) [0..<6] (\<lambda>_. None) {} = Inr (outer', h')"
    and t: "tracked 0 outer' (\<lambda>_ _. None) h'"
    by blast
  have "\<exists>i a. 0 \<le> i \<and> i < num_threads_of rt n_channels \<and> a < 6
           \<and> alloc_fails rt (6 + 6 * i + a)"
    using assms False unfolding request_cases by blast
  then have "alloc_workers (alloc_fails rt) [0..<num_threads_of rt n_channels] outer'
               (\<lambda>_ _. None) h' = Inl {}"
    by (rule alloc_workers_fail [OF t])
  then show ?thesis using o by blast
qed

lemma alloc_ok_cases:
  assumes "\<not> (\<exists>k<6 + 6 * num_threads_of rt n_channels. alloc_fails rt k)"
  shows "\<exists>outer h inner h'.
           alloc_outer (alloc_fails rt) [0..<6] (\<lambda>_. None) {} = Inr (outer, h)
         \<and> alloc_workers (alloc_fails rt) [0..<num_threads_of rt n_channels] outer
              (\<lambda>_ _. None) h = Inr (inner, h')"
proof -
  have nf: "\<not> (\<exists>a<6. alloc_fails rt a)"
    "\<not> (\<exists>i a. 0 \<le> i \<and> i < num_threads_of rt n_channels \<and> a < 6
           \<and> alloc_fails rt (6 + 6 * i + a))"
    using assms unfolding request_cases by blast+
  have "\<exists>outer' h'. alloc_outer (alloc_fails rt) [0..<6] (\<lambda>_. None) {} = Inr (outer', h')
          \<and> tracked 0 outer' (\<lambda>_ _. None) h'"
    by (rule alloc_outer_ok [OF _ tracked_empty]) (use nf(1) in auto)
  then obtain outer' h' where
    o: "alloc_outer (alloc_fails rt) [0..<6] (\<lambda>_. None) {} = Inr (outer', h')"
    and t: "tracked 0 outer' (\<lambda>_ _. None) h'"
    by blast
  have "\<exists>inner' h''. alloc_workers (alloc_fails rt) [0..<num_threads_of rt n_channels] outer'
               (\<lambda>_ _. None) h' = Inr (inner', h'')
          \<and> tracked (max 0 (num_threads_of rt n_channels)) outer' inner' h''"
    by (rule alloc_workers_ok [OF t]) (use nf(2) in blast)
  then show ?thesis using o by blast
qed

lemma multi_calloc_eq:
  "multi_normxcorr_fftw_calloc rt templates n_templates template_len n_channels img image_len ncc
       fft_len used_chans pad_array =
     (if \<exists>k<6 + 6 * num_threads_of rt n_channels. alloc_fails rt k then Inr (1, ncc, {})
      else if (\<exists>c\<in>set (concat (schedule rt)).
                 alloc_fails rt (6 + 6 * num_threads_of rt n_channels + c))
              \<and> 0 < n_templates \<and> 0 < template_len
      then Inl Null_dereference
      else Inr (multi_normxcorr_fftw rt templates n_templates template_len n_channels
                  img image_len ncc fft_len used_chans pad_array))"
proof (cases "\<exists>k<6 + 6 * num_threads_of rt n_channels. alloc_fails rt k")
  case True
  from alloc_fail_cases [OF True] show ?thesis
    using True by (auto simp: multi_normxcorr_fftw_calloc_def)
next
  case False
  from alloc_ok_cases [OF False] obtain outer h inner h' where
    "alloc_outer (alloc_fails rt) [0..<6] (\<lambda>_. None) {} = Inr (outer, h)"
    "alloc_workers (alloc_fails rt) [0..<num_threads_of rt n_channels] outer
              (\<lambda>_ _. None) h = Inr (inner, h')"
    by blast
  then show ?thesis
    using False
    by (auto simp: multi_normxcorr_fftw_calloc_def list_ex_iff channel_faults_iff)
qed











section \<open>The traces after the loop over the channels\<close>

text \<open>
  The value of every sample of the tensor that the loop leaves, for every schedule that
  runs each channel once: the pad of a trace is applied exactly when the private counter
  of its worker is zero once the trace has been sanitised.
\<close>

lemma post_process_value:
  assumes "j < sz"
  shows "snd (post_process used_chans pad_array n_templates sz c off k (s0, X))
           (off + k * sz + j) =
         (if s0 + (if used_chans (c * n_templates + k) = 0 then 0
                   else trace_overflows X (off + k * sz) sz) = 0
          then (if j < sz - size_t_of_int (pad_array (c * n_templates + k))
                then (if used_chans (c * n_templates + k) = 0 then Fin 0
                      else clamped (X (off + k * sz
                                      + (j + size_t_of_int (pad_array (c * n_templates + k))))))
                else Fin 0)
          else (if used_chans (c * n_templates + k) = 0 then Fin 0
                else clamped (X (off + k * sz + j))))"
proof -
  let ?p = "size_t_of_int (pad_array (c * n_templates + k))"
  have jp: "j + ?p < sz" if "j < sz - ?p" using that by simp
  show ?thesis
  proof (cases "used_chans (c * n_templates + k) = 0")
    case True
    then show ?thesis
      using assms jp
      by (simp add: post_process_eq Let_def apply_pad_at zero_trace_at add.assoc)
  next
    case False
    then show ?thesis
      using assms jp
      by (simp add: post_process_eq Let_def apply_pad_at sanitise_trace_snd sanitise_trace_fst
            add.assoc)
  qed
qed

lemma channel_trace:
  assumes le: "template_len \<le> image_len"
    and k: "k < n_templates" and j: "j < image_len + 1 - template_len"
  shows "snd (snd (channel_body rt templates n_templates template_len img image_len fft_len
       used_chans pad_array (Plan_r2c_2d n_templates fft_len) (Plan_r2c_1d fft_len)
       (Plan_c2r_2d n_templates fft_len) c (r, s, ncc)))
       ((image_len + 1 - template_len) * n_templates * c + k * (image_len + 1 - template_len) + j)
     = (if s + overflows_upto rt templates n_templates template_len img image_len fft_len
                 used_chans c (Suc k) = 0
        then shifted rt templates n_templates template_len img image_len fft_len used_chans
               pad_array c k j
        else sanitised rt templates n_templates template_len img image_len fft_len used_chans
               c k j)"
proof -
  let ?sz = "image_len + 1 - template_len"
  let ?off = "?sz * n_templates * c"
  let ?out = "channel_out rt templates n_templates template_len img image_len fft_len c"
  let ?X = "store_buf ncc ?off
              (snd (normxcorr_fftw_main (offset_buf templates (n_templates * template_len * c))
                 template_len n_templates (offset_buf img (image_len * c)) image_len
                 (offset_buf ncc ?off) fft_len
                 (\<lambda>_. Fin 0) (\<lambda>_. Fin 0)
                 (ws_ccc (scratch rt c)) (ws_outa (scratch rt c)) (ws_outb (scratch rt c))
                 (ws_out (scratch rt c)) (Plan_r2c_2d n_templates fft_len) (Plan_r2c_1d fft_len)
                 (Plan_c2r_2d n_templates fft_len)))"
  let ?p = "size_t_of_int (pad_array (c * n_templates + k))"
  have X: "?X (?off + k' * ?sz + m) = ?out (k' * ?sz + m)" if "k' < n_templates" "m < ?sz" for k' m
  proof -
    have "k' * ?sz + m < n_templates * ?sz"
      using trace_below [OF that(1), of 0 ?sz] that(2) by simp
    then show ?thesis
      unfolding channel_out_def add.assoc by (rule store_kernel_slice [OF le])
  qed
  have ov: "trace_overflows ?X (?off + k' * ?sz) ?sz = trace_overflows ?out (k' * ?sz) ?sz"
    if "k' < n_templates" for k'
    by (rule trace_overflows_shift) (rule X [OF that])
  have upto: "(\<Sum>k'<n. if used_chans (c * n_templates + k') = 0 then 0
                 else trace_overflows ?X (?off + k' * ?sz) ?sz) =
        overflows_upto rt templates n_templates template_len img image_len fft_len used_chans c n"
    if "n \<le> n_templates" for n
    unfolding overflows_upto_def
  proof (rule sum.cong [OF refl])
    fix k' assume "k' \<in> {..<n}"
    then have "k' < n_templates" using that by simp
    then show "(if used_chans (c * n_templates + k') = 0 then 0
                 else trace_overflows ?X (?off + k' * ?sz) ?sz) =
               (if used_chans (c * n_templates + k') = 0 then 0
                 else trace_overflows ?out (k' * ?sz) ?sz)"
      by (simp only: ov)
  qed
  define s0 where "s0 = fst (fold (post_process used_chans pad_array n_templates ?sz c ?off)
                               [0..<k] (s, ?X))"
  have s0: "s0 = s + overflows_upto rt templates n_templates template_len img image_len fft_len
                       used_chans c k"
    unfolding s0_def fold_post_fst using k by (simp only: upto less_imp_le)
  have up: "s + overflows_upto rt templates n_templates template_len img image_len fft_len
              used_chans c (Suc k) =
            s0 + (if used_chans (c * n_templates + k) = 0 then 0
               else trace_overflows ?X (?off + k * ?sz) ?sz)"
    unfolding s0 ov [OF k] by (simp add: overflows_upto_def)
  have jp: "j + ?p < ?sz" if "j < ?sz - ?p" using that by simp
  have "snd (snd (channel_body rt templates n_templates template_len img image_len fft_len
       used_chans pad_array (Plan_r2c_2d n_templates fft_len) (Plan_r2c_1d fft_len)
       (Plan_c2r_2d n_templates fft_len) c (r, s, ncc))) (?off + k * ?sz + j) =
     snd (post_process used_chans pad_array n_templates ?sz c ?off k (s0, ?X)) (?off + k * ?sz + j)"
    unfolding channel_body_eq snd_conv s0_def using k j by (rule fold_post_trace)
  also have "\<dots> =
         (if s0 + (if used_chans (c * n_templates + k) = 0 then 0
                   else trace_overflows ?X (?off + k * ?sz) ?sz) = 0
          then (if j < ?sz - ?p
                then (if used_chans (c * n_templates + k) = 0 then Fin 0
                      else clamped (?X (?off + k * ?sz + (j + ?p))))
                else Fin 0)
          else (if used_chans (c * n_templates + k) = 0 then Fin 0
                else clamped (?X (?off + k * ?sz + j))))"
    using j by (rule post_process_value)
  also have "\<dots> = (if s + overflows_upto rt templates n_templates template_len img image_len
                           fft_len used_chans c (Suc k) = 0
        then shifted rt templates n_templates template_len img image_len fft_len used_chans
               pad_array c k j
        else sanitised rt templates n_templates template_len img image_len fft_len used_chans
               c k j)"
  proof (cases "j < ?sz - ?p")
    case True
    show ?thesis
      unfolding up [symmetric] shifted_def sanitised_def X [OF k j] X [OF k jp [OF True]]
      using True by (simp only: if_True)
  next
    case False
    show ?thesis
      unfolding up [symmetric] shifted_def sanitised_def X [OF k j]
      using False by (simp only: if_False)
  qed
  finally show ?thesis .
qed


lemma worker_trace:
  assumes le: "template_len \<le> image_len"
    and k: "k < n_templates" and j: "j < image_len + 1 - template_len"
    and d: "distinct chans" and c: "c \<in> set chans"
  shows "snd (snd (worker rt templates n_templates template_len img image_len fft_len used_chans
                     pad_array chans (r, s, ncc)))
       ((image_len + 1 - template_len) * n_templates * c + k * (image_len + 1 - template_len) + j)
     = (if s + (\<Sum>c'\<leftarrow>takeWhile (\<lambda>x. x \<noteq> c) chans.
                   channel_overflows rt templates n_templates template_len img image_len fft_len
                     used_chans c')
             + overflows_upto rt templates n_templates template_len img image_len fft_len
                 used_chans c (Suc k) = 0
        then shifted rt templates n_templates template_len img image_len fft_len used_chans
               pad_array c k j
        else sanitised rt templates n_templates template_len img image_len fft_len used_chans
               c k j)"
  using d c
proof (induction chans rule: rev_induct)
  case Nil
  then show ?case by simp
next
  case (snoc x xs)
  obtain r1 s1 ncc1 where st: "worker rt templates n_templates template_len img image_len fft_len
      used_chans pad_array xs (r, s, ncc) = (r1, s1, ncc1)"
    by (cases "worker rt templates n_templates template_len img image_len fft_len
      used_chans pad_array xs (r, s, ncc)") auto
  have s1: "s1 = s + (\<Sum>c'\<leftarrow>xs. channel_overflows rt templates n_templates template_len img
                        image_len fft_len used_chans c')"
    using worker_overflows [of rt templates n_templates template_len img image_len fft_len
        used_chans pad_array xs r s ncc] st by simp
  show ?case
  proof (cases "x = c")
    case True
    then have "c \<notin> set xs" using snoc.prems(1) by simp
    then have "\<And>y. y \<in> set xs \<Longrightarrow> y \<noteq> c" by blast
    then have tw: "takeWhile (\<lambda>x. x \<noteq> c) (xs @ [c]) = xs"
      by (simp add: takeWhile_append2)
    show ?thesis
      unfolding worker_snoc st True tw s1 [symmetric]
      using le k j by (rule channel_trace)
  next
    case False
    then have cx: "c \<in> set xs" using snoc.prems(2) by simp
    then have tw: "takeWhile (\<lambda>x. x \<noteq> c) (xs @ [x]) = takeWhile (\<lambda>x. x \<noteq> c) xs"
      by (simp add: takeWhile_append1)
    have "distinct xs" using snoc.prems(1) by simp
    then have ih: "ncc1
       ((image_len + 1 - template_len) * n_templates * c + k * (image_len + 1 - template_len) + j)
     = (if s + (\<Sum>c'\<leftarrow>takeWhile (\<lambda>x. x \<noteq> c) xs.
                   channel_overflows rt templates n_templates template_len img image_len fft_len
                     used_chans c')
             + overflows_upto rt templates n_templates template_len img image_len fft_len
                 used_chans c (Suc k) = 0
        then shifted rt templates n_templates template_len img image_len fft_len used_chans
               pad_array c k j
        else sanitised rt templates n_templates template_len img image_len fft_len used_chans
               c k j)"
      using snoc.IH cx st by simp
    have "c \<noteq> x" using False by simp
    then have "(image_len + 1 - template_len) * n_templates * c
              + k * (image_len + 1 - template_len) + j
              < (image_len + 1 - template_len) * n_templates * x
            \<or> (image_len + 1 - template_len) * n_templates * x
                 + n_templates * (image_len + 1 - template_len)
               \<le> (image_len + 1 - template_len) * n_templates * c
                   + k * (image_len + 1 - template_len) + j"
      using k j by (rule slices_disjoint)
    then have "snd (snd (channel_body rt templates n_templates template_len img image_len fft_len
      used_chans pad_array (Plan_r2c_2d n_templates fft_len) (Plan_r2c_1d fft_len)
      (Plan_c2r_2d n_templates fft_len) x (r1, s1, ncc1)))
       ((image_len + 1 - template_len) * n_templates * c + k * (image_len + 1 - template_len) + j)
      = ncc1
       ((image_len + 1 - template_len) * n_templates * c + k * (image_len + 1 - template_len) + j)"
      by (rule channel_body_frame [OF le])
    then show ?thesis
      unfolding worker_snoc st tw ih .
  qed
qed

lemma earlier_snoc_in:
  assumes "c \<in> set w" and "c \<notin> set (concat ws)"
  shows "earlier (ws @ [w]) c = takeWhile (\<lambda>x. x \<noteq> c) w"
proof -
  have "filter (\<lambda>chans. c \<in> set chans) ws = []"
    using assms(2) by (auto simp: filter_empty_conv)
  then show ?thesis using assms(1) by (simp add: earlier_def)
qed

lemma earlier_snoc_out:
  assumes "c \<notin> set w"
  shows "earlier (ws @ [w]) c = earlier ws c"
  using assms by (simp add: earlier_def)

lemma loop_trace:
  assumes le: "template_len \<le> image_len"
    and k: "k < n_templates" and j: "j < image_len + 1 - template_len"
    and d: "distinct (concat sched)" and c: "c \<in> set (concat sched)"
  shows "snd (snd (fold (run_worker rt templates n_templates template_len img image_len fft_len
                           used_chans pad_array) sched (r, s, ncc)))
       ((image_len + 1 - template_len) * n_templates * c + k * (image_len + 1 - template_len) + j)
     = (if (\<Sum>c'\<leftarrow>earlier sched c.
                   channel_overflows rt templates n_templates template_len img image_len fft_len
                     used_chans c')
             + overflows_upto rt templates n_templates template_len img image_len fft_len
                 used_chans c (Suc k) = 0
        then shifted rt templates n_templates template_len img image_len fft_len used_chans
               pad_array c k j
        else sanitised rt templates n_templates template_len img image_len fft_len used_chans
               c k j)"
  using d c
proof (induction sched rule: rev_induct)
  case Nil
  then show ?case by simp
next
  case (snoc w ws)
  obtain r1 s1 ncc1 where st: "fold (run_worker rt templates n_templates template_len img
      image_len fft_len used_chans pad_array) ws (r, s, ncc) = (r1, s1, ncc1)"
    by (cases "fold (run_worker rt templates n_templates template_len img
      image_len fft_len used_chans pad_array) ws (r, s, ncc)") auto
  have dw: "distinct w" and dws: "distinct (concat ws)"
    and dj: "set (concat ws) \<inter> set w = {}"
    using snoc.prems(1) by simp_all
  show ?case
  proof (cases "c \<in> set w")
    case True
    then have "c \<notin> set (concat ws)" using dj by blast
    then have e: "earlier (ws @ [w]) c = takeWhile (\<lambda>x. x \<noteq> c) w"
      using True by (intro earlier_snoc_in)
    have "snd (snd (worker rt templates n_templates template_len img image_len fft_len used_chans
                     pad_array w (0, 0, ncc1)))
       ((image_len + 1 - template_len) * n_templates * c + k * (image_len + 1 - template_len) + j)
     = (if 0 + (\<Sum>c'\<leftarrow>takeWhile (\<lambda>x. x \<noteq> c) w.
                   channel_overflows rt templates n_templates template_len img image_len fft_len
                     used_chans c')
             + overflows_upto rt templates n_templates template_len img image_len fft_len
                 used_chans c (Suc k) = 0
        then shifted rt templates n_templates template_len img image_len fft_len used_chans
               pad_array c k j
        else sanitised rt templates n_templates template_len img image_len fft_len used_chans
               c k j)"
      using le k j dw True by (rule worker_trace)
    then show ?thesis
      unfolding fold_append comp_def fold_simps st run_worker_eq snd_conv e by simp
  next
    case False
    then have cw: "c \<in> set (concat ws)" using snoc.prems(2) by simp
    have e: "earlier (ws @ [w]) c = earlier ws c"
      using False by (rule earlier_snoc_out)
    have ih: "ncc1
       ((image_len + 1 - template_len) * n_templates * c + k * (image_len + 1 - template_len) + j)
     = (if (\<Sum>c'\<leftarrow>earlier ws c.
                   channel_overflows rt templates n_templates template_len img image_len fft_len
                     used_chans c')
             + overflows_upto rt templates n_templates template_len img image_len fft_len
                 used_chans c (Suc k) = 0
        then shifted rt templates n_templates template_len img image_len fft_len used_chans
               pad_array c k j
        else sanitised rt templates n_templates template_len img image_len fft_len used_chans
               c k j)"
      using snoc.IH [OF dws cw] st by simp
    have "snd (snd (worker rt templates n_templates template_len img image_len fft_len used_chans
          pad_array w (0, 0, ncc1)))
       ((image_len + 1 - template_len) * n_templates * c + k * (image_len + 1 - template_len) + j)
      = ncc1
       ((image_len + 1 - template_len) * n_templates * c + k * (image_len + 1 - template_len) + j)"
    proof (rule worker_frame [OF le])
      fix x assume "x \<in> set w"
      then have "c \<noteq> x" using False by auto
      then show "(image_len + 1 - template_len) * n_templates * c
              + k * (image_len + 1 - template_len) + j
              < (image_len + 1 - template_len) * n_templates * x
            \<or> (image_len + 1 - template_len) * n_templates * x
                 + n_templates * (image_len + 1 - template_len)
               \<le> (image_len + 1 - template_len) * n_templates * c
                   + k * (image_len + 1 - template_len) + j"
        using k j by (rule slices_disjoint)
    qed
    then show ?thesis
      unfolding fold_append comp_def fold_simps st run_worker_eq snd_conv e ih .
  qed
qed

lemma channel_loop_trace:
  assumes v: "valid_schedule (schedule rt) n_channels" and c: "c < n_channels"
    and k: "k < n_templates" and j: "j < image_len + 1 - template_len"
  shows "snd (snd (channel_loop rt templates n_templates template_len img image_len fft_len
                     used_chans pad_array ncc))
       ((image_len + 1 - template_len) * n_templates * c + k * (image_len + 1 - template_len) + j)
     = (if private_count rt templates n_templates template_len img image_len fft_len
             used_chans c k = 0
        then shifted rt templates n_templates template_len img image_len fft_len used_chans
               pad_array c k j
        else sanitised rt templates n_templates template_len img image_len fft_len used_chans
               c k j)"
proof -
  have le: "template_len \<le> image_len" using j by simp
  have d: "distinct (concat (schedule rt))" and m: "c \<in> set (concat (schedule rt))"
    using v c by (simp_all add: valid_schedule_def)
  show ?thesis
    unfolding channel_loop_def private_count_def using le k j d m by (rule loop_trace)
qed

section \<open>The pad step and the status\<close>

lemma routine_returns:
  assumes "multi_normxcorr_fftw_calloc rt templates n_templates template_len n_channels img
             image_len ncc fft_len used_chans pad_array = Inr (st, y, h)"
  shows "h = {}"
    and "st = 1 \<or> st = - 1 \<or> st = 0"
    and "st = 1 \<Longrightarrow> y = ncc"
    and "st \<noteq> 1 \<Longrightarrow> \<not> (\<exists>k<6 + 6 * num_threads_of rt n_channels. alloc_fails rt k)"
    and "st = - 1 \<Longrightarrow> y = snd (snd (channel_loop rt templates n_templates template_len img
                                       image_len fft_len used_chans pad_array ncc))"
    and "st = 0 \<Longrightarrow> y = accumulate n_templates n_channels (image_len + 1 - template_len)
                         (snd (snd (channel_loop rt templates n_templates template_len img
                                       image_len fft_len used_chans pad_array ncc)))"
    and "(st = 0) = (st \<noteq> 1 \<and> fst (snd (channel_loop rt templates n_templates template_len img
                                       image_len fft_len used_chans pad_array ncc)) = 0)"
    and "st \<noteq> 1 \<Longrightarrow> multi_normxcorr_fftw rt templates n_templates template_len n_channels img
             image_len ncc fft_len used_chans pad_array = (st, y, h)"
proof -
  let ?A = "\<exists>k<6 + 6 * num_threads_of rt n_channels. alloc_fails rt k"
  let ?s = "fst (snd (channel_loop rt templates n_templates template_len img
                                       image_len fft_len used_chans pad_array ncc))"
  let ?y = "snd (snd (channel_loop rt templates n_templates template_len img
                                       image_len fft_len used_chans pad_array ncc))"
  have c: "(?A \<and> st = 1 \<and> y = ncc \<and> h = {})
         \<or> (\<not> ?A \<and> ?s \<noteq> 0 \<and> st = - 1 \<and> y = ?y \<and> h = {})
         \<or> (\<not> ?A \<and> ?s = 0 \<and> st = 0
              \<and> y = accumulate n_templates n_channels (image_len + 1 - template_len) ?y
              \<and> h = {})"
  proof (cases ?A)
    case True
    then show ?thesis using assms by (simp add: multi_calloc_eq)
  next
    case False
    then have "multi_normxcorr_fftw rt templates n_templates template_len n_channels img
             image_len ncc fft_len used_chans pad_array = (st, y, h)"
      using assms by (simp add: multi_calloc_eq split: if_splits)
    then show ?thesis
      using False unfolding multi_ok [OF False] by (auto split: if_splits)
  qed
  show "h = {}" using c by blast
  show "st = 1 \<or> st = - 1 \<or> st = 0" using c by blast
  show "st = 1 \<Longrightarrow> y = ncc" using c by auto
  show "st \<noteq> 1 \<Longrightarrow> \<not> ?A" using c by auto
  show "st = - 1 \<Longrightarrow> y = ?y" using c by auto
  show "st = 0 \<Longrightarrow> y = accumulate n_templates n_channels (image_len + 1 - template_len) ?y"
    using c by auto
  show "(st = 0) = (st \<noteq> 1 \<and> ?s = 0)" using c by auto
  show "st \<noteq> 1 \<Longrightarrow> multi_normxcorr_fftw rt templates n_templates template_len n_channels img
             image_len ncc fft_len used_chans pad_array = (st, y, h)"
    using assms by (auto simp: multi_calloc_eq split: if_splits dest: multi_fail)
qed


lemma example_out:
  assumes "k < 2" "j < 2"
  shows "channel_out rt (\<lambda>i. Fin (if i = 3 then 2 else if odd i then 1 / 2 else 0)) 2 2 (\<lambda>i. Fin (real i)) 3 4 0 (k * 2 + j) =
         Fin (val ((\<lambda>i. Fin (if i = 3 then 2 else if odd i then 1 / 2 else 0)) (k * 2 + 1)) - val ((\<lambda>i. Fin (if i = 3 then 2 else if odd i then 1 / 2 else 0)) (k * 2)))"
proof -
  have "channel_out rt (\<lambda>i. Fin (if i = 3 then 2 else if odd i then 1 / 2 else 0)) 2 2 (\<lambda>i. Fin (real i)) 3 4 0 (k * (3 + 1 - 2) + j) =
         Fin (val ((\<lambda>i. Fin (if i = 3 then 2 else if odd i then 1 / 2 else 0)) (2 * 2 * 0 + (k * 2 + 1))) - val ((\<lambda>i. Fin (if i = 3 then 2 else if odd i then 1 / 2 else 0)) (2 * 2 * 0 + k * 2)))"
    by (rule channel_out_rising) (use assms in simp_all)
  then show ?thesis by simp
qed

lemma example_cells:
  "channel_out rt (\<lambda>i. Fin (if i = 3 then 2 else if odd i then 1 / 2 else 0)) 2 2 (\<lambda>i. Fin (real i)) 3 4 0 0 = Fin (1 / 2)"
  "channel_out rt (\<lambda>i. Fin (if i = 3 then 2 else if odd i then 1 / 2 else 0)) 2 2 (\<lambda>i. Fin (real i)) 3 4 0 1 = Fin (1 / 2)"
  "channel_out rt (\<lambda>i. Fin (if i = 3 then 2 else if odd i then 1 / 2 else 0)) 2 2 (\<lambda>i. Fin (real i)) 3 4 0 2 = Fin 2"
  "channel_out rt (\<lambda>i. Fin (if i = 3 then 2 else if odd i then 1 / 2 else 0)) 2 2 (\<lambda>i. Fin (real i)) 3 4 0 3 = Fin 2"
  using example_out [of 0 0 rt] example_out [of 0 1 rt]
    example_out [of 1 0 rt] example_out [of 1 1 rt]
  by simp_all


lemma example_counts:
  "trace_overflows (channel_out rt (\<lambda>i. Fin (if i = 3 then 2 else if odd i then 1 / 2 else 0)) 2 2 (\<lambda>i. Fin (real i)) 3 4 0) 0 2 = 0"
  "trace_overflows (channel_out rt (\<lambda>i. Fin (if i = 3 then 2 else if odd i then 1 / 2 else 0)) 2 2 (\<lambda>i. Fin (real i)) 3 4 0) 2 2 \<noteq> 0"
proof -
  have a: "\<not> overflows (channel_out rt (\<lambda>i. Fin (if i = 3 then 2 else if odd i then 1 / 2 else 0)) 2 2 (\<lambda>i. Fin (real i)) 3 4 0 0)"
    unfolding example_cells overflows_Fin by simp
  have b: "\<not> overflows (channel_out rt (\<lambda>i. Fin (if i = 3 then 2 else if odd i then 1 / 2 else 0)) 2 2 (\<lambda>i. Fin (real i)) 3 4 0 1)"
    unfolding example_cells overflows_Fin by simp
  show "trace_overflows (channel_out rt (\<lambda>i. Fin (if i = 3 then 2 else if odd i then 1 / 2 else 0)) 2 2 (\<lambda>i. Fin (real i)) 3 4 0) 0 2 = 0"
    unfolding trace_overflows_zero
  proof (intro allI impI)
    fix k :: nat assume "k < 2"
    then consider "k = 0" | "k = 1" by linarith
    then show "\<not> overflows (channel_out rt (\<lambda>i. Fin (if i = 3 then 2 else if odd i then 1 / 2 else 0)) 2 2 (\<lambda>i. Fin (real i)) 3 4 0 (0 + k))"
    proof cases
      case 1
      show ?thesis unfolding 1 add_0 by (rule a)
    next
      case 2
      show ?thesis unfolding 2 add_0 by (rule b)
    qed
  qed
  have "overflows (channel_out rt (\<lambda>i. Fin (if i = 3 then 2 else if odd i then 1 / 2 else 0)) 2 2 (\<lambda>i. Fin (real i)) 3 4 0 (2 + 0))"
    unfolding add_0_right example_cells overflows_Fin by simp
  moreover have "(0::nat) < 2" by simp
  ultimately have "\<exists>k<2. overflows (channel_out rt (\<lambda>i. Fin (if i = 3 then 2 else if odd i then 1 / 2 else 0)) 2 2 (\<lambda>i. Fin (real i)) 3 4 0 (2 + k))"
    by blast
  then show "trace_overflows (channel_out rt (\<lambda>i. Fin (if i = 3 then 2 else if odd i then 1 / 2 else 0)) 2 2 (\<lambda>i. Fin (real i)) 3 4 0) 2 2 \<noteq> 0"
    unfolding trace_overflows_zero by blast
qed

lemma example_loop:
  "snd (snd (channel_loop \<lparr>N_THREADS = None, alloc_fails = (\<lambda>_. False), schedule = [[0]],
          scratch = (\<lambda>_. \<lparr>ws_ccc = (\<lambda>_. Fin 0), ws_outa = (\<lambda>_. (Fin 0, Fin 0)),
                        ws_outb = (\<lambda>_. (Fin 0, Fin 0)), ws_out = (\<lambda>_. (Fin 0, Fin 0))\<rparr>)\<rparr> (\<lambda>i. Fin (if i = 3 then 2 else if odd i then 1 / 2 else 0)) 2 2 (\<lambda>i. Fin (real i)) 3 4
         (\<lambda>_. 1) (\<lambda>i. if i = 0 then 1 else 0) (\<lambda>_. NaN))) 1 = Fin 0"
  "snd (snd (channel_loop \<lparr>N_THREADS = None, alloc_fails = (\<lambda>_. False), schedule = [[0]],
          scratch = (\<lambda>_. \<lparr>ws_ccc = (\<lambda>_. Fin 0), ws_outa = (\<lambda>_. (Fin 0, Fin 0)),
                        ws_outb = (\<lambda>_. (Fin 0, Fin 0)), ws_out = (\<lambda>_. (Fin 0, Fin 0))\<rparr>)\<rparr> (\<lambda>i. Fin (if i = 3 then 2 else if odd i then 1 / 2 else 0)) 2 2 (\<lambda>i. Fin (real i)) 3 4
         (\<lambda>_. 1) (\<lambda>i. if i = 0 then 1 else 0) (\<lambda>_. NaN))) 2 = Fin 2"
  "sanitised \<lparr>N_THREADS = None, alloc_fails = (\<lambda>_. False), schedule = [[0]],
          scratch = (\<lambda>_. \<lparr>ws_ccc = (\<lambda>_. Fin 0), ws_outa = (\<lambda>_. (Fin 0, Fin 0)),
                        ws_outb = (\<lambda>_. (Fin 0, Fin 0)), ws_out = (\<lambda>_. (Fin 0, Fin 0))\<rparr>)\<rparr> (\<lambda>i. Fin (if i = 3 then 2 else if odd i then 1 / 2 else 0)) 2 2 (\<lambda>i. Fin (real i)) 3 4 (\<lambda>_. 1) 0 0 1 = Fin (1 / 2)"
proof -
  have v: "valid_schedule (schedule \<lparr>N_THREADS = None, alloc_fails = (\<lambda>_. False), schedule = [[0]],
          scratch = (\<lambda>_. \<lparr>ws_ccc = (\<lambda>_. Fin 0), ws_outa = (\<lambda>_. (Fin 0, Fin 0)),
                        ws_outb = (\<lambda>_. (Fin 0, Fin 0)), ws_out = (\<lambda>_. (Fin 0, Fin 0))\<rparr>)\<rparr>) 1"
    by (auto simp: valid_schedule_def)
  have i1: "(3 + 1 - 2) * 2 * 0 + 0 * (3 + 1 - 2) + 1 = (1::nat)" by simp
  have i2: "(3 + 1 - 2) * 2 * 0 + 1 * (3 + 1 - 2) + 0 = (2::nat)" by simp
  have e: "earlier (schedule \<lparr>N_THREADS = None, alloc_fails = (\<lambda>_. False), schedule = [[0]],
          scratch = (\<lambda>_. \<lparr>ws_ccc = (\<lambda>_. Fin 0), ws_outa = (\<lambda>_. (Fin 0, Fin 0)),
                        ws_outb = (\<lambda>_. (Fin 0, Fin 0)), ws_out = (\<lambda>_. (Fin 0, Fin 0))\<rparr>)\<rparr>) 0 = []"
    by (simp add: earlier_def)
  have u1: "overflows_upto \<lparr>N_THREADS = None, alloc_fails = (\<lambda>_. False), schedule = [[0]],
          scratch = (\<lambda>_. \<lparr>ws_ccc = (\<lambda>_. Fin 0), ws_outa = (\<lambda>_. (Fin 0, Fin 0)),
                        ws_outb = (\<lambda>_. (Fin 0, Fin 0)), ws_out = (\<lambda>_. (Fin 0, Fin 0))\<rparr>)\<rparr> (\<lambda>i. Fin (if i = 3 then 2 else if odd i then 1 / 2 else 0)) 2 2 (\<lambda>i. Fin (real i)) 3 4 (\<lambda>_. 1) 0 (Suc 0) =
            trace_overflows (channel_out \<lparr>N_THREADS = None, alloc_fails = (\<lambda>_. False), schedule = [[0]],
          scratch = (\<lambda>_. \<lparr>ws_ccc = (\<lambda>_. Fin 0), ws_outa = (\<lambda>_. (Fin 0, Fin 0)),
                        ws_outb = (\<lambda>_. (Fin 0, Fin 0)), ws_out = (\<lambda>_. (Fin 0, Fin 0))\<rparr>)\<rparr> (\<lambda>i. Fin (if i = 3 then 2 else if odd i then 1 / 2 else 0)) 2 2 (\<lambda>i. Fin (real i)) 3 4 0) 0 2"
    by (simp add: overflows_upto_def)
  have u2: "overflows_upto \<lparr>N_THREADS = None, alloc_fails = (\<lambda>_. False), schedule = [[0]],
          scratch = (\<lambda>_. \<lparr>ws_ccc = (\<lambda>_. Fin 0), ws_outa = (\<lambda>_. (Fin 0, Fin 0)),
                        ws_outb = (\<lambda>_. (Fin 0, Fin 0)), ws_out = (\<lambda>_. (Fin 0, Fin 0))\<rparr>)\<rparr> (\<lambda>i. Fin (if i = 3 then 2 else if odd i then 1 / 2 else 0)) 2 2 (\<lambda>i. Fin (real i)) 3 4 (\<lambda>_. 1) 0 (Suc 1) =
            trace_overflows (channel_out \<lparr>N_THREADS = None, alloc_fails = (\<lambda>_. False), schedule = [[0]],
          scratch = (\<lambda>_. \<lparr>ws_ccc = (\<lambda>_. Fin 0), ws_outa = (\<lambda>_. (Fin 0, Fin 0)),
                        ws_outb = (\<lambda>_. (Fin 0, Fin 0)), ws_out = (\<lambda>_. (Fin 0, Fin 0))\<rparr>)\<rparr> (\<lambda>i. Fin (if i = 3 then 2 else if odd i then 1 / 2 else 0)) 2 2 (\<lambda>i. Fin (real i)) 3 4 0) 0 2
            + trace_overflows (channel_out \<lparr>N_THREADS = None, alloc_fails = (\<lambda>_. False), schedule = [[0]],
          scratch = (\<lambda>_. \<lparr>ws_ccc = (\<lambda>_. Fin 0), ws_outa = (\<lambda>_. (Fin 0, Fin 0)),
                        ws_outb = (\<lambda>_. (Fin 0, Fin 0)), ws_out = (\<lambda>_. (Fin 0, Fin 0))\<rparr>)\<rparr> (\<lambda>i. Fin (if i = 3 then 2 else if odd i then 1 / 2 else 0)) 2 2 (\<lambda>i. Fin (real i)) 3 4 0) 2 2"
    by (simp add: overflows_upto_def)
  have p0: "private_count \<lparr>N_THREADS = None, alloc_fails = (\<lambda>_. False), schedule = [[0]],
          scratch = (\<lambda>_. \<lparr>ws_ccc = (\<lambda>_. Fin 0), ws_outa = (\<lambda>_. (Fin 0, Fin 0)),
                        ws_outb = (\<lambda>_. (Fin 0, Fin 0)), ws_out = (\<lambda>_. (Fin 0, Fin 0))\<rparr>)\<rparr> (\<lambda>i. Fin (if i = 3 then 2 else if odd i then 1 / 2 else 0)) 2 2 (\<lambda>i. Fin (real i)) 3 4 (\<lambda>_. 1) 0 0 = 0"
    unfolding private_count_def e u1 example_counts by simp
  have p1: "private_count \<lparr>N_THREADS = None, alloc_fails = (\<lambda>_. False), schedule = [[0]],
          scratch = (\<lambda>_. \<lparr>ws_ccc = (\<lambda>_. Fin 0), ws_outa = (\<lambda>_. (Fin 0, Fin 0)),
                        ws_outb = (\<lambda>_. (Fin 0, Fin 0)), ws_out = (\<lambda>_. (Fin 0, Fin 0))\<rparr>)\<rparr> (\<lambda>i. Fin (if i = 3 then 2 else if odd i then 1 / 2 else 0)) 2 2 (\<lambda>i. Fin (real i)) 3 4 (\<lambda>_. 1) 0 1 \<noteq> 0"
    unfolding private_count_def e u2 example_counts(1) using example_counts(2) by simp
  have s1: "shifted \<lparr>N_THREADS = None, alloc_fails = (\<lambda>_. False), schedule = [[0]],
          scratch = (\<lambda>_. \<lparr>ws_ccc = (\<lambda>_. Fin 0), ws_outa = (\<lambda>_. (Fin 0, Fin 0)),
                        ws_outb = (\<lambda>_. (Fin 0, Fin 0)), ws_out = (\<lambda>_. (Fin 0, Fin 0))\<rparr>)\<rparr> (\<lambda>i. Fin (if i = 3 then 2 else if odd i then 1 / 2 else 0)) 2 2 (\<lambda>i. Fin (real i)) 3 4 (\<lambda>_. 1)
                (\<lambda>i. if i = 0 then 1 else 0) 0 0 1 = Fin 0"
    by (simp add: shifted_def size_t_of_int_def)
  have c2: "clamped (Fin 2) = Fin 2" "clamped (Fin (1 / 2)) = Fin (1 / 2)"
    by (simp_all add: clamped_def isnanf_def fgt_def)
  have s2: "sanitised \<lparr>N_THREADS = None, alloc_fails = (\<lambda>_. False), schedule = [[0]],
          scratch = (\<lambda>_. \<lparr>ws_ccc = (\<lambda>_. Fin 0), ws_outa = (\<lambda>_. (Fin 0, Fin 0)),
                        ws_outb = (\<lambda>_. (Fin 0, Fin 0)), ws_out = (\<lambda>_. (Fin 0, Fin 0))\<rparr>)\<rparr> (\<lambda>i. Fin (if i = 3 then 2 else if odd i then 1 / 2 else 0)) 2 2 (\<lambda>i. Fin (real i)) 3 4 (\<lambda>_. 1) 0 1 0 =
            clamped (channel_out \<lparr>N_THREADS = None, alloc_fails = (\<lambda>_. False), schedule = [[0]],
          scratch = (\<lambda>_. \<lparr>ws_ccc = (\<lambda>_. Fin 0), ws_outa = (\<lambda>_. (Fin 0, Fin 0)),
                        ws_outb = (\<lambda>_. (Fin 0, Fin 0)), ws_out = (\<lambda>_. (Fin 0, Fin 0))\<rparr>)\<rparr> (\<lambda>i. Fin (if i = 3 then 2 else if odd i then 1 / 2 else 0)) 2 2 (\<lambda>i. Fin (real i)) 3 4 0 2)"
    by (simp add: sanitised_def)
  have s3: "sanitised \<lparr>N_THREADS = None, alloc_fails = (\<lambda>_. False), schedule = [[0]],
          scratch = (\<lambda>_. \<lparr>ws_ccc = (\<lambda>_. Fin 0), ws_outa = (\<lambda>_. (Fin 0, Fin 0)),
                        ws_outb = (\<lambda>_. (Fin 0, Fin 0)), ws_out = (\<lambda>_. (Fin 0, Fin 0))\<rparr>)\<rparr> (\<lambda>i. Fin (if i = 3 then 2 else if odd i then 1 / 2 else 0)) 2 2 (\<lambda>i. Fin (real i)) 3 4 (\<lambda>_. 1) 0 0 1 =
            clamped (channel_out \<lparr>N_THREADS = None, alloc_fails = (\<lambda>_. False), schedule = [[0]],
          scratch = (\<lambda>_. \<lparr>ws_ccc = (\<lambda>_. Fin 0), ws_outa = (\<lambda>_. (Fin 0, Fin 0)),
                        ws_outb = (\<lambda>_. (Fin 0, Fin 0)), ws_out = (\<lambda>_. (Fin 0, Fin 0))\<rparr>)\<rparr> (\<lambda>i. Fin (if i = 3 then 2 else if odd i then 1 / 2 else 0)) 2 2 (\<lambda>i. Fin (real i)) 3 4 0 1)"
    by (simp add: sanitised_def)
  have "snd (snd (channel_loop \<lparr>N_THREADS = None, alloc_fails = (\<lambda>_. False), schedule = [[0]],
          scratch = (\<lambda>_. \<lparr>ws_ccc = (\<lambda>_. Fin 0), ws_outa = (\<lambda>_. (Fin 0, Fin 0)),
                        ws_outb = (\<lambda>_. (Fin 0, Fin 0)), ws_out = (\<lambda>_. (Fin 0, Fin 0))\<rparr>)\<rparr> (\<lambda>i. Fin (if i = 3 then 2 else if odd i then 1 / 2 else 0)) 2 2 (\<lambda>i. Fin (real i)) 3 4
         (\<lambda>_. 1) (\<lambda>i. if i = 0 then 1 else 0) (\<lambda>_. NaN)))
          ((3 + 1 - 2) * 2 * 0 + 0 * (3 + 1 - 2) + 1) =
        (if private_count \<lparr>N_THREADS = None, alloc_fails = (\<lambda>_. False), schedule = [[0]],
          scratch = (\<lambda>_. \<lparr>ws_ccc = (\<lambda>_. Fin 0), ws_outa = (\<lambda>_. (Fin 0, Fin 0)),
                        ws_outb = (\<lambda>_. (Fin 0, Fin 0)), ws_out = (\<lambda>_. (Fin 0, Fin 0))\<rparr>)\<rparr> (\<lambda>i. Fin (if i = 3 then 2 else if odd i then 1 / 2 else 0)) 2 2 (\<lambda>i. Fin (real i)) 3 4 (\<lambda>_. 1) 0 0 = 0
         then shifted \<lparr>N_THREADS = None, alloc_fails = (\<lambda>_. False), schedule = [[0]],
          scratch = (\<lambda>_. \<lparr>ws_ccc = (\<lambda>_. Fin 0), ws_outa = (\<lambda>_. (Fin 0, Fin 0)),
                        ws_outb = (\<lambda>_. (Fin 0, Fin 0)), ws_out = (\<lambda>_. (Fin 0, Fin 0))\<rparr>)\<rparr> (\<lambda>i. Fin (if i = 3 then 2 else if odd i then 1 / 2 else 0)) 2 2 (\<lambda>i. Fin (real i)) 3 4 (\<lambda>_. 1)
                (\<lambda>i. if i = 0 then 1 else 0) 0 0 1
         else sanitised \<lparr>N_THREADS = None, alloc_fails = (\<lambda>_. False), schedule = [[0]],
          scratch = (\<lambda>_. \<lparr>ws_ccc = (\<lambda>_. Fin 0), ws_outa = (\<lambda>_. (Fin 0, Fin 0)),
                        ws_outb = (\<lambda>_. (Fin 0, Fin 0)), ws_out = (\<lambda>_. (Fin 0, Fin 0))\<rparr>)\<rparr> (\<lambda>i. Fin (if i = 3 then 2 else if odd i then 1 / 2 else 0)) 2 2 (\<lambda>i. Fin (real i)) 3 4 (\<lambda>_. 1) 0 0 1)"
    by (rule channel_loop_trace [OF v]) simp_all
  then show "snd (snd (channel_loop \<lparr>N_THREADS = None, alloc_fails = (\<lambda>_. False), schedule = [[0]],
          scratch = (\<lambda>_. \<lparr>ws_ccc = (\<lambda>_. Fin 0), ws_outa = (\<lambda>_. (Fin 0, Fin 0)),
                        ws_outb = (\<lambda>_. (Fin 0, Fin 0)), ws_out = (\<lambda>_. (Fin 0, Fin 0))\<rparr>)\<rparr> (\<lambda>i. Fin (if i = 3 then 2 else if odd i then 1 / 2 else 0)) 2 2 (\<lambda>i. Fin (real i)) 3 4
         (\<lambda>_. 1) (\<lambda>i. if i = 0 then 1 else 0) (\<lambda>_. NaN))) 1 = Fin 0"
    unfolding i1 if_P [OF p0] s1 .
  have "snd (snd (channel_loop \<lparr>N_THREADS = None, alloc_fails = (\<lambda>_. False), schedule = [[0]],
          scratch = (\<lambda>_. \<lparr>ws_ccc = (\<lambda>_. Fin 0), ws_outa = (\<lambda>_. (Fin 0, Fin 0)),
                        ws_outb = (\<lambda>_. (Fin 0, Fin 0)), ws_out = (\<lambda>_. (Fin 0, Fin 0))\<rparr>)\<rparr> (\<lambda>i. Fin (if i = 3 then 2 else if odd i then 1 / 2 else 0)) 2 2 (\<lambda>i. Fin (real i)) 3 4
         (\<lambda>_. 1) (\<lambda>i. if i = 0 then 1 else 0) (\<lambda>_. NaN)))
          ((3 + 1 - 2) * 2 * 0 + 1 * (3 + 1 - 2) + 0) =
        (if private_count \<lparr>N_THREADS = None, alloc_fails = (\<lambda>_. False), schedule = [[0]],
          scratch = (\<lambda>_. \<lparr>ws_ccc = (\<lambda>_. Fin 0), ws_outa = (\<lambda>_. (Fin 0, Fin 0)),
                        ws_outb = (\<lambda>_. (Fin 0, Fin 0)), ws_out = (\<lambda>_. (Fin 0, Fin 0))\<rparr>)\<rparr> (\<lambda>i. Fin (if i = 3 then 2 else if odd i then 1 / 2 else 0)) 2 2 (\<lambda>i. Fin (real i)) 3 4 (\<lambda>_. 1) 0 1 = 0
         then shifted \<lparr>N_THREADS = None, alloc_fails = (\<lambda>_. False), schedule = [[0]],
          scratch = (\<lambda>_. \<lparr>ws_ccc = (\<lambda>_. Fin 0), ws_outa = (\<lambda>_. (Fin 0, Fin 0)),
                        ws_outb = (\<lambda>_. (Fin 0, Fin 0)), ws_out = (\<lambda>_. (Fin 0, Fin 0))\<rparr>)\<rparr> (\<lambda>i. Fin (if i = 3 then 2 else if odd i then 1 / 2 else 0)) 2 2 (\<lambda>i. Fin (real i)) 3 4 (\<lambda>_. 1)
                (\<lambda>i. if i = 0 then 1 else 0) 0 1 0
         else sanitised \<lparr>N_THREADS = None, alloc_fails = (\<lambda>_. False), schedule = [[0]],
          scratch = (\<lambda>_. \<lparr>ws_ccc = (\<lambda>_. Fin 0), ws_outa = (\<lambda>_. (Fin 0, Fin 0)),
                        ws_outb = (\<lambda>_. (Fin 0, Fin 0)), ws_out = (\<lambda>_. (Fin 0, Fin 0))\<rparr>)\<rparr> (\<lambda>i. Fin (if i = 3 then 2 else if odd i then 1 / 2 else 0)) 2 2 (\<lambda>i. Fin (real i)) 3 4 (\<lambda>_. 1) 0 1 0)"
    by (rule channel_loop_trace [OF v]) simp_all
  then show "snd (snd (channel_loop \<lparr>N_THREADS = None, alloc_fails = (\<lambda>_. False), schedule = [[0]],
          scratch = (\<lambda>_. \<lparr>ws_ccc = (\<lambda>_. Fin 0), ws_outa = (\<lambda>_. (Fin 0, Fin 0)),
                        ws_outb = (\<lambda>_. (Fin 0, Fin 0)), ws_out = (\<lambda>_. (Fin 0, Fin 0))\<rparr>)\<rparr> (\<lambda>i. Fin (if i = 3 then 2 else if odd i then 1 / 2 else 0)) 2 2 (\<lambda>i. Fin (real i)) 3 4
         (\<lambda>_. 1) (\<lambda>i. if i = 0 then 1 else 0) (\<lambda>_. NaN))) 2 = Fin 2"
    unfolding i2 if_not_P [OF p1] s2 example_cells c2 .
  show "sanitised \<lparr>N_THREADS = None, alloc_fails = (\<lambda>_. False), schedule = [[0]],
          scratch = (\<lambda>_. \<lparr>ws_ccc = (\<lambda>_. Fin 0), ws_outa = (\<lambda>_. (Fin 0, Fin 0)),
                        ws_outb = (\<lambda>_. (Fin 0, Fin 0)), ws_out = (\<lambda>_. (Fin 0, Fin 0))\<rparr>)\<rparr> (\<lambda>i. Fin (if i = 3 then 2 else if odd i then 1 / 2 else 0)) 2 2 (\<lambda>i. Fin (real i)) 3 4 (\<lambda>_. 1) 0 0 1 = Fin (1 / 2)"
    unfolding s3 example_cells c2 ..
qed


lemma example_returns:
  "multi_normxcorr_fftw_calloc \<lparr>N_THREADS = None, alloc_fails = (\<lambda>_. False), schedule = [[0]],
          scratch = (\<lambda>_. \<lparr>ws_ccc = (\<lambda>_. Fin 0), ws_outa = (\<lambda>_. (Fin 0, Fin 0)),
                        ws_outb = (\<lambda>_. (Fin 0, Fin 0)), ws_out = (\<lambda>_. (Fin 0, Fin 0))\<rparr>)\<rparr> (\<lambda>i. Fin (if i = 3 then 2 else if odd i then 1 / 2 else 0)) 2 2 1 (\<lambda>i. Fin (real i)) 3 (\<lambda>_. NaN) 4
       (\<lambda>_. 1) (\<lambda>i. if i = 0 then 1 else 0) =
     Inr (- 1, snd (snd (channel_loop \<lparr>N_THREADS = None, alloc_fails = (\<lambda>_. False), schedule = [[0]],
          scratch = (\<lambda>_. \<lparr>ws_ccc = (\<lambda>_. Fin 0), ws_outa = (\<lambda>_. (Fin 0, Fin 0)),
                        ws_outb = (\<lambda>_. (Fin 0, Fin 0)), ws_out = (\<lambda>_. (Fin 0, Fin 0))\<rparr>)\<rparr> (\<lambda>i. Fin (if i = 3 then 2 else if odd i then 1 / 2 else 0)) 2 2 (\<lambda>i. Fin (real i)) 3 4
         (\<lambda>_. 1) (\<lambda>i. if i = 0 then 1 else 0) (\<lambda>_. NaN))), {})"
proof -
  let ?M = "multi_normxcorr_fftw \<lparr>N_THREADS = None, alloc_fails = (\<lambda>_. False), schedule = [[0]],
          scratch = (\<lambda>_. \<lparr>ws_ccc = (\<lambda>_. Fin 0), ws_outa = (\<lambda>_. (Fin 0, Fin 0)),
                        ws_outb = (\<lambda>_. (Fin 0, Fin 0)), ws_out = (\<lambda>_. (Fin 0, Fin 0))\<rparr>)\<rparr> (\<lambda>i. Fin (if i = 3 then 2 else if odd i then 1 / 2 else 0)) 2 2 1 (\<lambda>i. Fin (real i)) 3 (\<lambda>_. NaN) 4
       (\<lambda>_. 1) (\<lambda>i. if i = 0 then 1 else 0)"
  have a: "\<not> (\<exists>k<6 + 6 * num_threads_of \<lparr>N_THREADS = None, alloc_fails = (\<lambda>_. False), schedule = [[0]],
          scratch = (\<lambda>_. \<lparr>ws_ccc = (\<lambda>_. Fin 0), ws_outa = (\<lambda>_. (Fin 0, Fin 0)),
                        ws_outb = (\<lambda>_. (Fin 0, Fin 0)), ws_out = (\<lambda>_. (Fin 0, Fin 0))\<rparr>)\<rparr> 1. alloc_fails \<lparr>N_THREADS = None, alloc_fails = (\<lambda>_. False), schedule = [[0]],
          scratch = (\<lambda>_. \<lparr>ws_ccc = (\<lambda>_. Fin 0), ws_outa = (\<lambda>_. (Fin 0, Fin 0)),
                        ws_outb = (\<lambda>_. (Fin 0, Fin 0)), ws_out = (\<lambda>_. (Fin 0, Fin 0))\<rparr>)\<rparr> k)"
    by simp
  have "fst ?M = (if \<exists>c\<in>set (concat (schedule \<lparr>N_THREADS = None, alloc_fails = (\<lambda>_. False), schedule = [[0]],
          scratch = (\<lambda>_. \<lparr>ws_ccc = (\<lambda>_. Fin 0), ws_outa = (\<lambda>_. (Fin 0, Fin 0)),
                        ws_outb = (\<lambda>_. (Fin 0, Fin 0)), ws_out = (\<lambda>_. (Fin 0, Fin 0))\<rparr>)\<rparr>)). \<exists>k<2.
                 (\<lambda>_. 1::int) (c * 2 + k) \<noteq> 0
               \<and> 101 / 100 < \<bar>val ((\<lambda>i. Fin (if i = 3 then 2 else if odd i then 1 / 2 else 0)) (2 * 2 * c + (k * 2 + 1)))
                                - val ((\<lambda>i. Fin (if i = 3 then 2 else if odd i then 1 / 2 else 0)) (2 * 2 * c + k * 2))\<bar>
          then - 1 else 0)"
    by (rule rising_status [OF a]) simp_all
  moreover have "\<exists>c\<in>set (concat (schedule \<lparr>N_THREADS = None, alloc_fails = (\<lambda>_. False), schedule = [[0]],
          scratch = (\<lambda>_. \<lparr>ws_ccc = (\<lambda>_. Fin 0), ws_outa = (\<lambda>_. (Fin 0, Fin 0)),
                        ws_outb = (\<lambda>_. (Fin 0, Fin 0)), ws_out = (\<lambda>_. (Fin 0, Fin 0))\<rparr>)\<rparr>)). \<exists>k<2.
                 (\<lambda>_. 1::int) (c * 2 + k) \<noteq> 0
               \<and> 101 / 100 < \<bar>val ((\<lambda>i. Fin (if i = 3 then 2 else if odd i then 1 / 2 else 0)) (2 * 2 * c + (k * 2 + 1)))
                                - val ((\<lambda>i. Fin (if i = 3 then 2 else if odd i then 1 / 2 else 0)) (2 * 2 * c + k * 2))\<bar>"
    by (intro bexI [of _ 0] exI [of _ 1]) simp_all
  ultimately have "fst ?M = - 1" by (simp only: if_True)
  then have "?M = (- 1, snd (snd (channel_loop \<lparr>N_THREADS = None, alloc_fails = (\<lambda>_. False), schedule = [[0]],
          scratch = (\<lambda>_. \<lparr>ws_ccc = (\<lambda>_. Fin 0), ws_outa = (\<lambda>_. (Fin 0, Fin 0)),
                        ws_outb = (\<lambda>_. (Fin 0, Fin 0)), ws_out = (\<lambda>_. (Fin 0, Fin 0))\<rparr>)\<rparr> (\<lambda>i. Fin (if i = 3 then 2 else if odd i then 1 / 2 else 0)) 2 2 (\<lambda>i. Fin (real i)) 3 4
         (\<lambda>_. 1) (\<lambda>i. if i = 0 then 1 else 0) (\<lambda>_. NaN))), {})"
    unfolding multi_ok [OF a] by (simp split: if_splits)
  then show ?thesis
    by (simp add: multi_calloc_eq)
qed

text \<open>
  C8 claims that in a call that returns \<open>-1\<close> no trace is shifted by its pad. The test
  \<^verbatim>\<open>s == 0\<close> of the pad step reads the counter of the worker at the moment the trace has
  been sanitised, not the count of the whole call. On one channel with two kept traces,
  the first with pad \<open>1\<close> and values \<open>1/2\<close>, the second with values \<open>2\<close>, the call returns
  \<open>-1\<close>, and the first trace has been shifted: its sample \<open>1\<close> is the \<open>0\<close> of the pad, where
  the sanitised trace has \<open>1/2\<close>.
\<close>

theorem pad_skipped_counterexample:
  "multi_normxcorr_fftw_calloc \<lparr>N_THREADS = None, alloc_fails = (\<lambda>_. False), schedule = [[0]],
          scratch = (\<lambda>_. \<lparr>ws_ccc = (\<lambda>_. Fin 0), ws_outa = (\<lambda>_. (Fin 0, Fin 0)),
                        ws_outb = (\<lambda>_. (Fin 0, Fin 0)), ws_out = (\<lambda>_. (Fin 0, Fin 0))\<rparr>)\<rparr> (\<lambda>i. Fin (if i = 3 then 2 else if odd i then 1 / 2 else 0)) 2 2 1 (\<lambda>i. Fin (real i)) 3 (\<lambda>_. NaN) 4
       (\<lambda>_. 1) (\<lambda>i. if i = 0 then 1 else 0) =
     Inr (- 1, snd (snd (channel_loop \<lparr>N_THREADS = None, alloc_fails = (\<lambda>_. False), schedule = [[0]],
          scratch = (\<lambda>_. \<lparr>ws_ccc = (\<lambda>_. Fin 0), ws_outa = (\<lambda>_. (Fin 0, Fin 0)),
                        ws_outb = (\<lambda>_. (Fin 0, Fin 0)), ws_out = (\<lambda>_. (Fin 0, Fin 0))\<rparr>)\<rparr> (\<lambda>i. Fin (if i = 3 then 2 else if odd i then 1 / 2 else 0)) 2 2 (\<lambda>i. Fin (real i)) 3 4
         (\<lambda>_. 1) (\<lambda>i. if i = 0 then 1 else 0) (\<lambda>_. NaN))), {})
   \<and> snd (snd (channel_loop \<lparr>N_THREADS = None, alloc_fails = (\<lambda>_. False), schedule = [[0]],
          scratch = (\<lambda>_. \<lparr>ws_ccc = (\<lambda>_. Fin 0), ws_outa = (\<lambda>_. (Fin 0, Fin 0)),
                        ws_outb = (\<lambda>_. (Fin 0, Fin 0)), ws_out = (\<lambda>_. (Fin 0, Fin 0))\<rparr>)\<rparr> (\<lambda>i. Fin (if i = 3 then 2 else if odd i then 1 / 2 else 0)) 2 2 (\<lambda>i. Fin (real i)) 3 4
         (\<lambda>_. 1) (\<lambda>i. if i = 0 then 1 else 0) (\<lambda>_. NaN))) 1 = Fin 0
   \<and> sanitised \<lparr>N_THREADS = None, alloc_fails = (\<lambda>_. False), schedule = [[0]],
          scratch = (\<lambda>_. \<lparr>ws_ccc = (\<lambda>_. Fin 0), ws_outa = (\<lambda>_. (Fin 0, Fin 0)),
                        ws_outb = (\<lambda>_. (Fin 0, Fin 0)), ws_out = (\<lambda>_. (Fin 0, Fin 0))\<rparr>)\<rparr> (\<lambda>i. Fin (if i = 3 then 2 else if odd i then 1 / 2 else 0)) 2 2 (\<lambda>i. Fin (real i)) 3 4 (\<lambda>_. 1) 0 0 1 = Fin (1 / 2)"
  using example_returns example_loop(1,3) by (intro conjI)

text \<open>
  C8, amended. In a call that returns \<open>-1\<close>, for a schedule that runs every channel once,
  the returned tensor is the one the loop over the channels leaves, and trace \<open>k\<close> of
  channel \<open>c\<close> is in its sanitised, unshifted state exactly when the worker that ran the
  channel had counted an overflow by the time it had sanitised that trace (in an earlier
  channel of its own, in an earlier trace of the channel or in the trace itself);
  otherwise the trace has been shifted by its pad. In particular a kept trace with an
  overflow of its own is left unshifted.
\<close>

theorem pad_skipped:
  fixes rt templates n_templates template_len n_channels img image_len ncc fft_len
    used_chans pad_array c k j y h
  assumes "valid_schedule (schedule rt) n_channels"
    and "multi_normxcorr_fftw_calloc rt templates n_templates template_len n_channels img
           image_len ncc fft_len used_chans pad_array = Inr (- 1, y, h)"
    and "c < n_channels" and "k < n_templates" and "j < image_len + 1 - template_len"
  defines "cell \<equiv> (image_len + 1 - template_len) * n_templates * c
                    + k * (image_len + 1 - template_len) + j"
  shows "y = snd (snd (channel_loop rt templates n_templates template_len img image_len fft_len
                         used_chans pad_array ncc))
       \<and> y cell =
           (if private_count rt templates n_templates template_len img image_len fft_len
                 used_chans c k = 0
            then shifted rt templates n_templates template_len img image_len fft_len
                   used_chans pad_array c k j
            else sanitised rt templates n_templates template_len img image_len fft_len
                   used_chans c k j)
       \<and> (used_chans (c * n_templates + k) \<noteq> 0
            \<and> (\<exists>m<image_len + 1 - template_len.
                  overflows (channel_out rt templates n_templates template_len img image_len
                               fft_len c (k * (image_len + 1 - template_len) + m)))
          \<longrightarrow> y cell = sanitised rt templates n_templates template_len img image_len fft_len
                           used_chans c k j)"
proof -
  let ?sz = "image_len + 1 - template_len"
  let ?out = "channel_out rt templates n_templates template_len img image_len fft_len c"
  have y: "y = snd (snd (channel_loop rt templates n_templates template_len img image_len fft_len
                         used_chans pad_array ncc))"
    using assms(2) by (rule routine_returns(5)) simp
  have cell: "y cell =
           (if private_count rt templates n_templates template_len img image_len fft_len
                 used_chans c k = 0
            then shifted rt templates n_templates template_len img image_len fft_len
                   used_chans pad_array c k j
            else sanitised rt templates n_templates template_len img image_len fft_len
                   used_chans c k j)"
    unfolding y cell_def using assms(1,3,4,5) by (rule channel_loop_trace)
  have own: "private_count rt templates n_templates template_len img image_len fft_len
                 used_chans c k \<noteq> 0"
    if u: "used_chans (c * n_templates + k) \<noteq> 0"
      and o: "\<exists>m<?sz. overflows (?out (k * ?sz + m))"
  proof -
    have t: "trace_overflows ?out (k * ?sz) ?sz \<noteq> 0"
      unfolding trace_overflows_zero using o by blast
    have "0 \<le> trace_overflows ?out (k * ?sz) ?sz" by (rule trace_overflows_nonneg)
    then have t': "0 < trace_overflows ?out (k * ?sz) ?sz" using t by simp
    have e: "0 \<le> (\<Sum>c'\<leftarrow>earlier (schedule rt) c.
        channel_overflows rt templates n_templates template_len img image_len fft_len
          used_chans c')"
      by (rule channel_overflows_sum_nonneg)
    have "0 \<le> overflows_upto rt templates n_templates template_len img image_len fft_len
                 used_chans c k"
      unfolding overflows_upto_def by (intro sum_nonneg) (simp add: trace_overflows_nonneg)
    then have "0 < overflows_upto rt templates n_templates template_len img image_len fft_len
                 used_chans c (Suc k)"
      using u t' by (simp add: overflows_upto_def)
    then show ?thesis
      unfolding private_count_def using e by simp
  qed
  show ?thesis
    using y cell own by simp
qed

theorem pad_skipped_witness:
  "valid_schedule (schedule \<lparr>N_THREADS = None, alloc_fails = (\<lambda>_. False), schedule = [[0]],
          scratch = (\<lambda>_. \<lparr>ws_ccc = (\<lambda>_. Fin 0), ws_outa = (\<lambda>_. (Fin 0, Fin 0)),
                        ws_outb = (\<lambda>_. (Fin 0, Fin 0)), ws_out = (\<lambda>_. (Fin 0, Fin 0))\<rparr>)\<rparr>) 1
   \<and> multi_normxcorr_fftw_calloc \<lparr>N_THREADS = None, alloc_fails = (\<lambda>_. False), schedule = [[0]],
          scratch = (\<lambda>_. \<lparr>ws_ccc = (\<lambda>_. Fin 0), ws_outa = (\<lambda>_. (Fin 0, Fin 0)),
                        ws_outb = (\<lambda>_. (Fin 0, Fin 0)), ws_out = (\<lambda>_. (Fin 0, Fin 0))\<rparr>)\<rparr> (\<lambda>i. Fin (if i = 3 then 2 else if odd i then 1 / 2 else 0)) 2 2 1 (\<lambda>i. Fin (real i)) 3 (\<lambda>_. NaN) 4
       (\<lambda>_. 1) (\<lambda>i. if i = 0 then 1 else 0) =
     Inr (- 1, snd (snd (channel_loop \<lparr>N_THREADS = None, alloc_fails = (\<lambda>_. False), schedule = [[0]],
          scratch = (\<lambda>_. \<lparr>ws_ccc = (\<lambda>_. Fin 0), ws_outa = (\<lambda>_. (Fin 0, Fin 0)),
                        ws_outb = (\<lambda>_. (Fin 0, Fin 0)), ws_out = (\<lambda>_. (Fin 0, Fin 0))\<rparr>)\<rparr> (\<lambda>i. Fin (if i = 3 then 2 else if odd i then 1 / 2 else 0)) 2 2 (\<lambda>i. Fin (real i)) 3 4
         (\<lambda>_. 1) (\<lambda>i. if i = 0 then 1 else 0) (\<lambda>_. NaN))), {})
   \<and> (0::nat) < 1 \<and> (1::nat) < 2 \<and> (0::nat) < 3 + 1 - 2
   \<and> snd (snd (channel_loop \<lparr>N_THREADS = None, alloc_fails = (\<lambda>_. False), schedule = [[0]],
          scratch = (\<lambda>_. \<lparr>ws_ccc = (\<lambda>_. Fin 0), ws_outa = (\<lambda>_. (Fin 0, Fin 0)),
                        ws_outb = (\<lambda>_. (Fin 0, Fin 0)), ws_out = (\<lambda>_. (Fin 0, Fin 0))\<rparr>)\<rparr> (\<lambda>i. Fin (if i = 3 then 2 else if odd i then 1 / 2 else 0)) 2 2 (\<lambda>i. Fin (real i)) 3 4
         (\<lambda>_. 1) (\<lambda>i. if i = 0 then 1 else 0) (\<lambda>_. NaN)))
         ((3 + 1 - 2) * 2 * 0 + 1 * (3 + 1 - 2) + 0) =
       (if private_count \<lparr>N_THREADS = None, alloc_fails = (\<lambda>_. False), schedule = [[0]],
          scratch = (\<lambda>_. \<lparr>ws_ccc = (\<lambda>_. Fin 0), ws_outa = (\<lambda>_. (Fin 0, Fin 0)),
                        ws_outb = (\<lambda>_. (Fin 0, Fin 0)), ws_out = (\<lambda>_. (Fin 0, Fin 0))\<rparr>)\<rparr> (\<lambda>i. Fin (if i = 3 then 2 else if odd i then 1 / 2 else 0)) 2 2 (\<lambda>i. Fin (real i)) 3 4 (\<lambda>_. 1) 0 1 = 0
        then shifted \<lparr>N_THREADS = None, alloc_fails = (\<lambda>_. False), schedule = [[0]],
          scratch = (\<lambda>_. \<lparr>ws_ccc = (\<lambda>_. Fin 0), ws_outa = (\<lambda>_. (Fin 0, Fin 0)),
                        ws_outb = (\<lambda>_. (Fin 0, Fin 0)), ws_out = (\<lambda>_. (Fin 0, Fin 0))\<rparr>)\<rparr> (\<lambda>i. Fin (if i = 3 then 2 else if odd i then 1 / 2 else 0)) 2 2 (\<lambda>i. Fin (real i)) 3 4 (\<lambda>_. 1)
               (\<lambda>i. if i = 0 then 1 else 0) 0 1 0
        else sanitised \<lparr>N_THREADS = None, alloc_fails = (\<lambda>_. False), schedule = [[0]],
          scratch = (\<lambda>_. \<lparr>ws_ccc = (\<lambda>_. Fin 0), ws_outa = (\<lambda>_. (Fin 0, Fin 0)),
                        ws_outb = (\<lambda>_. (Fin 0, Fin 0)), ws_out = (\<lambda>_. (Fin 0, Fin 0))\<rparr>)\<rparr> (\<lambda>i. Fin (if i = 3 then 2 else if odd i then 1 / 2 else 0)) 2 2 (\<lambda>i. Fin (real i)) 3 4 (\<lambda>_. 1) 0 1 0)"
proof -
  have v: "valid_schedule (schedule \<lparr>N_THREADS = None, alloc_fails = (\<lambda>_. False), schedule = [[0]],
          scratch = (\<lambda>_. \<lparr>ws_ccc = (\<lambda>_. Fin 0), ws_outa = (\<lambda>_. (Fin 0, Fin 0)),
                        ws_outb = (\<lambda>_. (Fin 0, Fin 0)), ws_out = (\<lambda>_. (Fin 0, Fin 0))\<rparr>)\<rparr>) 1"
    by (auto simp: valid_schedule_def)
  have "(0::nat) < 1" "(1::nat) < 2" "(0::nat) < 3 + 1 - 2" by simp_all
  from pad_skipped [OF v example_returns this, THEN conjunct2, THEN conjunct1]
  show ?thesis
    using v example_returns by simp
qed

section \<open>Single-precision sums and the calls that return zero\<close>

text \<open>
  A rounded sum of finite values is never NaN, and equals the exact sum when no addition
  rounds. When the loop over the channels has counted no overflow, every private counter
  was zero throughout, so every trace has been shifted and every sample is in \<open>[-1, 1]\<close>.
\<close>

lemma binary_exponent_unit:
  assumes "1 \<le> x" "x < 2" "0 < n"
  shows "binary_exponent n x = 0"
  using assms by (cases n) simp_all

lemma quantum_unit: "(2::real) powi (0 - int 24 + 1) = 1 / 8388608"
proof -
  have "(0::int) - int 24 + 1 = - int 23" by simp
  then have "(2::real) powi (0 - int 24 + 1) = inverse (2 ^ 23)"
    by (simp only: power_int_minus power_int_of_nat)
  then show ?thesis by simp
qed

lemma round_below_half: "round_binary32 (1 + 1 / 2 ^ 25) = Fin 1"
proof -
  have e: "binary_exponent 2200 \<bar>1 + 1 / 2 ^ 25\<bar> = 0"
    by (rule binary_exponent_unit) simp_all
  have m: "max (0::int) (- 126) = 0" by simp
  have q: "(1 + 1 / 2 ^ 25) / (1 / 8388608) = 8388608 + (1 / 4 :: real)"
    by simp
  have f: "\<lfloor>8388608 + (1 / 4 :: real)\<rfloor> = 8388608"
    by linarith
  have r: "round_even (8388608 + (1 / 4 :: real)) = 8388608"
    unfolding round_even_def f Let_def by simp
  have "round_binary 24 (- 126) (1 + 1 / 2 ^ 25) = 1"
    unfolding round_binary_def e m Let_def quantum_unit q r by simp
  then show ?thesis
    by (simp add: round_binary32_def)
qed

lemma round_binary32_not_nan: "round_binary32 x \<noteq> NaN"
  by (simp add: round_binary32_def Let_def inf_of_def)

lemma faddf_Fin: "faddf (Fin a) (Fin b) = round_binary32 (a + b)"
  by (simp add: faddf_def)

lemma faddf_not_nan:
  assumes "a \<noteq> NaN" "is_fin b"
  shows "faddf a b \<noteq> NaN"
proof -
  obtain y where b: "b = Fin y" using assms(2) by (cases b) auto
  show ?thesis
    using assms(1) unfolding b by (cases a) (simp_all add: faddf_def round_binary32_not_nan)
qed

lemma float_sum_not_nan:
  assumes "a \<noteq> NaN" and "\<And>k. k \<in> set ks \<Longrightarrow> is_fin (f k)"
  shows "fold (\<lambda>k s. faddf s (f k)) ks a \<noteq> NaN"
  using assms
proof (induction ks arbitrary: a)
  case Nil
  then show ?case by simp
next
  case (Cons k ks)
  have "faddf a (f k) \<noteq> NaN"
    by (rule faddf_not_nan) (use Cons.prems in auto)
  then show ?case
    using Cons.IH [of "faddf a (f k)"] Cons.prems(2) by simp
qed

lemma float_sum_exact:
  assumes "\<And>c. c \<le> m \<Longrightarrow> f c = Fin (g c)"
    and "\<And>i. 0 < i \<Longrightarrow> i \<le> m \<Longrightarrow> round_binary32 (\<Sum>c<Suc i. g c) = Fin (\<Sum>c<Suc i. g c)"
  shows "fold (\<lambda>k s. faddf s (f k)) [1..<Suc m] (f 0) = Fin (\<Sum>c<Suc m. g c)"
  using assms
proof (induction m)
  case 0
  then show ?case by simp
next
  case (Suc m)
  have ih: "fold (\<lambda>k s. faddf s (f k)) [1..<Suc m] (f 0) = Fin (\<Sum>c<Suc m. g c)"
    by (rule Suc.IH) (use Suc.prems in auto)
  have "fold (\<lambda>k s. faddf s (f k)) [1..<Suc (Suc m)] (f 0) =
        faddf (fold (\<lambda>k s. faddf s (f k)) [1..<Suc m] (f 0)) (f (Suc m))"
    by simp
  also have "\<dots> = round_binary32 ((\<Sum>c<Suc m. g c) + g (Suc m))"
    unfolding ih Suc.prems(1) [of "Suc m", OF order_refl] faddf_Fin ..
  also have "(\<Sum>c<Suc m. g c) + g (Suc m) = (\<Sum>c<Suc (Suc m). g c)"
    by simp
  also have "round_binary32 (\<Sum>c<Suc (Suc m). g c) = Fin (\<Sum>c<Suc (Suc m). g c)"
    by (rule Suc.prems(2)) simp_all
  finally show ?case .
qed


lemma in_range_not_nan: "in_range v \<Longrightarrow> \<not> isnanf v"
  by (cases v) (simp_all add: in_range_def isnanf_def)

lemma plane_index:
  "k * sz + j + c * (n_templates * sz) = sz * n_templates * c + k * sz + (j::nat)"
  by (simp add: algebra_simps)

lemma plane_bound:
  assumes "k < n_templates" "j < (sz::nat)"
  shows "k * sz + j < n_templates * sz"
proof -
  have "k * sz + j < k * sz + sz" using assms(2) by simp
  also have "\<dots> = Suc k * sz" by simp
  also have "\<dots> \<le> n_templates * sz" using assms(1) by (intro mult_le_mono1) simp
  finally show ?thesis .
qed

lemma count_zero_in_range:
  assumes v: "valid_schedule (schedule rt) n_channels"
    and z: "fst (snd (channel_loop rt templates n_templates template_len img image_len fft_len
                        used_chans pad_array ncc)) = 0"
    and c: "c < n_channels" and k: "k < n_templates" and j: "j < image_len + 1 - template_len"
  shows "in_range (snd (snd (channel_loop rt templates n_templates template_len img image_len
                     fft_len used_chans pad_array ncc))
           ((image_len + 1 - template_len) * n_templates * c
              + k * (image_len + 1 - template_len) + j))"
proof -
  have m: "c \<in> set (concat (schedule rt))"
    using v c by (simp add: valid_schedule_def)
  have z': "fst (snd (fold (run_worker rt templates n_templates template_len img image_len fft_len
                used_chans pad_array) (schedule rt) (0, 0, ncc))) = 0"
    using z by (simp add: channel_loop_def)
  have "0 \<le> (0::int)" by simp
  from loop_in_range [OF this, of rt templates n_templates template_len img image_len fft_len
      used_chans pad_array "schedule rt" 0 ncc] z' m k j
  show ?thesis
    unfolding channel_loop_def by blast
qed

lemma overflows_upto_nonneg:
  "0 \<le> overflows_upto rt templates n_templates template_len img image_len fft_len used_chans c k"
  unfolding overflows_upto_def by (intro sum_nonneg) (simp add: trace_overflows_nonneg)

lemma overflows_upto_le:
  assumes "k \<le> n_templates"
  shows "overflows_upto rt templates n_templates template_len img image_len fft_len used_chans c k
         \<le> channel_overflows rt templates n_templates template_len img image_len fft_len
              used_chans c"
  unfolding overflows_upto_def channel_overflows_def
  by (rule sum_mono2) (use assms in \<open>auto simp: trace_overflows_nonneg\<close>)

lemma earlier_subset: "set (earlier sched c) \<subseteq> set (concat sched)"
  by (auto simp: earlier_def dest: set_takeWhileD)

lemma count_zero_private:
  assumes v: "valid_schedule (schedule rt) n_channels"
    and z: "fst (snd (channel_loop rt templates n_templates template_len img image_len fft_len
                        used_chans pad_array ncc)) = 0"
    and c: "c < n_channels" and k: "k < n_templates"
  shows "private_count rt templates n_templates template_len img image_len fft_len
           used_chans c k = 0"
proof -
  have "(\<Sum>c'\<leftarrow>concat (schedule rt). channel_overflows rt templates n_templates
                    template_len img image_len fft_len used_chans c') = 0"
    using z unfolding channel_loop_def loop_overflows by simp
  then have all: "\<forall>c'\<in>set (concat (schedule rt)). channel_overflows rt templates n_templates
                    template_len img image_len fft_len used_chans c' = 0"
    by (subst (asm) sum_list_zero_iff) (rule trace_overflows_sum_nonneg)
  have e: "(\<Sum>c'\<leftarrow>earlier (schedule rt) c. channel_overflows rt templates n_templates
                    template_len img image_len fft_len used_chans c') = 0"
    by (subst sum_list_zero_iff, rule trace_overflows_sum_nonneg)
       (use all earlier_subset in blast)
  have "c \<in> set (concat (schedule rt))"
    using v c by (simp add: valid_schedule_def)
  then have "channel_overflows rt templates n_templates template_len img image_len fft_len
               used_chans c = 0"
    using all by blast
  then have "overflows_upto rt templates n_templates template_len img image_len fft_len
               used_chans c (Suc k) \<le> 0"
    using overflows_upto_le [of "Suc k" n_templates rt templates template_len img image_len
        fft_len used_chans c] k by simp
  then have "overflows_upto rt templates n_templates template_len img image_len fft_len
               used_chans c (Suc k) = 0"
    using overflows_upto_nonneg [of rt templates n_templates template_len img image_len
        fft_len used_chans c "Suc k"] by linarith
  then show ?thesis
    unfolding private_count_def e by simp
qed

lemma rising_returns:
  assumes a: "\<not> (\<exists>k<6 + 6 * num_threads_of rt n_channels. alloc_fails rt k)"
    and ft: "\<And>i. is_fin (templates i)" and fi: "\<And>i. is_fin (img i)"
    and L: "2 \<le> image_len" "image_len \<le> fft_len"
    and r: "\<And>i. 1 \<le> val (img (i + 1)) - val (img i)"
    and o: "\<not> (\<exists>c\<in>set (concat (schedule rt)). \<exists>k<n_templates.
                 used_chans (c * n_templates + k) \<noteq> 0
               \<and> 101 / 100 < \<bar>val (templates (n_templates * 2 * c + (k * 2 + 1)))
                                - val (templates (n_templates * 2 * c + k * 2))\<bar>)"
    and nk: "\<not> (\<exists>c\<in>set (concat (schedule rt)).
                  alloc_fails rt (6 + 6 * num_threads_of rt n_channels + c))"
  shows "multi_normxcorr_fftw_calloc rt templates n_templates 2 n_channels img image_len ncc
           fft_len used_chans pad_array =
         Inr (0, accumulate n_templates n_channels (image_len + 1 - 2)
                   (snd (snd (channel_loop rt templates n_templates 2 img image_len fft_len
                                used_chans pad_array ncc))), {})"
proof -
  let ?M = "multi_normxcorr_fftw rt templates n_templates 2 n_channels img image_len ncc
                fft_len used_chans pad_array"
  have "fst ?M = (if \<exists>c\<in>set (concat (schedule rt)). \<exists>k<n_templates.
                 used_chans (c * n_templates + k) \<noteq> 0
               \<and> 101 / 100 < \<bar>val (templates (n_templates * 2 * c + (k * 2 + 1)))
                                - val (templates (n_templates * 2 * c + k * 2))\<bar>
          then - 1 else 0)"
    by (rule rising_status) (rule a ft fi L r)+
  then have "fst ?M = 0"
    unfolding if_not_P [OF o] .
  then have "?M = (0, accumulate n_templates n_channels (image_len + 1 - 2)
                   (snd (snd (channel_loop rt templates n_templates 2 img image_len fft_len
                                used_chans pad_array ncc))), {})"
    unfolding multi_ok [OF a] by (simp split: if_splits)
  then show ?thesis
    using a nk by (simp add: multi_calloc_eq)
qed

section \<open>The range of the output\<close>

text \<open>
  C3. When the routine returns \<open>0\<close>, for a schedule that runs every channel once, every
  sample of the tensor that the loop over the channels leaves (post-processed, before the
  sum over the channels) is finite and of magnitude at most \<open>1\<close>, for kept and for masked
  traces alike; it is the sample of the shifted trace, that is zero for a masked trace
  and for the tail that the pad fills, and otherwise the value of the kernel with NaN
  replaced by \<open>0\<close> and values in \<open>(1, 1.01]\<close> or \<open>[-1.01, -1)\<close> replaced by \<open>1\<close> or \<open>-1\<close>.
  So no sample of that tensor is NaN, and no sample of the returned tensor is NaN either:
  the plane of channel \<open>0\<close> holds rounded sums of finite values and the other planes are
  unchanged.
\<close>

theorem range_and_no_nan:
  fixes rt templates n_templates template_len n_channels img image_len ncc fft_len
    used_chans pad_array c k j y h
  assumes "valid_schedule (schedule rt) n_channels"
    and "multi_normxcorr_fftw_calloc rt templates n_templates template_len n_channels img
           image_len ncc fft_len used_chans pad_array = Inr (0, y, h)"
    and "c < n_channels" and "k < n_templates" and "j < image_len + 1 - template_len"
  defines "cell \<equiv> (image_len + 1 - template_len) * n_templates * c
                    + k * (image_len + 1 - template_len) + j"
  defines "y_pre \<equiv> snd (snd (channel_loop rt templates n_templates template_len img image_len
                             fft_len used_chans pad_array ncc))"
  shows "is_fin (y_pre cell) \<and> \<bar>val (y_pre cell)\<bar> \<le> 1 \<and> \<not> isnanf (y_pre cell)
       \<and> y_pre cell = shifted rt templates n_templates template_len img image_len fft_len
                          used_chans pad_array c k j
       \<and> clamped NaN = Fin 0
       \<and> (\<forall>v. 1 < v \<and> v \<le> 101 / 100 \<longrightarrow> clamped (Fin v) = Fin 1)
       \<and> (\<forall>v. - (101 / 100) \<le> v \<and> v < - 1 \<longrightarrow> clamped (Fin v) = Fin (- 1))
       \<and> \<not> isnanf (y cell)"
proof -
  let ?sz = "image_len + 1 - template_len"
  have z: "fst (snd (channel_loop rt templates n_templates template_len img image_len
                             fft_len used_chans pad_array ncc)) = 0"
    using routine_returns(7) [OF assms(2)] by simp
  have y: "y = accumulate n_templates n_channels ?sz y_pre"
    unfolding y_pre_def using assms(2) by (rule routine_returns(6)) simp
  have r: "in_range (y_pre (?sz * n_templates * c' + k * ?sz + j))" if "c' < n_channels" for c'
    unfolding y_pre_def using assms(1) z that assms(4,5) by (rule count_zero_in_range)
  have pre: "in_range (y_pre cell)"
    unfolding cell_def using assms(3) by (rule r)
  have p: "private_count rt templates n_templates template_len img image_len fft_len
             used_chans c k = 0"
    using assms(1) z assms(3,4) by (rule count_zero_private)
  have sh: "y_pre cell = shifted rt templates n_templates template_len img image_len fft_len
                          used_chans pad_array c k j"
    unfolding y_pre_def cell_def channel_loop_trace [OF assms(1,3,4,5)] if_P [OF p] ..
  have "\<not> isnanf (y cell)"
  proof (cases "cell < n_templates * ?sz")
    case True
    have c0: "c = 0"
    proof (rule ccontr)
      assume "c \<noteq> 0"
      then have "1 \<le> c" by simp
      then have "n_templates * ?sz * 1 \<le> n_templates * ?sz * c"
        by (rule mult_le_mono2)
      moreover have "cell = n_templates * ?sz * c + (k * ?sz + j)"
        unfolding cell_def by (simp add: mult.commute)
      ultimately show False using True by linarith
    qed
    have a: "cell = k * ?sz + j" by (simp add: cell_def c0)
    have f: "is_fin (y_pre (cell + c' * (n_templates * ?sz)))" if "c' < n_channels" for c'
      using r [OF that] unfolding a plane_index by (simp add: in_range_def)
    have "y_pre cell \<noteq> NaN"
      using pre by (auto simp: in_range_def)
    then have "fold (\<lambda>c' s. faddf s (y_pre (cell + c' * (n_templates * ?sz))))
                 [1..<n_channels] (y_pre cell) \<noteq> NaN"
      by (rule float_sum_not_nan) (use f in auto)
    then show ?thesis
      using True by (simp add: y accumulate_eq isnanf_def)
  next
    case False
    then have "y cell = y_pre cell" by (simp add: y accumulate_eq)
    then show ?thesis using pre by (simp add: in_range_not_nan)
  qed
  moreover have "is_fin (y_pre cell)" "\<bar>val (y_pre cell)\<bar> \<le> 1" "\<not> isnanf (y_pre cell)"
    using pre by (simp_all add: in_range_def in_range_not_nan)
  moreover have "clamped NaN = Fin 0"
    by (simp add: clamped_def isnanf_def)
  moreover have "\<forall>v. 1 < v \<and> v \<le> 101 / 100 \<longrightarrow> clamped (Fin v) = Fin 1"
    by (simp add: clamped_def isnanf_def fgt_def)
  moreover have "\<forall>v. - (101 / 100) \<le> v \<and> v < - 1 \<longrightarrow> clamped (Fin v) = Fin (- 1)"
    by (simp add: clamped_def isnanf_def fgt_def)
  ultimately show ?thesis
    using sh by (intro conjI)
qed


lemma sum_example_returns:
  "multi_normxcorr_fftw_calloc \<lparr>N_THREADS = None, alloc_fails = (\<lambda>_. False), schedule = [[0, 1]],
          scratch = (\<lambda>_. \<lparr>ws_ccc = (\<lambda>_. Fin 0), ws_outa = (\<lambda>_. (Fin 0, Fin 0)),
                        ws_outb = (\<lambda>_. (Fin 0, Fin 0)), ws_out = (\<lambda>_. (Fin 0, Fin 0))\<rparr>)\<rparr> (\<lambda>i. Fin (if i = 3 then 1 / 2 ^ 25 else if odd i then 1 else 0)) 1 2 2 (\<lambda>i. Fin (real i)) 3 (\<lambda>_. NaN) 4
         (\<lambda>_. 1) (\<lambda>_. 0) =
       Inr (0, accumulate 1 2 (3 + 1 - 2)
                 (snd (snd (channel_loop \<lparr>N_THREADS = None, alloc_fails = (\<lambda>_. False), schedule = [[0, 1]],
          scratch = (\<lambda>_. \<lparr>ws_ccc = (\<lambda>_. Fin 0), ws_outa = (\<lambda>_. (Fin 0, Fin 0)),
                        ws_outb = (\<lambda>_. (Fin 0, Fin 0)), ws_out = (\<lambda>_. (Fin 0, Fin 0))\<rparr>)\<rparr> (\<lambda>i. Fin (if i = 3 then 1 / 2 ^ 25 else if odd i then 1 else 0)) 1 2 (\<lambda>i. Fin (real i)) 3 4
                              (\<lambda>_. 1) (\<lambda>_. 0) (\<lambda>_. NaN)))), {})"
proof (rule rising_returns)
  have "\<bar>1 / 2 ^ 25\<bar> \<le> (101 / 100 :: real)" by simp
  then show "\<not> (\<exists>c\<in>set (concat (schedule \<lparr>N_THREADS = None, alloc_fails = (\<lambda>_. False), schedule = [[0, 1]],
          scratch = (\<lambda>_. \<lparr>ws_ccc = (\<lambda>_. Fin 0), ws_outa = (\<lambda>_. (Fin 0, Fin 0)),
                        ws_outb = (\<lambda>_. (Fin 0, Fin 0)), ws_out = (\<lambda>_. (Fin 0, Fin 0))\<rparr>)\<rparr>)). \<exists>k<1.
                 (\<lambda>_. 1::int) (c * 1 + k) \<noteq> 0
               \<and> 101 / 100 < \<bar>val ((\<lambda>i. Fin (if i = 3 then 1 / 2 ^ 25 else if odd i then 1 else 0)) (1 * 2 * c + (k * 2 + 1)))
                                - val ((\<lambda>i. Fin (if i = 3 then 1 / 2 ^ 25 else if odd i then 1 else 0)) (1 * 2 * c + k * 2))\<bar>)"
    by simp
qed simp_all

theorem range_and_no_nan_witness:
  "valid_schedule (schedule \<lparr>N_THREADS = None, alloc_fails = (\<lambda>_. False), schedule = [[0, 1]],
          scratch = (\<lambda>_. \<lparr>ws_ccc = (\<lambda>_. Fin 0), ws_outa = (\<lambda>_. (Fin 0, Fin 0)),
                        ws_outb = (\<lambda>_. (Fin 0, Fin 0)), ws_out = (\<lambda>_. (Fin 0, Fin 0))\<rparr>)\<rparr>) 2
   \<and> multi_normxcorr_fftw_calloc \<lparr>N_THREADS = None, alloc_fails = (\<lambda>_. False), schedule = [[0, 1]],
          scratch = (\<lambda>_. \<lparr>ws_ccc = (\<lambda>_. Fin 0), ws_outa = (\<lambda>_. (Fin 0, Fin 0)),
                        ws_outb = (\<lambda>_. (Fin 0, Fin 0)), ws_out = (\<lambda>_. (Fin 0, Fin 0))\<rparr>)\<rparr> (\<lambda>i. Fin (if i = 3 then 1 / 2 ^ 25 else if odd i then 1 else 0)) 1 2 2 (\<lambda>i. Fin (real i)) 3 (\<lambda>_. NaN) 4
         (\<lambda>_. 1) (\<lambda>_. 0) =
       Inr (0, accumulate 1 2 (3 + 1 - 2)
                 (snd (snd (channel_loop \<lparr>N_THREADS = None, alloc_fails = (\<lambda>_. False), schedule = [[0, 1]],
          scratch = (\<lambda>_. \<lparr>ws_ccc = (\<lambda>_. Fin 0), ws_outa = (\<lambda>_. (Fin 0, Fin 0)),
                        ws_outb = (\<lambda>_. (Fin 0, Fin 0)), ws_out = (\<lambda>_. (Fin 0, Fin 0))\<rparr>)\<rparr> (\<lambda>i. Fin (if i = 3 then 1 / 2 ^ 25 else if odd i then 1 else 0)) 1 2 (\<lambda>i. Fin (real i)) 3 4
                              (\<lambda>_. 1) (\<lambda>_. 0) (\<lambda>_. NaN)))), {})
   \<and> (1::nat) < 2 \<and> (0::nat) < 1 \<and> (1::nat) < 3 + 1 - 2
   \<and> \<bar>val (snd (snd (channel_loop \<lparr>N_THREADS = None, alloc_fails = (\<lambda>_. False), schedule = [[0, 1]],
          scratch = (\<lambda>_. \<lparr>ws_ccc = (\<lambda>_. Fin 0), ws_outa = (\<lambda>_. (Fin 0, Fin 0)),
                        ws_outb = (\<lambda>_. (Fin 0, Fin 0)), ws_out = (\<lambda>_. (Fin 0, Fin 0))\<rparr>)\<rparr> (\<lambda>i. Fin (if i = 3 then 1 / 2 ^ 25 else if odd i then 1 else 0)) 1 2 (\<lambda>i. Fin (real i)) 3 4
                         (\<lambda>_. 1) (\<lambda>_. 0) (\<lambda>_. NaN)))
             ((3 + 1 - 2) * 1 * 1 + 0 * (3 + 1 - 2) + 1))\<bar> \<le> 1
   \<and> \<not> isnanf (accumulate 1 2 (3 + 1 - 2)
                 (snd (snd (channel_loop \<lparr>N_THREADS = None, alloc_fails = (\<lambda>_. False), schedule = [[0, 1]],
          scratch = (\<lambda>_. \<lparr>ws_ccc = (\<lambda>_. Fin 0), ws_outa = (\<lambda>_. (Fin 0, Fin 0)),
                        ws_outb = (\<lambda>_. (Fin 0, Fin 0)), ws_out = (\<lambda>_. (Fin 0, Fin 0))\<rparr>)\<rparr> (\<lambda>i. Fin (if i = 3 then 1 / 2 ^ 25 else if odd i then 1 else 0)) 1 2 (\<lambda>i. Fin (real i)) 3 4
                              (\<lambda>_. 1) (\<lambda>_. 0) (\<lambda>_. NaN))))
               ((3 + 1 - 2) * 1 * 1 + 0 * (3 + 1 - 2) + 1))"
proof -
  have v: "valid_schedule (schedule \<lparr>N_THREADS = None, alloc_fails = (\<lambda>_. False), schedule = [[0, 1]],
          scratch = (\<lambda>_. \<lparr>ws_ccc = (\<lambda>_. Fin 0), ws_outa = (\<lambda>_. (Fin 0, Fin 0)),
                        ws_outb = (\<lambda>_. (Fin 0, Fin 0)), ws_out = (\<lambda>_. (Fin 0, Fin 0))\<rparr>)\<rparr>) 2"
    by (auto simp: valid_schedule_def)
  have n: "(1::nat) < 2" "(0::nat) < 1" "(1::nat) < 3 + 1 - 2" by simp_all
  note th = range_and_no_nan [OF v sum_example_returns n]
  show ?thesis
    by (intro conjI)
      (rule v sum_example_returns n th [THEN conjunct2, THEN conjunct1]
         th [THEN conjunct2, THEN conjunct2, THEN conjunct2, THEN conjunct2, THEN conjunct2,
             THEN conjunct2, THEN conjunct2])+
qed

section \<open>The reduction over the channels in single precision\<close>

lemma sum_example_cells:
  "snd (snd (channel_loop \<lparr>N_THREADS = None, alloc_fails = (\<lambda>_. False), schedule = [[0, 1]],
          scratch = (\<lambda>_. \<lparr>ws_ccc = (\<lambda>_. Fin 0), ws_outa = (\<lambda>_. (Fin 0, Fin 0)),
                        ws_outb = (\<lambda>_. (Fin 0, Fin 0)), ws_out = (\<lambda>_. (Fin 0, Fin 0))\<rparr>)\<rparr> (\<lambda>i. Fin (if i = 3 then 1 / 2 ^ 25 else if odd i then 1 else 0)) 1 2 (\<lambda>i. Fin (real i)) 3 4 (\<lambda>_. 1) (\<lambda>_. 0) (\<lambda>_. NaN))) 0
     = Fin 1"
  "snd (snd (channel_loop \<lparr>N_THREADS = None, alloc_fails = (\<lambda>_. False), schedule = [[0, 1]],
          scratch = (\<lambda>_. \<lparr>ws_ccc = (\<lambda>_. Fin 0), ws_outa = (\<lambda>_. (Fin 0, Fin 0)),
                        ws_outb = (\<lambda>_. (Fin 0, Fin 0)), ws_out = (\<lambda>_. (Fin 0, Fin 0))\<rparr>)\<rparr> (\<lambda>i. Fin (if i = 3 then 1 / 2 ^ 25 else if odd i then 1 else 0)) 1 2 (\<lambda>i. Fin (real i)) 3 4 (\<lambda>_. 1) (\<lambda>_. 0) (\<lambda>_. NaN))) 2
     = Fin (1 / 2 ^ 25)"
proof -
  have v: "valid_schedule (schedule \<lparr>N_THREADS = None, alloc_fails = (\<lambda>_. False), schedule = [[0, 1]],
          scratch = (\<lambda>_. \<lparr>ws_ccc = (\<lambda>_. Fin 0), ws_outa = (\<lambda>_. (Fin 0, Fin 0)),
                        ws_outb = (\<lambda>_. (Fin 0, Fin 0)), ws_out = (\<lambda>_. (Fin 0, Fin 0))\<rparr>)\<rparr>) 2"
    by (auto simp: valid_schedule_def)
  have z: "fst (snd (channel_loop \<lparr>N_THREADS = None, alloc_fails = (\<lambda>_. False), schedule = [[0, 1]],
          scratch = (\<lambda>_. \<lparr>ws_ccc = (\<lambda>_. Fin 0), ws_outa = (\<lambda>_. (Fin 0, Fin 0)),
                        ws_outb = (\<lambda>_. (Fin 0, Fin 0)), ws_out = (\<lambda>_. (Fin 0, Fin 0))\<rparr>)\<rparr> (\<lambda>i. Fin (if i = 3 then 1 / 2 ^ 25 else if odd i then 1 else 0)) 1 2 (\<lambda>i. Fin (real i)) 3 4
                       (\<lambda>_. 1) (\<lambda>_. 0) (\<lambda>_. NaN))) = 0"
    using routine_returns(7) [OF sum_example_returns] by simp
  have p: "private_count \<lparr>N_THREADS = None, alloc_fails = (\<lambda>_. False), schedule = [[0, 1]],
          scratch = (\<lambda>_. \<lparr>ws_ccc = (\<lambda>_. Fin 0), ws_outa = (\<lambda>_. (Fin 0, Fin 0)),
                        ws_outb = (\<lambda>_. (Fin 0, Fin 0)), ws_out = (\<lambda>_. (Fin 0, Fin 0))\<rparr>)\<rparr> (\<lambda>i. Fin (if i = 3 then 1 / 2 ^ 25 else if odd i then 1 else 0)) 1 2 (\<lambda>i. Fin (real i)) 3 4 (\<lambda>_. 1) c 0 = 0" if "c < 2" for c
    using v z that by (rule count_zero_private) simp
  have p0: "private_count \<lparr>N_THREADS = None, alloc_fails = (\<lambda>_. False), schedule = [[0, 1]],
          scratch = (\<lambda>_. \<lparr>ws_ccc = (\<lambda>_. Fin 0), ws_outa = (\<lambda>_. (Fin 0, Fin 0)),
                        ws_outb = (\<lambda>_. (Fin 0, Fin 0)), ws_out = (\<lambda>_. (Fin 0, Fin 0))\<rparr>)\<rparr> (\<lambda>i. Fin (if i = 3 then 1 / 2 ^ 25 else if odd i then 1 else 0)) 1 2 (\<lambda>i. Fin (real i)) 3 4 (\<lambda>_. 1) 0 0 = 0"
    by (rule p) simp
  have p1: "private_count \<lparr>N_THREADS = None, alloc_fails = (\<lambda>_. False), schedule = [[0, 1]],
          scratch = (\<lambda>_. \<lparr>ws_ccc = (\<lambda>_. Fin 0), ws_outa = (\<lambda>_. (Fin 0, Fin 0)),
                        ws_outb = (\<lambda>_. (Fin 0, Fin 0)), ws_out = (\<lambda>_. (Fin 0, Fin 0))\<rparr>)\<rparr> (\<lambda>i. Fin (if i = 3 then 1 / 2 ^ 25 else if odd i then 1 else 0)) 1 2 (\<lambda>i. Fin (real i)) 3 4 (\<lambda>_. 1) 1 0 = 0"
    by (rule p) simp
  have out: "channel_out \<lparr>N_THREADS = None, alloc_fails = (\<lambda>_. False), schedule = [[0, 1]],
          scratch = (\<lambda>_. \<lparr>ws_ccc = (\<lambda>_. Fin 0), ws_outa = (\<lambda>_. (Fin 0, Fin 0)),
                        ws_outb = (\<lambda>_. (Fin 0, Fin 0)), ws_out = (\<lambda>_. (Fin 0, Fin 0))\<rparr>)\<rparr> (\<lambda>i. Fin (if i = 3 then 1 / 2 ^ 25 else if odd i then 1 else 0)) 1 2 (\<lambda>i. Fin (real i)) 3 4 c (0 * (3 + 1 - 2) + 0) =
             Fin (val ((\<lambda>i. Fin (if i = 3 then 1 / 2 ^ 25 else if odd i then 1 else 0)) (1 * 2 * c + (0 * 2 + 1))) - val ((\<lambda>i. Fin (if i = 3 then 1 / 2 ^ 25 else if odd i then 1 else 0)) (1 * 2 * c + 0 * 2)))" for c
    by (rule channel_out_rising) simp_all
  have o0: "channel_out \<lparr>N_THREADS = None, alloc_fails = (\<lambda>_. False), schedule = [[0, 1]],
          scratch = (\<lambda>_. \<lparr>ws_ccc = (\<lambda>_. Fin 0), ws_outa = (\<lambda>_. (Fin 0, Fin 0)),
                        ws_outb = (\<lambda>_. (Fin 0, Fin 0)), ws_out = (\<lambda>_. (Fin 0, Fin 0))\<rparr>)\<rparr> (\<lambda>i. Fin (if i = 3 then 1 / 2 ^ 25 else if odd i then 1 else 0)) 1 2 (\<lambda>i. Fin (real i)) 3 4 0 0 = Fin 1"
    using out [of 0] by simp
  have o1: "channel_out \<lparr>N_THREADS = None, alloc_fails = (\<lambda>_. False), schedule = [[0, 1]],
          scratch = (\<lambda>_. \<lparr>ws_ccc = (\<lambda>_. Fin 0), ws_outa = (\<lambda>_. (Fin 0, Fin 0)),
                        ws_outb = (\<lambda>_. (Fin 0, Fin 0)), ws_out = (\<lambda>_. (Fin 0, Fin 0))\<rparr>)\<rparr> (\<lambda>i. Fin (if i = 3 then 1 / 2 ^ 25 else if odd i then 1 else 0)) 1 2 (\<lambda>i. Fin (real i)) 3 4 1 0 = Fin (1 / 2 ^ 25)"
    using out [of 1] by simp
  have c1: "clamped (Fin 1) = Fin 1" "clamped (Fin (1 / 2 ^ 25)) = Fin (1 / 2 ^ 25)"
    by (simp_all add: clamped_def isnanf_def fgt_def)
  have s0: "shifted \<lparr>N_THREADS = None, alloc_fails = (\<lambda>_. False), schedule = [[0, 1]],
          scratch = (\<lambda>_. \<lparr>ws_ccc = (\<lambda>_. Fin 0), ws_outa = (\<lambda>_. (Fin 0, Fin 0)),
                        ws_outb = (\<lambda>_. (Fin 0, Fin 0)), ws_out = (\<lambda>_. (Fin 0, Fin 0))\<rparr>)\<rparr> (\<lambda>i. Fin (if i = 3 then 1 / 2 ^ 25 else if odd i then 1 else 0)) 1 2 (\<lambda>i. Fin (real i)) 3 4 (\<lambda>_. 1) (\<lambda>_. 0) 0 0 0 =
            clamped (channel_out \<lparr>N_THREADS = None, alloc_fails = (\<lambda>_. False), schedule = [[0, 1]],
          scratch = (\<lambda>_. \<lparr>ws_ccc = (\<lambda>_. Fin 0), ws_outa = (\<lambda>_. (Fin 0, Fin 0)),
                        ws_outb = (\<lambda>_. (Fin 0, Fin 0)), ws_out = (\<lambda>_. (Fin 0, Fin 0))\<rparr>)\<rparr> (\<lambda>i. Fin (if i = 3 then 1 / 2 ^ 25 else if odd i then 1 else 0)) 1 2 (\<lambda>i. Fin (real i)) 3 4 0 0)"
    by (simp add: shifted_def sanitised_def size_t_of_int_def)
  have s1: "shifted \<lparr>N_THREADS = None, alloc_fails = (\<lambda>_. False), schedule = [[0, 1]],
          scratch = (\<lambda>_. \<lparr>ws_ccc = (\<lambda>_. Fin 0), ws_outa = (\<lambda>_. (Fin 0, Fin 0)),
                        ws_outb = (\<lambda>_. (Fin 0, Fin 0)), ws_out = (\<lambda>_. (Fin 0, Fin 0))\<rparr>)\<rparr> (\<lambda>i. Fin (if i = 3 then 1 / 2 ^ 25 else if odd i then 1 else 0)) 1 2 (\<lambda>i. Fin (real i)) 3 4 (\<lambda>_. 1) (\<lambda>_. 0) 1 0 0 =
            clamped (channel_out \<lparr>N_THREADS = None, alloc_fails = (\<lambda>_. False), schedule = [[0, 1]],
          scratch = (\<lambda>_. \<lparr>ws_ccc = (\<lambda>_. Fin 0), ws_outa = (\<lambda>_. (Fin 0, Fin 0)),
                        ws_outb = (\<lambda>_. (Fin 0, Fin 0)), ws_out = (\<lambda>_. (Fin 0, Fin 0))\<rparr>)\<rparr> (\<lambda>i. Fin (if i = 3 then 1 / 2 ^ 25 else if odd i then 1 else 0)) 1 2 (\<lambda>i. Fin (real i)) 3 4 1 0)"
    by (simp add: shifted_def sanitised_def size_t_of_int_def)
  have i0: "(3 + 1 - 2) * 1 * 0 + 0 * (3 + 1 - 2) + 0 = (0::nat)" by simp
  have i1: "(3 + 1 - 2) * 1 * 1 + 0 * (3 + 1 - 2) + 0 = (2::nat)" by simp
  have "snd (snd (channel_loop \<lparr>N_THREADS = None, alloc_fails = (\<lambda>_. False), schedule = [[0, 1]],
          scratch = (\<lambda>_. \<lparr>ws_ccc = (\<lambda>_. Fin 0), ws_outa = (\<lambda>_. (Fin 0, Fin 0)),
                        ws_outb = (\<lambda>_. (Fin 0, Fin 0)), ws_out = (\<lambda>_. (Fin 0, Fin 0))\<rparr>)\<rparr> (\<lambda>i. Fin (if i = 3 then 1 / 2 ^ 25 else if odd i then 1 else 0)) 1 2 (\<lambda>i. Fin (real i)) 3 4 (\<lambda>_. 1) (\<lambda>_. 0) (\<lambda>_. NaN)))
          ((3 + 1 - 2) * 1 * 0 + 0 * (3 + 1 - 2) + 0) =
        (if private_count \<lparr>N_THREADS = None, alloc_fails = (\<lambda>_. False), schedule = [[0, 1]],
          scratch = (\<lambda>_. \<lparr>ws_ccc = (\<lambda>_. Fin 0), ws_outa = (\<lambda>_. (Fin 0, Fin 0)),
                        ws_outb = (\<lambda>_. (Fin 0, Fin 0)), ws_out = (\<lambda>_. (Fin 0, Fin 0))\<rparr>)\<rparr> (\<lambda>i. Fin (if i = 3 then 1 / 2 ^ 25 else if odd i then 1 else 0)) 1 2 (\<lambda>i. Fin (real i)) 3 4 (\<lambda>_. 1) 0 0 = 0
         then shifted \<lparr>N_THREADS = None, alloc_fails = (\<lambda>_. False), schedule = [[0, 1]],
          scratch = (\<lambda>_. \<lparr>ws_ccc = (\<lambda>_. Fin 0), ws_outa = (\<lambda>_. (Fin 0, Fin 0)),
                        ws_outb = (\<lambda>_. (Fin 0, Fin 0)), ws_out = (\<lambda>_. (Fin 0, Fin 0))\<rparr>)\<rparr> (\<lambda>i. Fin (if i = 3 then 1 / 2 ^ 25 else if odd i then 1 else 0)) 1 2 (\<lambda>i. Fin (real i)) 3 4 (\<lambda>_. 1) (\<lambda>_. 0) 0 0 0
         else sanitised \<lparr>N_THREADS = None, alloc_fails = (\<lambda>_. False), schedule = [[0, 1]],
          scratch = (\<lambda>_. \<lparr>ws_ccc = (\<lambda>_. Fin 0), ws_outa = (\<lambda>_. (Fin 0, Fin 0)),
                        ws_outb = (\<lambda>_. (Fin 0, Fin 0)), ws_out = (\<lambda>_. (Fin 0, Fin 0))\<rparr>)\<rparr> (\<lambda>i. Fin (if i = 3 then 1 / 2 ^ 25 else if odd i then 1 else 0)) 1 2 (\<lambda>i. Fin (real i)) 3 4 (\<lambda>_. 1) 0 0 0)"
    by (rule channel_loop_trace [OF v]) simp_all
  then show "snd (snd (channel_loop \<lparr>N_THREADS = None, alloc_fails = (\<lambda>_. False), schedule = [[0, 1]],
          scratch = (\<lambda>_. \<lparr>ws_ccc = (\<lambda>_. Fin 0), ws_outa = (\<lambda>_. (Fin 0, Fin 0)),
                        ws_outb = (\<lambda>_. (Fin 0, Fin 0)), ws_out = (\<lambda>_. (Fin 0, Fin 0))\<rparr>)\<rparr> (\<lambda>i. Fin (if i = 3 then 1 / 2 ^ 25 else if odd i then 1 else 0)) 1 2 (\<lambda>i. Fin (real i)) 3 4 (\<lambda>_. 1) (\<lambda>_. 0)
                         (\<lambda>_. NaN))) 0 = Fin 1"
    unfolding i0 if_P [OF p0] s0 o0 c1 .
  have "snd (snd (channel_loop \<lparr>N_THREADS = None, alloc_fails = (\<lambda>_. False), schedule = [[0, 1]],
          scratch = (\<lambda>_. \<lparr>ws_ccc = (\<lambda>_. Fin 0), ws_outa = (\<lambda>_. (Fin 0, Fin 0)),
                        ws_outb = (\<lambda>_. (Fin 0, Fin 0)), ws_out = (\<lambda>_. (Fin 0, Fin 0))\<rparr>)\<rparr> (\<lambda>i. Fin (if i = 3 then 1 / 2 ^ 25 else if odd i then 1 else 0)) 1 2 (\<lambda>i. Fin (real i)) 3 4 (\<lambda>_. 1) (\<lambda>_. 0) (\<lambda>_. NaN)))
          ((3 + 1 - 2) * 1 * 1 + 0 * (3 + 1 - 2) + 0) =
        (if private_count \<lparr>N_THREADS = None, alloc_fails = (\<lambda>_. False), schedule = [[0, 1]],
          scratch = (\<lambda>_. \<lparr>ws_ccc = (\<lambda>_. Fin 0), ws_outa = (\<lambda>_. (Fin 0, Fin 0)),
                        ws_outb = (\<lambda>_. (Fin 0, Fin 0)), ws_out = (\<lambda>_. (Fin 0, Fin 0))\<rparr>)\<rparr> (\<lambda>i. Fin (if i = 3 then 1 / 2 ^ 25 else if odd i then 1 else 0)) 1 2 (\<lambda>i. Fin (real i)) 3 4 (\<lambda>_. 1) 1 0 = 0
         then shifted \<lparr>N_THREADS = None, alloc_fails = (\<lambda>_. False), schedule = [[0, 1]],
          scratch = (\<lambda>_. \<lparr>ws_ccc = (\<lambda>_. Fin 0), ws_outa = (\<lambda>_. (Fin 0, Fin 0)),
                        ws_outb = (\<lambda>_. (Fin 0, Fin 0)), ws_out = (\<lambda>_. (Fin 0, Fin 0))\<rparr>)\<rparr> (\<lambda>i. Fin (if i = 3 then 1 / 2 ^ 25 else if odd i then 1 else 0)) 1 2 (\<lambda>i. Fin (real i)) 3 4 (\<lambda>_. 1) (\<lambda>_. 0) 1 0 0
         else sanitised \<lparr>N_THREADS = None, alloc_fails = (\<lambda>_. False), schedule = [[0, 1]],
          scratch = (\<lambda>_. \<lparr>ws_ccc = (\<lambda>_. Fin 0), ws_outa = (\<lambda>_. (Fin 0, Fin 0)),
                        ws_outb = (\<lambda>_. (Fin 0, Fin 0)), ws_out = (\<lambda>_. (Fin 0, Fin 0))\<rparr>)\<rparr> (\<lambda>i. Fin (if i = 3 then 1 / 2 ^ 25 else if odd i then 1 else 0)) 1 2 (\<lambda>i. Fin (real i)) 3 4 (\<lambda>_. 1) 1 0 0)"
    by (rule channel_loop_trace [OF v]) simp_all
  then show "snd (snd (channel_loop \<lparr>N_THREADS = None, alloc_fails = (\<lambda>_. False), schedule = [[0, 1]],
          scratch = (\<lambda>_. \<lparr>ws_ccc = (\<lambda>_. Fin 0), ws_outa = (\<lambda>_. (Fin 0, Fin 0)),
                        ws_outb = (\<lambda>_. (Fin 0, Fin 0)), ws_out = (\<lambda>_. (Fin 0, Fin 0))\<rparr>)\<rparr> (\<lambda>i. Fin (if i = 3 then 1 / 2 ^ 25 else if odd i then 1 else 0)) 1 2 (\<lambda>i. Fin (real i)) 3 4 (\<lambda>_. 1) (\<lambda>_. 0)
                         (\<lambda>_. NaN))) 2 = Fin (1 / 2 ^ 25)"
    unfolding i1 if_P [OF p1] s1 o1 c1 .
qed


lemma sum_example_reduced:
  "accumulate 1 2 (3 + 1 - 2)
     (snd (snd (channel_loop \<lparr>N_THREADS = None, alloc_fails = (\<lambda>_. False), schedule = [[0, 1]],
          scratch = (\<lambda>_. \<lparr>ws_ccc = (\<lambda>_. Fin 0), ws_outa = (\<lambda>_. (Fin 0, Fin 0)),
                        ws_outb = (\<lambda>_. (Fin 0, Fin 0)), ws_out = (\<lambda>_. (Fin 0, Fin 0))\<rparr>)\<rparr> (\<lambda>i. Fin (if i = 3 then 1 / 2 ^ 25 else if odd i then 1 else 0)) 1 2 (\<lambda>i. Fin (real i)) 3 4 (\<lambda>_. 1) (\<lambda>_. 0) (\<lambda>_. NaN)))) 0
   = Fin 1"
proof -
  have l: "[1..<2] = [1::nat]" by (simp add: upt_rec)
  have i: "0 + 1 * (1 * (3 + 1 - 2)) = (2::nat)" by simp
  have b: "(0::nat) < 1 * (3 + 1 - 2)" by simp
  show ?thesis
    unfolding accumulate_eq if_P [OF b] l fold_simps id_apply i sum_example_cells faddf_Fin
    by (simp only: round_below_half)
qed

text \<open>
  C5 claims that after the reduction the plane of channel \<open>0\<close> holds the sum over the
  channels. The reduction adds \<^verbatim>\<open>float\<close> cells in place, so every addition is rounded to
  single precision. On two channels whose traces hold \<open>1\<close> and \<open>2\<^sup>-\<^sup>2\<^sup>5\<close> the call returns \<open>0\<close>
  and the cell holds \<open>1\<close>, not \<open>1 + 2\<^sup>-\<^sup>2\<^sup>5\<close>: the small term is below half a unit in the last
  place of \<open>1\<close>.
\<close>

theorem accumulation_counterexample:
  "multi_normxcorr_fftw_calloc \<lparr>N_THREADS = None, alloc_fails = (\<lambda>_. False), schedule = [[0, 1]],
          scratch = (\<lambda>_. \<lparr>ws_ccc = (\<lambda>_. Fin 0), ws_outa = (\<lambda>_. (Fin 0, Fin 0)),
                        ws_outb = (\<lambda>_. (Fin 0, Fin 0)), ws_out = (\<lambda>_. (Fin 0, Fin 0))\<rparr>)\<rparr> (\<lambda>i. Fin (if i = 3 then 1 / 2 ^ 25 else if odd i then 1 else 0)) 1 2 2 (\<lambda>i. Fin (real i)) 3 (\<lambda>_. NaN) 4
         (\<lambda>_. 1) (\<lambda>_. 0) =
       Inr (0, accumulate 1 2 (3 + 1 - 2)
                 (snd (snd (channel_loop \<lparr>N_THREADS = None, alloc_fails = (\<lambda>_. False), schedule = [[0, 1]],
          scratch = (\<lambda>_. \<lparr>ws_ccc = (\<lambda>_. Fin 0), ws_outa = (\<lambda>_. (Fin 0, Fin 0)),
                        ws_outb = (\<lambda>_. (Fin 0, Fin 0)), ws_out = (\<lambda>_. (Fin 0, Fin 0))\<rparr>)\<rparr> (\<lambda>i. Fin (if i = 3 then 1 / 2 ^ 25 else if odd i then 1 else 0)) 1 2 (\<lambda>i. Fin (real i)) 3 4
                              (\<lambda>_. 1) (\<lambda>_. 0) (\<lambda>_. NaN)))), {})
   \<and> accumulate 1 2 (3 + 1 - 2)
         (snd (snd (channel_loop \<lparr>N_THREADS = None, alloc_fails = (\<lambda>_. False), schedule = [[0, 1]],
          scratch = (\<lambda>_. \<lparr>ws_ccc = (\<lambda>_. Fin 0), ws_outa = (\<lambda>_. (Fin 0, Fin 0)),
                        ws_outb = (\<lambda>_. (Fin 0, Fin 0)), ws_out = (\<lambda>_. (Fin 0, Fin 0))\<rparr>)\<rparr> (\<lambda>i. Fin (if i = 3 then 1 / 2 ^ 25 else if odd i then 1 else 0)) 1 2 (\<lambda>i. Fin (real i)) 3 4
                      (\<lambda>_. 1) (\<lambda>_. 0) (\<lambda>_. NaN)))) 0 = Fin 1
   \<and> snd (snd (channel_loop \<lparr>N_THREADS = None, alloc_fails = (\<lambda>_. False), schedule = [[0, 1]],
          scratch = (\<lambda>_. \<lparr>ws_ccc = (\<lambda>_. Fin 0), ws_outa = (\<lambda>_. (Fin 0, Fin 0)),
                        ws_outb = (\<lambda>_. (Fin 0, Fin 0)), ws_out = (\<lambda>_. (Fin 0, Fin 0))\<rparr>)\<rparr> (\<lambda>i. Fin (if i = 3 then 1 / 2 ^ 25 else if odd i then 1 else 0)) 1 2 (\<lambda>i. Fin (real i)) 3 4 (\<lambda>_. 1) (\<lambda>_. 0) (\<lambda>_. NaN))) 0
       = Fin 1
   \<and> snd (snd (channel_loop \<lparr>N_THREADS = None, alloc_fails = (\<lambda>_. False), schedule = [[0, 1]],
          scratch = (\<lambda>_. \<lparr>ws_ccc = (\<lambda>_. Fin 0), ws_outa = (\<lambda>_. (Fin 0, Fin 0)),
                        ws_outb = (\<lambda>_. (Fin 0, Fin 0)), ws_out = (\<lambda>_. (Fin 0, Fin 0))\<rparr>)\<rparr> (\<lambda>i. Fin (if i = 3 then 1 / 2 ^ 25 else if odd i then 1 else 0)) 1 2 (\<lambda>i. Fin (real i)) 3 4 (\<lambda>_. 1) (\<lambda>_. 0) (\<lambda>_. NaN))) 2
       = Fin (1 / 2 ^ 25)
   \<and> Fin 1 \<noteq> Fin (1 + 1 / 2 ^ 25)"
  using sum_example_returns sum_example_reduced sum_example_cells by (intro conjI) simp_all

text \<open>
  C5, amended. When the routine returns \<open>0\<close> on at least one channel, for a schedule that
  runs every channel once, the cell of template \<open>k\<close> and sample \<open>j\<close> in the plane of channel
  \<open>0\<close> of the returned tensor is the running single-precision sum, in the order of the
  channels, of the cells of that template and sample in the tensor that the loop over the
  channels leaves: \<open>((y\<^sub>0 + y\<^sub>1) + y\<^sub>2) + \<dots>\<close> with every addition rounded to \<^verbatim>\<open>float\<close>. All the
  summands are finite and in \<open>[-1, 1]\<close>, and the cell equals their exact sum whenever no
  partial sum is changed by the rounding.
\<close>

theorem accumulation:
  fixes rt templates n_templates template_len n_channels img image_len ncc fft_len
    used_chans pad_array k j y h
  assumes "valid_schedule (schedule rt) n_channels"
    and "multi_normxcorr_fftw_calloc rt templates n_templates template_len n_channels img
           image_len ncc fft_len used_chans pad_array = Inr (0, y, h)"
    and "0 < n_channels" and "k < n_templates" and "j < image_len + 1 - template_len"
  defines "y_pre \<equiv> (\<lambda>c. snd (snd (channel_loop rt templates n_templates template_len img
                                   image_len fft_len used_chans pad_array ncc))
                          ((image_len + 1 - template_len) * n_templates * c
                             + k * (image_len + 1 - template_len) + j))"
  shows "y (k * (image_len + 1 - template_len) + j) =
           fold (\<lambda>c s. faddf s (y_pre c)) [1..<n_channels] (y_pre 0)
       \<and> (\<forall>c<n_channels. is_fin (y_pre c) \<and> \<bar>val (y_pre c)\<bar> \<le> 1)
       \<and> ((\<forall>m<n_channels. 0 < m \<longrightarrow>
               round_binary32 (\<Sum>c<Suc m. val (y_pre c)) = Fin (\<Sum>c<Suc m. val (y_pre c)))
            \<longrightarrow> y (k * (image_len + 1 - template_len) + j) =
                  Fin (\<Sum>c<n_channels. val (y_pre c)))"
proof -
  let ?sz = "image_len + 1 - template_len"
  let ?pre = "snd (snd (channel_loop rt templates n_templates template_len img
                                   image_len fft_len used_chans pad_array ncc))"
  have z: "fst (snd (channel_loop rt templates n_templates template_len img image_len
                             fft_len used_chans pad_array ncc)) = 0"
    using routine_returns(7) [OF assms(2)] by simp
  have y: "y = accumulate n_templates n_channels ?sz ?pre"
    using assms(2) by (rule routine_returns(6)) simp
  have r: "in_range (y_pre c)" if "c < n_channels" for c
    unfolding y_pre_def using assms(1) z that assms(4,5) by (rule count_zero_in_range)
  have b: "k * ?sz + j < n_templates * ?sz"
    using assms(4,5) by (rule plane_bound)
  have pre: "?pre (k * ?sz + j + c * (n_templates * ?sz)) = y_pre c" for c
    unfolding y_pre_def plane_index ..
  have pre0: "?pre (k * ?sz + j) = y_pre 0"
    using pre [of 0] by simp
  have one: "y (k * ?sz + j) = fold (\<lambda>c s. faddf s (y_pre c)) [1..<n_channels] (y_pre 0)"
    unfolding y accumulate_eq if_P [OF b] pre pre0 ..
  have two: "\<forall>c<n_channels. is_fin (y_pre c) \<and> \<bar>val (y_pre c)\<bar> \<le> 1"
    using r by (simp add: in_range_def)
  have three: "y (k * ?sz + j) = Fin (\<Sum>c<n_channels. val (y_pre c))"
    if e: "\<forall>m<n_channels. 0 < m \<longrightarrow>
               round_binary32 (\<Sum>c<Suc m. val (y_pre c)) = Fin (\<Sum>c<Suc m. val (y_pre c))"
  proof -
    obtain m where m: "n_channels = Suc m" using assms(3) by (cases n_channels) auto
    have "fold (\<lambda>c s. faddf s (y_pre c)) [1..<Suc m] (y_pre 0) =
          Fin (\<Sum>c<Suc m. val (y_pre c))"
    proof (rule float_sum_exact)
      fix c assume "c \<le> m"
      then have "is_fin (y_pre c)" using two m by simp
      then show "y_pre c = Fin (val (y_pre c))" by (simp add: is_fin_conv)
    next
      fix i assume "0 < i" "i \<le> m"
      then show "round_binary32 (\<Sum>c<Suc i. val (y_pre c)) = Fin (\<Sum>c<Suc i. val (y_pre c))"
        using e m by simp
    qed
    then show ?thesis unfolding one m .
  qed
  show ?thesis
    using one two three by blast
qed

theorem accumulation_witness:
  "valid_schedule (schedule \<lparr>N_THREADS = None, alloc_fails = (\<lambda>_. False), schedule = [[0, 1]],
          scratch = (\<lambda>_. \<lparr>ws_ccc = (\<lambda>_. Fin 0), ws_outa = (\<lambda>_. (Fin 0, Fin 0)),
                        ws_outb = (\<lambda>_. (Fin 0, Fin 0)), ws_out = (\<lambda>_. (Fin 0, Fin 0))\<rparr>)\<rparr>) 2
   \<and> multi_normxcorr_fftw_calloc \<lparr>N_THREADS = None, alloc_fails = (\<lambda>_. False), schedule = [[0, 1]],
          scratch = (\<lambda>_. \<lparr>ws_ccc = (\<lambda>_. Fin 0), ws_outa = (\<lambda>_. (Fin 0, Fin 0)),
                        ws_outb = (\<lambda>_. (Fin 0, Fin 0)), ws_out = (\<lambda>_. (Fin 0, Fin 0))\<rparr>)\<rparr> (\<lambda>i. Fin (if i = 3 then 1 / 2 ^ 25 else if odd i then 1 else 0)) 1 2 2 (\<lambda>i. Fin (real i)) 3 (\<lambda>_. NaN) 4
         (\<lambda>_. 1) (\<lambda>_. 0) =
       Inr (0, accumulate 1 2 (3 + 1 - 2)
                 (snd (snd (channel_loop \<lparr>N_THREADS = None, alloc_fails = (\<lambda>_. False), schedule = [[0, 1]],
          scratch = (\<lambda>_. \<lparr>ws_ccc = (\<lambda>_. Fin 0), ws_outa = (\<lambda>_. (Fin 0, Fin 0)),
                        ws_outb = (\<lambda>_. (Fin 0, Fin 0)), ws_out = (\<lambda>_. (Fin 0, Fin 0))\<rparr>)\<rparr> (\<lambda>i. Fin (if i = 3 then 1 / 2 ^ 25 else if odd i then 1 else 0)) 1 2 (\<lambda>i. Fin (real i)) 3 4
                              (\<lambda>_. 1) (\<lambda>_. 0) (\<lambda>_. NaN)))), {})
   \<and> (0::nat) < 2 \<and> (0::nat) < 1 \<and> (1::nat) < 3 + 1 - 2
   \<and> accumulate 1 2 (3 + 1 - 2)
         (snd (snd (channel_loop \<lparr>N_THREADS = None, alloc_fails = (\<lambda>_. False), schedule = [[0, 1]],
          scratch = (\<lambda>_. \<lparr>ws_ccc = (\<lambda>_. Fin 0), ws_outa = (\<lambda>_. (Fin 0, Fin 0)),
                        ws_outb = (\<lambda>_. (Fin 0, Fin 0)), ws_out = (\<lambda>_. (Fin 0, Fin 0))\<rparr>)\<rparr> (\<lambda>i. Fin (if i = 3 then 1 / 2 ^ 25 else if odd i then 1 else 0)) 1 2 (\<lambda>i. Fin (real i)) 3 4
                      (\<lambda>_. 1) (\<lambda>_. 0) (\<lambda>_. NaN)))) (0 * (3 + 1 - 2) + 1) =
       fold (\<lambda>c s. faddf s
               (snd (snd (channel_loop \<lparr>N_THREADS = None, alloc_fails = (\<lambda>_. False), schedule = [[0, 1]],
          scratch = (\<lambda>_. \<lparr>ws_ccc = (\<lambda>_. Fin 0), ws_outa = (\<lambda>_. (Fin 0, Fin 0)),
                        ws_outb = (\<lambda>_. (Fin 0, Fin 0)), ws_out = (\<lambda>_. (Fin 0, Fin 0))\<rparr>)\<rparr> (\<lambda>i. Fin (if i = 3 then 1 / 2 ^ 25 else if odd i then 1 else 0)) 1 2 (\<lambda>i. Fin (real i)) 3 4
                            (\<lambda>_. 1) (\<lambda>_. 0) (\<lambda>_. NaN)))
                  ((3 + 1 - 2) * 1 * c + 0 * (3 + 1 - 2) + 1)))
         [1..<2]
         (snd (snd (channel_loop \<lparr>N_THREADS = None, alloc_fails = (\<lambda>_. False), schedule = [[0, 1]],
          scratch = (\<lambda>_. \<lparr>ws_ccc = (\<lambda>_. Fin 0), ws_outa = (\<lambda>_. (Fin 0, Fin 0)),
                        ws_outb = (\<lambda>_. (Fin 0, Fin 0)), ws_out = (\<lambda>_. (Fin 0, Fin 0))\<rparr>)\<rparr> (\<lambda>i. Fin (if i = 3 then 1 / 2 ^ 25 else if odd i then 1 else 0)) 1 2 (\<lambda>i. Fin (real i)) 3 4
                      (\<lambda>_. 1) (\<lambda>_. 0) (\<lambda>_. NaN)))
            ((3 + 1 - 2) * 1 * 0 + 0 * (3 + 1 - 2) + 1))"
proof -
  have v: "valid_schedule (schedule \<lparr>N_THREADS = None, alloc_fails = (\<lambda>_. False), schedule = [[0, 1]],
          scratch = (\<lambda>_. \<lparr>ws_ccc = (\<lambda>_. Fin 0), ws_outa = (\<lambda>_. (Fin 0, Fin 0)),
                        ws_outb = (\<lambda>_. (Fin 0, Fin 0)), ws_out = (\<lambda>_. (Fin 0, Fin 0))\<rparr>)\<rparr>) 2"
    by (auto simp: valid_schedule_def)
  have n: "(0::nat) < 2" "(0::nat) < 1" "(1::nat) < 3 + 1 - 2" by simp_all
  note th = accumulation [OF v sum_example_returns n]
  show ?thesis
    by (intro conjI) (rule v sum_example_returns n th [THEN conjunct1])+
qed

end
